(* ===== verification/Prelude.thy ===== *)
theory Prelude
  imports Main "HOL-Library.Sublist" "HOL-Library.AList" "HOL-Library.List_Lexorder"
    "HOL-Library.Char_ord" "HOL-Library.Product_Lexorder" "HOL-Library.Multiset"
begin

text \<open>
  What every component shares: the collections of simplification facts, Go's \<open>for range\<close>
  with an early error return (\<open>foldM\<close>), and Go's \<open>map[K]V\<close> as an association list with
  distinct keys. Strings are \<open>char list\<close>s; a \<open>char\<close> is a byte, as in a Go string, and
  \<open>List_Lexorder\<close> with \<open>Char_ord\<close> is Go's byte-wise string order.
\<close>

named_theorems go_defs "definitions of the Go standard library that proofs unfold"
named_theorems gm_simps "facts about Go maps"

type_synonym ('k, 'v) gomap = "('k \<times> 'v) list"

subsection \<open>Loops that return at the first error\<close>

fun foldM :: "('s \<Rightarrow> 'a \<Rightarrow> 'e + 's) \<Rightarrow> 's \<Rightarrow> 'a list \<Rightarrow> 'e + 's" where
  "foldM f s [] = Inr s"
| "foldM f s (x # xs) = (case f s x of Inl e \<Rightarrow> Inl e | Inr s' \<Rightarrow> foldM f s' xs)"

text \<open>An invariant of the body is an invariant of the loop.\<close>

lemma foldM_invariant:
  assumes "foldM f s xs = Inr t" and "P s"
    and "\<And>s x s'. x \<in> set xs \<Longrightarrow> P s \<Longrightarrow> f s x = Inr s' \<Longrightarrow> P s'"
  shows "P t"
  using assms
proof (induction xs arbitrary: s)
  case Nil
  then show ?case by simp
next
  case (Cons x xs)
  from Cons.prems(1) obtain s' where s': "f s x = Inr s'" "foldM f s' xs = Inr t"
    by (auto split: sum.splits)
  have "P s'" using Cons.prems(3) [of x s s'] Cons.prems(2) s'(1) by simp
  with Cons.IH [OF s'(2)] Cons.prems(3) show ?case by (meson list.set_intros(2))
qed

lemma foldM_error:
  "foldM f s xs = Inl e \<Longrightarrow> \<exists>s' x. x \<in> set xs \<and> f s' x = Inl e"
proof (induction xs arbitrary: s)
  case (Cons x xs)
  then show ?case by (cases "f s x") (auto, blast)
qed simp

lemma foldM_append:
  "foldM f s (xs @ ys) = (case foldM f s xs of Inl e \<Rightarrow> Inl e | Inr s' \<Rightarrow> foldM f s' ys)"
  by (induction xs arbitrary: s) (auto split: sum.splits)

lemma foldM_cong_pred:
  "(\<And>s x. x \<in> set xs \<Longrightarrow> f s x = g s x) \<Longrightarrow> foldM f s xs = foldM g s xs"
  by (induction xs arbitrary: s) (auto split: sum.splits)

text \<open>A relation that the body establishes for its element and keeps for the earlier ones
  holds for every element at the end.\<close>

lemma foldM_each:
  assumes "foldM f s xs = Inr t" and "x \<in> set xs"
    and est: "\<And>s x s'. f s x = Inr s' \<Longrightarrow> Q x s'"
    and keep: "\<And>s y s' x. f s y = Inr s' \<Longrightarrow> Q x s \<Longrightarrow> Q x s'"
  shows "Q x t"
  using assms(1,2)
proof (induction xs arbitrary: s)
  case Nil
  then show ?case by simp
next
  case (Cons y xs)
  from Cons.prems(1) obtain s' where s': "f s y = Inr s'" "foldM f s' xs = Inr t"
    by (auto split: sum.splits)
  show ?case
  proof (cases "x \<in> set xs")
    case True
    with Cons.IH s'(2) show ?thesis by blast
  next
    case False
    with Cons.prems(2) have "x = y" by simp
    with est s'(1) have "Q x s'" by blast
    with s'(2) show ?thesis by (rule foldM_invariant) (rule keep)
  qed
qed

text \<open>A loop whose body may return an error and has no other effect: the first error found.\<close>

fun first_err :: "('a \<Rightarrow> 'e option) \<Rightarrow> 'a list \<Rightarrow> 'e option" where
  "first_err f [] = None"
| "first_err f (x # xs) = (case f x of None \<Rightarrow> first_err f xs | Some e \<Rightarrow> Some e)"

lemma first_err_None [simp]: "first_err f xs = None \<longleftrightarrow> (\<forall>x \<in> set xs. f x = None)"
  by (induction xs) (auto split: option.splits)

lemma first_err_Some: "first_err f xs = Some e \<Longrightarrow> \<exists>x \<in> set xs. f x = Some e"
  by (induction xs) (auto split: option.splits)

lemma find_SomeD: "find P xs = Some x \<Longrightarrow> x \<in> set xs \<and> P x"
  by (induction xs) (auto split: if_splits)

text \<open>\<open>if err := a; err != nil { return err }\<close> followed by \<open>b\<close>.\<close>

definition err_then :: "'e option \<Rightarrow> 'e option \<Rightarrow> 'e option" where
  "err_then a b = (case a of Some e \<Rightarrow> Some e | None \<Rightarrow> b)"

lemma err_then_None [simp]: "err_then a b = None \<longleftrightarrow> a = None \<and> b = None"
  by (auto simp: err_then_def split: option.splits)

lemma err_then_simps [simp]: "err_then None b = b" "err_then (Some e) b = Some e"
  by (simp_all add: err_then_def)

text \<open>The elements with their positions, as \<open>for i, x := range xs\<close> gives them.\<close>

definition indexed :: "'a list \<Rightarrow> (nat \<times> 'a) list" where
  "indexed xs = zip [0..<length xs] xs"

lemma snd_set_indexed [simp]: "snd ` set (indexed xs) = set xs"
  by (metis indexed_def length_map map_nth map_snd_zip set_map)

lemma indexed_Ball: "(\<forall>ix \<in> set (indexed xs). P (snd ix)) \<longleftrightarrow> (\<forall>x \<in> set xs. P x)"
  by (subst snd_set_indexed [symmetric]) blast

subsection \<open>Go maps\<close>

text \<open>\<open>gm_get d k m\<close> is the Go expression \<open>m[k]\<close>, whose value for a missing key is the zero
  value \<open>d\<close> of the element type.\<close>

definition gm_get :: "'v \<Rightarrow> 'k \<Rightarrow> ('k, 'v) gomap \<Rightarrow> 'v" where
  "gm_get d k m = (case map_of m k of None \<Rightarrow> d | Some v \<Rightarrow> v)"

definition gm_set :: "'k \<Rightarrow> 'v \<Rightarrow> ('k, 'v) gomap \<Rightarrow> ('k, 'v) gomap" where
  "gm_set k v m = AList.update k v m"

definition gm_keys :: "('k, 'v) gomap \<Rightarrow> 'k list" where
  "gm_keys m = map fst m"

definition gm_wf :: "('k, 'v) gomap \<Rightarrow> bool" where
  "gm_wf m = distinct (map fst m)"

text \<open>\<open>slices.Sorted(maps.Keys(m))\<close>.\<close>

definition gm_sorted_keys :: "('k::linorder, 'v) gomap \<Rightarrow> 'k list" where
  "gm_sorted_keys m = sort (map fst m)"

lemma gm_get_set [simp, gm_simps]: "gm_get d k (gm_set k' v m) = (if k = k' then v else gm_get d k m)"
  by (simp add: gm_get_def gm_set_def update_conv)

lemma gm_get_Nil [simp, gm_simps]: "gm_get d k [] = d"
  by (simp add: gm_get_def)

lemma gm_wf_set [simp, intro, gm_simps]: "gm_wf m \<Longrightarrow> gm_wf (gm_set k v m)"
  by (simp add: gm_wf_def gm_set_def distinct_update)

lemma gm_wf_Nil [simp, gm_simps]: "gm_wf []"
  by (simp add: gm_wf_def)

lemma set_gm_keys_set [simp, gm_simps]: "set (gm_keys (gm_set k v m)) = insert k (set (gm_keys m))"
  by (simp add: gm_keys_def gm_set_def dom_update)

lemma set_gm_sorted_keys [simp, gm_simps]: "set (gm_sorted_keys m) = set (gm_keys m)"
  by (simp add: gm_sorted_keys_def gm_keys_def)

lemma gm_keys_Nil [simp, gm_simps]: "gm_keys [] = []"
  by (simp add: gm_keys_def)

lemma gm_keys_empty_iff [simp, gm_simps]: "gm_keys m = [] \<longleftrightarrow> m = []"
  by (simp add: gm_keys_def)

lemma gm_set_neq_Nil [simp, gm_simps]: "gm_set k v m \<noteq> []"
  by (metis gm_keys_Nil insert_not_empty list.set(1) set_gm_keys_set)

lemma gm_get_notin [gm_simps]: "k \<notin> set (gm_keys m) \<Longrightarrow> gm_get d k m = d"
  by (auto simp: gm_get_def gm_keys_def split: option.splits dest: map_of_SomeD)
     (metis fst_conv image_eqI map_of_SomeD)

lemma gm_get_in: "gm_wf m \<Longrightarrow> (k, v) \<in> set m \<Longrightarrow> gm_get d k m = v"
  by (simp add: gm_get_def gm_wf_def map_of_eq_Some_iff [THEN iffD2])

text \<open>Two orders of the same entries give the same sorted keys: what makes iteration over
  \<open>slices.Sorted(maps.Keys(m))\<close> deterministic although Go's own map iteration is not.\<close>

lemma gm_sorted_keys_perm: "mset m = mset m' \<Longrightarrow> gm_sorted_keys m = gm_sorted_keys m'"
  by (metis gm_sorted_keys_def mset_map sorted_list_of_multiset_mset)

lemma gm_get_perm: "gm_wf m \<Longrightarrow> mset m = mset m' \<Longrightarrow> gm_get d k m = gm_get d k m'"
proof -
  assume wf: "gm_wf m" and eq: "mset m = mset m'"
  from eq have "mset (map fst m) = mset (map fst m')" by (metis mset_map)
  then have wf': "distinct (map fst m')"
    using wf unfolding gm_wf_def by (metis mset_eq_imp_distinct_iff)
  have "map_of m = map_of m'"
    using wf wf' eq unfolding gm_wf_def by (metis map_of_inject_set mset_eq_setD)
  then show ?thesis by (simp add: gm_get_def)
qed

end
