(* ===== verification/Go_Strings.thy ===== *)
theory Go_Strings
  imports Prelude
begin

text \<open>
  The functions of Go's \<open>strings\<close>, \<open>strconv\<close> and \<open>unicode/utf8\<close> packages that the program
  calls, on byte strings, with the facts the components use: searching, splitting and joining,
  trimming, decimal numbers and rune decoding. White space is Go's \<open>unicode.IsSpace\<close>: the ASCII
  spaces and the UTF-8 encodings of the other space runes.
\<close>

subsection \<open>Searching\<close>

definition hasPrefix :: "string \<Rightarrow> string \<Rightarrow> bool" where
  "hasPrefix s p = prefix p s"

definition hasSuffix :: "string \<Rightarrow> string \<Rightarrow> bool" where
  "hasSuffix s p = suffix p s"

definition trimPrefix :: "string \<Rightarrow> string \<Rightarrow> string" where
  "trimPrefix s p = (if prefix p s then drop (length p) s else s)"

definition cutPrefix :: "string \<Rightarrow> string \<Rightarrow> string option" where
  "cutPrefix s p = (if prefix p s then Some (drop (length p) s) else None)"

text \<open>\<open>strings.Index\<close>; \<open>None\<close> stands for -1.\<close>

fun str_index :: "string \<Rightarrow> string \<Rightarrow> nat option" where
  "str_index [] sub = (if sub = [] then Some 0 else None)"
| "str_index (c # cs) sub =
     (if prefix sub (c # cs) then Some 0 else map_option Suc (str_index cs sub))"

definition contains :: "string \<Rightarrow> string \<Rightarrow> bool" where
  "contains s sub = (str_index s sub \<noteq> None)"

text \<open>\<open>strings.Cut\<close>: the parts before and after the first separator.\<close>

definition str_cut :: "string \<Rightarrow> string \<Rightarrow> (string \<times> string) option" where
  "str_cut s sep = (case str_index s sep of None \<Rightarrow> None
     | Some i \<Rightarrow> Some (take i s, drop (i + length sep) s))"

lemma str_index_Some: "str_index s sub = Some i \<Longrightarrow> s = take i s @ sub @ drop (i + length sub) s \<and> i + length sub \<le> length s"
proof (induction s sub arbitrary: i rule: str_index.induct)
  case (1 sub)
  then show ?case by (simp split: if_splits)
next
  case (2 c cs sub)
  show ?case
  proof (cases "prefix sub (c # cs)")
    case True
    with "2.prems" have "i = 0" by simp
    with True show ?thesis
      by (metis append.left_neutral append_eq_conv_conj drop_0 length_append le_add1 prefix_def take_0 add_0)
  next
    case False
    with "2.prems" obtain j where "str_index cs sub = Some j" "i = Suc j" by auto
    with "2.IH" [OF False, of j] show ?thesis by simp
  qed
qed

lemma str_index_append: "str_index (a @ sub @ b) sub \<noteq> None"
proof (induction a)
  case Nil
  have "prefix sub (sub @ b)" by simp
  then show ?case by (cases "sub @ b") (simp_all del: append_Cons)
next
  case (Cons c a)
  then show ?case by auto
qed

lemma contains_iff: "contains s sub \<longleftrightarrow> (\<exists>a b. s = a @ sub @ b)"
proof
  assume "contains s sub"
  then obtain i where "str_index s sub = Some i" by (auto simp: contains_def)
  then show "\<exists>a b. s = a @ sub @ b" by (meson str_index_Some)
next
  assume "\<exists>a b. s = a @ sub @ b"
  then show "contains s sub" using str_index_append by (auto simp: contains_def)
qed

lemma contains_append [intro]: "contains (a @ sub @ b) sub"
  by (auto simp: contains_iff)

lemma contains_trans: "contains s t \<Longrightarrow> contains t u \<Longrightarrow> contains s u"
  unfolding contains_iff by (metis append.assoc)

subsection \<open>Splitting and joining\<close>

text \<open>\<open>strings.Split\<close> with a one-byte separator.\<close>

fun split_on :: "char \<Rightarrow> string \<Rightarrow> string list" where
  "split_on c [] = [[]]"
| "split_on c (x # xs) =
     (if x = c then [] # split_on c xs
      else (case split_on c xs of [] \<Rightarrow> [[x]] | l # ls \<Rightarrow> (x # l) # ls))"

text \<open>\<open>strings.Join\<close>.\<close>

fun join :: "string \<Rightarrow> string list \<Rightarrow> string" where
  "join sep [] = []"
| "join sep [x] = x"
| "join sep (x # y # ys) = x @ sep @ join sep (y # ys)"

lemma split_on_neq_Nil [simp]: "split_on c s \<noteq> []"
  by (cases s) (auto split: list.splits)

lemma join_Cons: "join sep (x # xs) = (if xs = [] then x else x @ sep @ join sep xs)"
  by (cases xs) auto

lemma join_append:
  "xs \<noteq> [] \<Longrightarrow> ys \<noteq> [] \<Longrightarrow> join sep (xs @ ys) = join sep xs @ sep @ join sep ys"
  by (induction xs) (auto simp: join_Cons)

lemma join_split_on: "join [c] (split_on c s) = s"
proof (induction s)
  case Nil
  show ?case by simp
next
  case (Cons x xs)
  then show ?case
    by (cases "split_on c xs") (auto simp: join_Cons)
qed

lemma split_on_no_sep: "c \<notin> set s \<Longrightarrow> split_on c s = [s]"
  by (induction s) auto

lemma split_on_append: "c \<notin> set a \<Longrightarrow> split_on c (a @ c # b) = a # split_on c b"
  by (induction a) auto

lemma split_on_parts: "l \<in> set (split_on c s) \<Longrightarrow> c \<notin> set l"
  by (induction s arbitrary: l) (auto split: list.splits if_splits)

lemma split_on_sub: "l \<in> set (split_on c s) \<Longrightarrow> set l \<subseteq> set s"
proof (induction s arbitrary: l)
  case (Cons x xs)
  then show ?case
    by (cases "split_on c xs") (auto split: if_splits, blast+)
qed simp

lemma split_on_join:
  "ls \<noteq> [] \<Longrightarrow> (\<And>l. l \<in> set ls \<Longrightarrow> c \<notin> set l) \<Longrightarrow> split_on c (join [c] ls) = ls"
  by (induction ls) (auto simp: join_Cons split_on_no_sep split_on_append)

text \<open>\<open>strings.ReplaceAll\<close> of one byte.\<close>

definition replace_char :: "char \<Rightarrow> string \<Rightarrow> string \<Rightarrow> string" where
  "replace_char c r s = concat (map (\<lambda>x. if x = c then r else [x]) s)"

subsection \<open>Trimming\<close>

definition trimRight :: "string \<Rightarrow> string \<Rightarrow> string" where
  "trimRight s cutset = rev (dropWhile (\<lambda>c. c \<in> set cutset) (rev s))"

definition trimLeft :: "string \<Rightarrow> string \<Rightarrow> string" where
  "trimLeft s cutset = dropWhile (\<lambda>c. c \<in> set cutset) s"

definition trim :: "string \<Rightarrow> string \<Rightarrow> string" where
  "trim s cutset = trimRight (trimLeft s cutset) cutset"

lemma trimRight_last: "trimRight s cutset \<noteq> [] \<Longrightarrow> last (trimRight s cutset) \<notin> set cutset"
  unfolding trimRight_def by (metis (mono_tags, lifting) hd_dropWhile last_rev rev_is_Nil_conv)

lemma trimRight_eq_iff: "trimRight s cutset = s \<longleftrightarrow> s = [] \<or> last s \<notin> set cutset"
proof (cases s rule: rev_cases)
  case Nil
  then show ?thesis by (simp add: trimRight_def)
next
  case (snoc ys y)
  have "length (dropWhile (\<lambda>c. c \<in> set cutset) (rev ys)) \<le> length ys"
    by (metis length_dropWhile_le length_rev)
  then have "rev (dropWhile (\<lambda>c. c \<in> set cutset) (rev ys)) \<noteq> ys @ [y]"
    by (metis Suc_n_not_le_n length_append_singleton length_rev)
  with snoc show ?thesis by (auto simp: trimRight_def)
qed

lemma trimRight_idem [simp]: "trimRight (trimRight s cutset) cutset = trimRight s cutset"
  using trimRight_eq_iff trimRight_last by blast

lemma trimRight_prefix: "prefix (trimRight s cutset) s"
  unfolding trimRight_def prefix_def
  by (metis rev_append rev_rev_ident takeWhile_dropWhile_id)

lemma set_trimRight: "set (trimRight s cutset) \<subseteq> set s"
  using trimRight_prefix [of s cutset] set_mono_prefix by blast

text \<open>The UTF-8 encodings of the runes for which \<open>unicode.IsSpace\<close> holds.\<close>

definition space_runes :: "string list" where
  "space_runes =
     [[CHR 0x09], [CHR 0x0A], [CHR 0x0B], [CHR 0x0C], [CHR 0x0D], [CHR 0x20],
      [CHR 0xC2, CHR 0x85], [CHR 0xC2, CHR 0xA0], [CHR 0xE1, CHR 0x9A, CHR 0x80],
      [CHR 0xE2, CHR 0x80, CHR 0x80], [CHR 0xE2, CHR 0x80, CHR 0x81],
      [CHR 0xE2, CHR 0x80, CHR 0x82], [CHR 0xE2, CHR 0x80, CHR 0x83],
      [CHR 0xE2, CHR 0x80, CHR 0x84], [CHR 0xE2, CHR 0x80, CHR 0x85],
      [CHR 0xE2, CHR 0x80, CHR 0x86], [CHR 0xE2, CHR 0x80, CHR 0x87],
      [CHR 0xE2, CHR 0x80, CHR 0x88], [CHR 0xE2, CHR 0x80, CHR 0x89],
      [CHR 0xE2, CHR 0x80, CHR 0x8A], [CHR 0xE2, CHR 0x80, CHR 0xA8],
      [CHR 0xE2, CHR 0x80, CHR 0xA9], [CHR 0xE2, CHR 0x80, CHR 0xAF],
      [CHR 0xE2, CHR 0x81, CHR 0x9F], [CHR 0xE3, CHR 0x80, CHR 0x80]]"

definition starts_with_any :: "string list \<Rightarrow> string \<Rightarrow> string option" where
  "starts_with_any encs s = find (\<lambda>p. p \<noteq> [] \<and> prefix p s) encs"

lemma starts_with_any_Some:
  "starts_with_any encs s = Some p \<Longrightarrow> p \<in> set encs \<and> p \<noteq> [] \<and> prefix p s"
  unfolding starts_with_any_def by (auto simp: find_Some_iff)

lemma starts_with_any_None:
  "starts_with_any encs s = None \<longleftrightarrow> (\<forall>p \<in> set encs. p \<noteq> [] \<longrightarrow> \<not> prefix p s)"
  unfolding starts_with_any_def by (auto simp: find_None_iff)

function trim_start :: "string list \<Rightarrow> string \<Rightarrow> string" where
  "trim_start encs s =
     (case starts_with_any encs s of None \<Rightarrow> s
      | Some p \<Rightarrow> trim_start encs (drop (length p) s))"
  by pat_completeness auto
termination
proof (relation "measure (\<lambda>(encs, s). length s)", goal_cases)
  case 1
  show ?case by simp
next
  case (2 encs s p)
  then show ?case
    by (auto dest!: starts_with_any_Some simp: prefix_def)
qed

declare trim_start.simps [simp del]

text \<open>\<open>strings.TrimSpace\<close>.\<close>

definition trimSpace :: "string \<Rightarrow> string" where
  "trimSpace s = rev (trim_start (map rev space_runes) (rev (trim_start space_runes s)))"

lemma trim_start_id: "starts_with_any encs s = None \<Longrightarrow> trim_start encs s = s"
  by (simp add: trim_start.simps)

lemma trim_start_step:
  "starts_with_any encs s = Some p \<Longrightarrow> trim_start encs s = trim_start encs (drop (length p) s)"
  by (simp add: trim_start.simps [of encs s])

lemma trim_start_None: "starts_with_any encs (trim_start encs s) = None"
proof (induction encs s rule: trim_start.induct)
  case (1 encs s)
  show ?case
  proof (cases "starts_with_any encs s")
    case None
    then show ?thesis by (simp add: trim_start_id)
  next
    case (Some p)
    with "1.IH" [OF Some] show ?thesis by (simp add: trim_start_step)
  qed
qed

lemma trim_start_suffix: "suffix (trim_start encs s) s"
proof (induction encs s rule: trim_start.induct)
  case (1 encs s)
  show ?case
  proof (cases "starts_with_any encs s")
    case None
    then show ?thesis by (simp add: trim_start_id)
  next
    case (Some p)
    from "1.IH" [OF Some] have "suffix (trim_start encs s) (drop (length p) s)"
      by (simp add: trim_start_step [OF Some])
    then show ?thesis by (meson suffix_drop suffix_order.trans)
  qed
qed

lemma set_trimSpace: "set (trimSpace s) \<subseteq> set s"
proof -
  have "set (trim_start encs t) \<subseteq> set t" for encs t
    by (metis set_mono_suffix trim_start_suffix)
  then show ?thesis unfolding trimSpace_def by (metis dual_order.trans set_rev)
qed

text \<open>A text that neither starts with the first byte nor ends with the last byte of a space
  rune is left alone.\<close>

definition space_lead :: "char set" where
  "space_lead = set (map hd space_runes)"

definition space_last :: "char set" where
  "space_last = set (map last space_runes)"

lemma starts_with_any_lead:
  assumes "s \<noteq> []" and "hd s \<notin> hd ` set encs"
  shows "starts_with_any encs s = None"
  using assms unfolding starts_with_any_None by (auto simp: prefix_def)

lemma starts_with_any_Nil [simp]: "starts_with_any encs [] = None"
  by (auto simp: starts_with_any_None)

lemma trimSpace_id:
  assumes "s = [] \<or> hd s \<notin> space_lead \<and> last s \<notin> space_last"
  shows "trimSpace s = s"
proof (cases "s = []")
  case True
  then show ?thesis by (simp add: trimSpace_def trim_start_id)
next
  case False
  with assms have "hd s \<notin> hd ` set space_runes" "last s \<notin> last ` set space_runes"
    by (auto simp: space_lead_def space_last_def)
  moreover from this have "hd (rev s) \<notin> hd ` set (map rev space_runes)"
    by (auto simp: hd_rev)
  ultimately show ?thesis
    using False by (simp add: trimSpace_def trim_start_id starts_with_any_lead)
qed

lemma trimSpace_tab [simp]: "trimSpace (CHR 0x09 # s) = trimSpace s"
proof -
  have "starts_with_any space_runes (CHR 0x09 # s) = Some [CHR 0x09]"
    by (simp add: starts_with_any_def space_runes_def)
  then show ?thesis by (simp add: trimSpace_def trim_start_step)
qed

text \<open>\<open>strings.Fields\<close>: the maximal runs of non-space runes.\<close>

function fields_aux :: "string \<Rightarrow> string \<Rightarrow> string list" where
  "fields_aux cur s =
     (case s of [] \<Rightarrow> (if cur = [] then [] else [cur])
      | c # cs \<Rightarrow>
         (case starts_with_any space_runes s of
            None \<Rightarrow> fields_aux (cur @ [c]) cs
          | Some p \<Rightarrow> (if cur = [] then [] else [cur]) @ fields_aux [] (drop (length p) s)))"
  by pat_completeness auto
termination
proof (relation "measure (\<lambda>(cur, s). length s)", goal_cases)
  case 1
  show ?case by simp
next
  case (2 cur s c cs)
  then show ?case by simp
next
  case (3 cur s c cs p)
  then show ?case by (auto dest!: starts_with_any_Some simp: prefix_def)
qed

declare fields_aux.simps [simp del]

definition fields :: "string \<Rightarrow> string list" where
  "fields s = fields_aux [] s"

subsection \<open>Decimal numbers\<close>

definition digit_char :: "nat \<Rightarrow> char" where
  "digit_char d = char_of (48 + d)"

fun show_nat :: "nat \<Rightarrow> string" where
  "show_nat n = (if n < 10 then [digit_char n] else show_nat (n div 10) @ [digit_char (n mod 10)])"

declare show_nat.simps [simp del]

definition itoa :: "int \<Rightarrow> string" where
  "itoa i = (if i < 0 then CHR ''-'' # show_nat (nat (- i)) else show_nat (nat i))"

definition is_digit :: "char \<Rightarrow> bool" where
  "is_digit c = (48 \<le> (of_char c :: nat) \<and> (of_char c :: nat) \<le> 57)"

definition digits_val :: "string \<Rightarrow> nat" where
  "digits_val s = foldl (\<lambda>n c. 10 * n + (of_char c - 48)) 0 s"

lemma of_char_digit_char [simp]: "d < 10 \<Longrightarrow> of_char (digit_char d) = (48 + d :: nat)"
  by (simp add: digit_char_def)

lemma show_nat_digits: "c \<in> set (show_nat n) \<Longrightarrow> is_digit c"
proof (induction n rule: show_nat.induct)
  case (1 n)
  show ?case
  proof (cases "n < 10")
    case True
    with "1.prems" show ?thesis by (simp add: show_nat.simps [of n] is_digit_def)
  next
    case False
    with "1.prems" have "c \<in> set (show_nat (n div 10)) \<or> c = digit_char (n mod 10)"
      by (auto simp: show_nat.simps [of n])
    with "1.IH" [OF False] show ?thesis by (auto simp: is_digit_def)
  qed
qed

lemma show_nat_neq_Nil [simp]: "show_nat n \<noteq> []"
  by (subst show_nat.simps) simp

lemma digits_val_show_nat: "digits_val (show_nat n) = n"
proof (induction n rule: show_nat.induct)
  case (1 n)
  then show ?case
    by (cases "n < 10") (simp_all add: show_nat.simps [of n] digits_val_def)
qed

lemma show_nat_inject: "show_nat m = show_nat n \<longleftrightarrow> m = n"
  by (metis digits_val_show_nat)

subsection \<open>Runes\<close>

definition cont_byte :: "char \<Rightarrow> bool" where
  "cont_byte c = (128 \<le> (of_char c :: nat) \<and> (of_char c :: nat) \<le> 191)"

definition runeError :: nat where
  "runeError = 65533"

text \<open>\<open>utf8.DecodeRuneInString\<close>: the first rune and its width in bytes, with the bounds on the
  second byte that exclude overlong encodings, surrogates and runes above 10FFFF. The empty
  string gives \<open>(RuneError, 0)\<close>, an invalid byte \<open>(RuneError, 1)\<close>.\<close>

definition second_ok :: "nat \<Rightarrow> nat \<Rightarrow> bool" where
  "second_ok b0 b1 =
     (if b0 = 224 then 160 \<le> b1 \<and> b1 \<le> 191
      else if b0 = 237 then 128 \<le> b1 \<and> b1 \<le> 159
      else if b0 = 240 then 144 \<le> b1 \<and> b1 \<le> 191
      else if b0 = 244 then 128 \<le> b1 \<and> b1 \<le> 143
      else 128 \<le> b1 \<and> b1 \<le> 191)"

definition decodeRune :: "string \<Rightarrow> nat \<times> nat" where
  "decodeRune s =
     (case s of [] \<Rightarrow> (runeError, 0)
      | c0 # t0 \<Rightarrow>
         (let b0 = of_char c0 :: nat in
          if b0 < 128 then (b0, 1)
          else if b0 < 194 \<or> 244 < b0 then (runeError, 1)
          else (case t0 of [] \<Rightarrow> (runeError, 1)
            | c1 # t1 \<Rightarrow>
               (let b1 = of_char c1 :: nat in
                if \<not> second_ok b0 b1 then (runeError, 1)
                else if b0 < 224 then ((b0 - 192) * 64 + (b1 - 128), 2)
                else (case t1 of [] \<Rightarrow> (runeError, 1)
                  | c2 # t2 \<Rightarrow>
                     (let b2 = of_char c2 :: nat in
                      if \<not> cont_byte c2 then (runeError, 1)
                      else if b0 < 240 then
                        ((b0 - 224) * 4096 + (b1 - 128) * 64 + (b2 - 128), 3)
                      else (case t2 of [] \<Rightarrow> (runeError, 1)
                        | c3 # t3 \<Rightarrow>
                           (if \<not> cont_byte c3 then (runeError, 1)
                            else ((b0 - 240) * 262144 + (b1 - 128) * 4096 + (b2 - 128) * 64
                                   + (of_char c3 - 128), 4)))))))))"

lemma decodeRune_width: "s \<noteq> [] \<Longrightarrow> 0 < snd (decodeRune s) \<and> snd (decodeRune s) \<le> length s"
  by (auto simp: decodeRune_def Let_def split: list.splits)

lemma decodeRune_ascii: "(of_char c :: nat) < 128 \<Longrightarrow> decodeRune (c # s) = (of_char c, 1)"
  by (simp add: decodeRune_def)

text \<open>\<open>utf8.RuneCountInString\<close>.\<close>

function runeCount :: "string \<Rightarrow> nat" where
  "runeCount s = (if s = [] then 0 else Suc (runeCount (drop (snd (decodeRune s)) s)))"
  by pat_completeness auto
termination
  by (relation "measure length") (auto dest: decodeRune_width)

declare runeCount.simps [simp del]

lemma runeCount_le_length: "runeCount s \<le> length s"
proof (induction s rule: runeCount.induct)
  case (1 s)
  show ?case
  proof (cases "s = []")
    case True
    then show ?thesis by (simp add: runeCount.simps)
  next
    case False
    have "runeCount (drop (snd (decodeRune s)) s) \<le> length s - snd (decodeRune s)"
      using "1.IH" [OF False] by simp
    moreover have "0 < snd (decodeRune s) \<and> snd (decodeRune s) \<le> length s"
      by (rule decodeRune_width [OF False])
    ultimately have "Suc (runeCount (drop (snd (decodeRune s)) s)) \<le> length s" by linarith
    with False show ?thesis by (simp add: runeCount.simps [of s])
  qed
qed

lemma runeCount_ascii: "(\<And>c. c \<in> set s \<Longrightarrow> (of_char c :: nat) < 128) \<Longrightarrow> runeCount s = length s"
proof (induction s)
  case Nil
  show ?case by (simp add: runeCount.simps)
next
  case (Cons c s)
  then show ?case by (simp add: runeCount.simps [of "c # s"] decodeRune_ascii)
qed

end
