(* ===== verification/Go_Match.thy ===== *)
theory Go_Match
  imports Go_Strings
begin

text \<open>
  Go's \<open>path.Match\<close>, which the dump configuration uses for table patterns: \<open>scanChunk\<close>,
  \<open>matchChunk\<close>, \<open>getEsc\<close> and the loop of \<open>Match\<close>. The main fact is that whether a pattern is
  malformed does not depend on the name it is matched against, so a pattern checked once
  never fails later; the other is that a pattern without metacharacters matches exactly itself.
\<close>

datatype chunk_res = Bad | NoMatch | Match string

definition getEsc :: "string \<Rightarrow> (nat \<times> string) option" where
  "getEsc chunk =
     (if chunk = [] \<or> hd chunk = CHR ''-'' \<or> hd chunk = CHR '']'' then None
      else let c1 = (if hd chunk = CHR 0x5C then tl chunk else chunk) in
        if c1 = [] then None
        else let d = decodeRune c1; n = drop (snd d) c1 in
          if fst d = runeError \<and> snd d = 1 \<or> n = [] then None else Some (fst d, n))"

lemma getEsc_shorter: "getEsc chunk = Some (r, n) \<Longrightarrow> length n < length chunk \<and> n \<noteq> []"
proof -
  assume a: "getEsc chunk = Some (r, n)"
  define c1 where "c1 = (if hd chunk = CHR 0x5C then tl chunk else chunk)"
  from a have c: "c1 \<noteq> []" "n = drop (snd (decodeRune c1)) c1" "n \<noteq> []"
    by (auto simp: getEsc_def Let_def c1_def split: if_splits)
  have "length c1 \<le> length chunk" by (simp add: c1_def)
  with c decodeRune_width [OF c(1)] show ?thesis by auto
qed

text \<open>The ranges of a character class up to its closing bracket: whether one of them holds the
  rune, and what follows the bracket.\<close>

function class_loop :: "string \<Rightarrow> nat \<Rightarrow> nat \<Rightarrow> bool \<Rightarrow> (bool \<times> string) option" where
  "class_loop chunk nrange r m =
     (if chunk \<noteq> [] \<and> hd chunk = CHR '']'' \<and> 0 < nrange then Some (m, tl chunk)
      else (case getEsc chunk of None \<Rightarrow> None
        | Some (lo, ch1) \<Rightarrow>
           (if hd ch1 = CHR ''-'' then
              (case getEsc (tl ch1) of None \<Rightarrow> None
               | Some (hi, ch2) \<Rightarrow> class_loop ch2 (Suc nrange) r (m \<or> lo \<le> r \<and> r \<le> hi))
            else class_loop ch1 (Suc nrange) r (m \<or> lo \<le> r \<and> r \<le> lo))))"
  by pat_completeness auto
termination
proof (relation "measure (\<lambda>(chunk, _). length chunk)", goal_cases)
  case 1
  show ?case by simp
next
  case (2 chunk nrange r m a lo ch1 b hi ch2)
  then show ?case by (fastforce dest!: getEsc_shorter)
next
  case (3 chunk nrange r m a lo ch1)
  then show ?case by (fastforce dest!: getEsc_shorter)
qed

declare class_loop.simps [simp del]

text \<open>What follows the class, without the rune: it decides alone whether the class is
  well-formed.\<close>

function class_end :: "string \<Rightarrow> nat \<Rightarrow> string option" where
  "class_end chunk nrange =
     (if chunk \<noteq> [] \<and> hd chunk = CHR '']'' \<and> 0 < nrange then Some (tl chunk)
      else (case getEsc chunk of None \<Rightarrow> None
        | Some (lo, ch1) \<Rightarrow>
           (if hd ch1 = CHR ''-'' then
              (case getEsc (tl ch1) of None \<Rightarrow> None
               | Some (hi, ch2) \<Rightarrow> class_end ch2 (Suc nrange))
            else class_end ch1 (Suc nrange))))"
  by pat_completeness auto
termination
proof (relation "measure (\<lambda>(chunk, _). length chunk)", goal_cases)
  case 1
  show ?case by simp
next
  case (2 chunk nrange a lo ch1 b hi ch2)
  then show ?case by (fastforce dest!: getEsc_shorter)
next
  case (3 chunk nrange a lo ch1)
  then show ?case by (fastforce dest!: getEsc_shorter)
qed

declare class_end.simps [simp del]

lemma class_loop_end: "map_option snd (class_loop chunk k r m) = class_end chunk k"
  by (induction chunk k arbitrary: m rule: class_end.induct)
     (subst class_loop.simps, subst class_end.simps, auto split: option.splits)

lemma class_end_shorter: "class_end chunk k = Some rest \<Longrightarrow> length rest < length chunk"
proof (induction chunk k rule: class_end.induct)
  case (1 chunk k)
  show ?case
  proof (cases "chunk \<noteq> [] \<and> hd chunk = CHR '']'' \<and> 0 < k")
    case True
    with "1.prems" show ?thesis by (auto simp: class_end.simps [of chunk])
  next
    case False
    with "1.prems" obtain lo ch1 where e: "getEsc chunk = Some (lo, ch1)"
      by (auto simp: class_end.simps [of chunk] split: option.splits)
    show ?thesis
    proof (cases "hd ch1 = CHR ''-''")
      case dash: True
      with False e "1.prems" obtain hi ch2 where e2: "getEsc (tl ch1) = Some (hi, ch2)"
          "class_end ch2 (Suc k) = Some rest"
        by (auto simp: class_end.simps [of chunk] split: option.splits)
      from "1.IH" (1) [OF False e refl dash e2(1) refl e2(2)] getEsc_shorter [OF e] getEsc_shorter [OF e2(1)]
      show ?thesis by (metis (no_types, opaque_lifting) length_tl less_trans less_imp_diff_less)
    next
      case nodash: False
      with False e "1.prems" have "class_end ch1 (Suc k) = Some rest"
        by (auto simp: class_end.simps [of chunk])
      from "1.IH" (2) [OF False e refl nodash this] getEsc_shorter [OF e] show ?thesis by simp
    qed
  qed
qed

lemma class_loop_shorter: "class_loop chunk k r m = Some (b, rest) \<Longrightarrow> length rest < length chunk"
  by (metis class_end_shorter class_loop_end option.simps(9) snd_conv)

definition class_neg :: "string \<Rightarrow> bool" where
  "class_neg ch = (ch \<noteq> [] \<and> hd ch = CHR ''^'')"

definition class_body :: "string \<Rightarrow> string" where
  "class_body ch = (if class_neg ch then tl ch else ch)"

lemma length_class_body: "length (class_body ch) \<le> length ch"
  by (simp add: class_body_def)

text \<open>\<open>matchChunk\<close>: once the match has failed, the rest of the chunk is still parsed, but the name
  is no longer read.\<close>

function matchChunk :: "string \<Rightarrow> string \<Rightarrow> bool \<Rightarrow> chunk_res" where
  "matchChunk [] s failed0 = (if failed0 then NoMatch else Match s)"
| "matchChunk (c # ch) s failed0 =
     (let failed = (failed0 \<or> s = []) in
      if c = CHR ''['' then
        (case class_loop (class_body ch) 0 (if failed then 0 else fst (decodeRune s)) False of
           None \<Rightarrow> Bad
         | Some (m, rest) \<Rightarrow>
             matchChunk rest (if failed then s else drop (snd (decodeRune s)) s)
               (failed \<or> m = class_neg ch))
      else if c = CHR ''?'' then
        matchChunk ch (if failed then s else drop (snd (decodeRune s)) s)
          (failed \<or> hd s = CHR ''/'')
      else if c = CHR 0x5C then
        (case ch of [] \<Rightarrow> Bad
         | e # ch' \<Rightarrow> matchChunk ch' (if failed then s else tl s) (failed \<or> e \<noteq> hd s))
      else matchChunk ch (if failed then s else tl s) (failed \<or> c \<noteq> hd s))"
  by pat_completeness auto
termination
proof (relation "measure (\<lambda>(chunk, s, failed). length chunk)", goal_cases)
  case 1
  show ?case by simp
next
  case (2 c ch s failed0 x a m rest)
  then have "length rest < length (class_body ch)" by (auto dest: class_loop_shorter)
  with length_class_body [of ch] show ?case by simp
qed auto

declare matchChunk.simps(2) [simp del]

function chunk_ok :: "string \<Rightarrow> bool" where
  "chunk_ok [] = True"
| "chunk_ok (c # ch) =
     (if c = CHR ''['' then
        (case class_end (class_body ch) 0 of None \<Rightarrow> False | Some rest \<Rightarrow> chunk_ok rest)
      else if c = CHR 0x5C then (case ch of [] \<Rightarrow> False | e # ch' \<Rightarrow> chunk_ok ch')
      else chunk_ok ch)"
  by pat_completeness auto
termination
proof (relation "measure length", goal_cases)
  case 1
  show ?case by simp
next
  case (2 c ch rest)
  then have "length rest < length (class_body ch)" by (auto dest: class_end_shorter)
  with length_class_body [of ch] show ?case by simp
qed auto

text \<open>Whether a chunk is malformed does not depend on the name.\<close>

lemma matchChunk_Bad: "matchChunk chunk s f = Bad \<longleftrightarrow> \<not> chunk_ok chunk"
proof (induction chunk arbitrary: s f rule: chunk_ok.induct)
  case 1
  show ?case by simp
next
  case (2 c ch)
  consider "c = CHR ''[''" | "c \<noteq> CHR ''['' \<and> c = CHR 0x5C" | "c \<noteq> CHR ''['' \<and> c \<noteq> CHR 0x5C" by blast
  then show ?case
  proof cases
    case 1
    define r where "r = (if f \<or> s = [] then 0 else fst (decodeRune s))"
    have e: "class_end (class_body ch) 0 = map_option snd (class_loop (class_body ch) 0 r False)"
      by (rule class_loop_end [symmetric])
    show ?thesis
    proof (cases "class_loop (class_body ch) 0 r False")
      case None
      with 1 e show ?thesis by (simp add: matchChunk.simps(2) Let_def flip: r_def)
    next
      case (Some p)
      with e have "class_end (class_body ch) 0 = Some (snd p)" by simp
      with 1 Some "2.IH"(1) [OF 1 this] show ?thesis
        by (cases p) (simp add: matchChunk.simps(2) Let_def flip: r_def)
    qed
  next
    case 2
    with "2.IH"(2) show ?thesis by (auto simp: matchChunk.simps(2) Let_def split: list.splits)
  next
    case 3
    with "2.IH"(3) show ?thesis by (auto simp: matchChunk.simps(2) Let_def)
  qed
qed

text \<open>\<open>scanChunk\<close>: leading stars, then the text up to the next star outside a class.\<close>

fun scan_body :: "bool \<Rightarrow> string \<Rightarrow> string \<times> string" where
  "scan_body inrange [] = ([], [])"
| "scan_body inrange (c # cs) =
     (if c = CHR 0x5C then
        (case cs of [] \<Rightarrow> ([c], [])
         | e # cs' \<Rightarrow> (let (a, b) = scan_body inrange cs' in (c # e # a, b)))
      else if c = CHR ''['' then (let (a, b) = scan_body True cs in (c # a, b))
      else if c = CHR '']'' then (let (a, b) = scan_body False cs in (c # a, b))
      else if c = CHR ''*'' \<and> \<not> inrange then ([], c # cs)
      else (let (a, b) = scan_body inrange cs in (c # a, b)))"

definition scanChunk :: "string \<Rightarrow> bool \<times> string \<times> string" where
  "scanChunk pattern =
     (let p = dropWhile (\<lambda>c. c = CHR ''*'') pattern
      in (pattern \<noteq> [] \<and> hd pattern = CHR ''*'', scan_body False p))"

lemma scan_body_append: "scan_body i p = (a, b) \<Longrightarrow> p = a @ b"
  by (induction i p arbitrary: a b rule: scan_body.induct)
     (auto simp: Let_def split: if_splits list.splits prod.splits)

lemma scan_body_hd: "scan_body i p = ([], b) \<Longrightarrow> p \<noteq> [] \<Longrightarrow> hd p = CHR ''*''"
  by (cases p) (auto simp: Let_def split: if_splits list.splits prod.splits)

lemma scanChunk_shorter:
  assumes "pattern \<noteq> []" and "scanChunk pattern = (star, chunk, rest)"
  shows "length rest < length pattern"
proof -
  define p where "p = dropWhile (\<lambda>c. c = CHR ''*'') pattern"
  from assms(2) have sb: "scan_body False p = (chunk, rest)" and
    star: "star = (hd pattern = CHR ''*'')"
    using assms(1) by (auto simp: scanChunk_def Let_def p_def)
  have p_eq: "p = chunk @ rest" using sb by (rule scan_body_append)
  show ?thesis
  proof (cases star)
    case True
    with star assms(1) have "length p < length pattern"
      unfolding p_def by (cases pattern) (auto simp: le_imp_less_Suc length_dropWhile_le)
    with p_eq show ?thesis by simp
  next
    case False
    with star assms(1) have "p = pattern" unfolding p_def by (cases pattern) auto
    moreover have "chunk \<noteq> []" using scan_body_hd [of False p rest] sb False star assms(1) calculation
      by auto
    ultimately show ?thesis using p_eq by (metis length_append less_add_same_cancel2 length_greater_0_conv)
  qed
qed

lemma scanChunk_empty_chunk: "scanChunk pattern = (star, [], rest) \<Longrightarrow> rest = []"
proof -
  assume a: "scanChunk pattern = (star, [], rest)"
  define p where "p = dropWhile (\<lambda>c. c = CHR ''*'') pattern"
  from a have sb: "scan_body False p = ([], rest)" by (auto simp: scanChunk_def Let_def p_def)
  have "p = []"
  proof (rule ccontr)
    assume "p \<noteq> []"
    with sb have "hd p = CHR ''*''" by (auto dest: scan_body_hd)
    with \<open>p \<noteq> []\<close> show False unfolding p_def using hd_dropWhile by blast
  qed
  with sb show ?thesis by simp
qed

function pattern_ok :: "string \<Rightarrow> bool" where
  "pattern_ok pattern =
     (if pattern = [] then True
      else (case scanChunk pattern of (star, chunk, rest) \<Rightarrow>
        (if matchChunk chunk [] False = Bad then False else pattern_ok rest)))"
  by pat_completeness auto
termination
  by (relation "measure length") (auto dest: scanChunk_shorter [OF _ sym])

declare pattern_ok.simps [simp del]

text \<open>The skip of a star: the chunk is tried after every byte but a slash.\<close>

fun star_search :: "string \<Rightarrow> bool \<Rightarrow> string \<Rightarrow> chunk_res" where
  "star_search chunk isLast [] = NoMatch"
| "star_search chunk isLast (c # cs) =
     (if c = CHR ''/'' then NoMatch
      else (case matchChunk chunk cs False of
              Match t \<Rightarrow> (if isLast \<and> t \<noteq> [] then star_search chunk isLast cs else Match t)
            | Bad \<Rightarrow> Bad
            | NoMatch \<Rightarrow> star_search chunk isLast cs))"

text \<open>\<open>path.Match\<close>; \<open>None\<close> is \<open>ErrBadPattern\<close>.\<close>

function pathMatch :: "string \<Rightarrow> string \<Rightarrow> bool option" where
  "pathMatch pattern name =
     (if pattern = [] then Some (name = [])
      else (case scanChunk pattern of (star, chunk, rest) \<Rightarrow>
        (if star \<and> chunk = [] then Some (CHR ''/'' \<notin> set name)
         else (case matchChunk chunk name False of
             Bad \<Rightarrow> None
           | Match t \<Rightarrow>
               (if t = [] \<or> rest \<noteq> [] then pathMatch rest t
                else if star then
                  (case star_search chunk (rest = []) name of
                     Match u \<Rightarrow> pathMatch rest u
                   | Bad \<Rightarrow> None
                   | NoMatch \<Rightarrow> (if pattern_ok rest then Some False else None))
                else (if pattern_ok rest then Some False else None))
           | NoMatch \<Rightarrow>
               (if star then
                  (case star_search chunk (rest = []) name of
                     Match u \<Rightarrow> pathMatch rest u
                   | Bad \<Rightarrow> None
                   | NoMatch \<Rightarrow> (if pattern_ok rest then Some False else None))
                else (if pattern_ok rest then Some False else None))))))"
  by pat_completeness auto
termination
  by (relation "measure (\<lambda>(pattern, name). length pattern)") (auto dest: scanChunk_shorter [OF _ sym] scanChunk_shorter)

declare pathMatch.simps [simp del]

lemma star_search_Bad: "star_search chunk l name = Bad \<Longrightarrow> matchChunk chunk [] False = Bad"
  by (induction chunk l name rule: star_search.induct)
     (auto split: if_splits chunk_res.splits simp: matchChunk_Bad)

lemma pathMatch_None_iff: "pathMatch pattern name = None \<longleftrightarrow> \<not> pattern_ok pattern"
proof (induction pattern name rule: pathMatch.induct)
  case (1 pattern name)
  show ?case
  proof (cases "pattern = []")
    case True
    then show ?thesis by (simp add: pathMatch.simps pattern_ok.simps)
  next
    case False
    obtain star chunk rest where sc: "scanChunk pattern = (star, chunk, rest)"
      by (cases "scanChunk pattern") auto
    note IH = "1.IH" [OF False sc [symmetric] refl]
    have ok: "pattern_ok pattern \<longleftrightarrow> matchChunk chunk [] False \<noteq> Bad \<and> pattern_ok rest"
      using False sc by (simp add: pattern_ok.simps [of pattern])
    show ?thesis
    proof (cases "star \<and> chunk = []")
      case True
      with sc have "rest = []" by (auto dest: scanChunk_empty_chunk)
      with True ok False sc show ?thesis
        by (simp add: pathMatch.simps [of pattern] pattern_ok.simps [of "[]"] matchChunk.simps)
    next
      case nt: False
      show ?thesis
      proof (cases "matchChunk chunk name False = Bad")
        case True
        then have "matchChunk chunk [] False = Bad" by (simp add: matchChunk_Bad)
        with True ok False sc nt show ?thesis by (simp add: pathMatch.simps [of pattern])
      next
        case nb: False
        then have "matchChunk chunk [] False \<noteq> Bad" by (simp add: matchChunk_Bad)
        with ok have ok': "pattern_ok pattern \<longleftrightarrow> pattern_ok rest" by simp
        have ss: "star_search chunk l n \<noteq> Bad" for l n
          using \<open>matchChunk chunk [] False \<noteq> Bad\<close> star_search_Bad by blast
        show ?thesis
          using False sc nt nb ok' ss IH
          by (auto simp: pathMatch.simps [of pattern name] split: chunk_res.splits)
      qed
    qed
  qed
qed

text \<open>A pattern without metacharacters is its own only match.\<close>

definition no_meta :: "string \<Rightarrow> bool" where
  "no_meta p = list_all (\<lambda>c. c \<noteq> CHR ''*'' \<and> c \<noteq> CHR ''?'' \<and> c \<noteq> CHR ''['' \<and> c \<noteq> CHR 0x5C) p"

lemma scan_body_no_meta: "no_meta p \<Longrightarrow> scan_body False p = (p, [])"
  by (induction p) (auto simp: no_meta_def)

lemma matchChunk_no_meta:
  "no_meta p \<Longrightarrow> matchChunk p s f = (if \<not> f \<and> prefix p s then Match (drop (length p) s) else NoMatch)"
proof (induction p arbitrary: s f)
  case Nil
  then show ?case by simp
next
  case (Cons c p)
  then show ?case
    by (cases s) (auto simp: matchChunk.simps(2) no_meta_def Let_def)
qed

lemma pathMatch_no_meta: "no_meta p \<Longrightarrow> pathMatch p name = Some (name = p)"
proof (cases "p = []")
  case True
  then show ?thesis by (simp add: pathMatch.simps)
next
  case False
  assume nm: "no_meta p"
  with False have "hd p \<noteq> CHR ''*''" by (cases p) (auto simp: no_meta_def)
  with False have "dropWhile (\<lambda>c. c = CHR ''*'') p = p" by (cases p) auto
  with False \<open>hd p \<noteq> CHR ''*''\<close> have sc: "scanChunk p = (False, p, [])"
    by (simp add: scanChunk_def scan_body_no_meta [OF nm])
  have ne: "pathMatch [] t = Some (t = [])" "pattern_ok []" for t
    by (simp_all add: pathMatch.simps pattern_ok.simps)
  show ?thesis
    using False sc nm ne
    by (auto simp: pathMatch.simps [of p name] matchChunk_no_meta prefix_def
             simp del: append_eq_append_conv)
qed

end
