(* ===== verification/Dump_Config.thy ===== *)
theory Dump_Config
  imports Go_Match
begin

text \<open>
  \<open>internal/pkg/dump/config.go\<close>: the dump configuration, its validation and the questions the
  walk asks it. The YAML decoder is a parameter of \<open>ParseConfig\<close>. The properties say what a
  configuration that passed validation guarantees to the rest of the dump: no pattern is
  malformed, whatever table it is matched against, and every limit is in range.
\<close>

subsection \<open>Data\<close>

record AttachRule =
  ar_Table :: string
  ar_To :: string

record Seed =
  seed_Table :: string
  seed_Where :: string
  seed_OrderBy :: string
  seed_Limit :: "int option"
  seed_Query :: string
  seed_ChildDepth :: "int option"
  seed_ChildrenPerParent :: "int option"
  seed_AllChildren :: "string list"

record Config =
  cfg_Seeds :: "Seed list"
  cfg_ChildrenPerParent :: "int option"
  cfg_Exclude :: "string list"
  cfg_Attach :: "AttachRule list"
  cfg_Transform :: "(string, (string, string) gomap) gomap"
  cfg_Source :: string

record foreignKey =
  fk_Child :: string
  fk_Parent :: string
  fk_ChildCols :: "string list"
  fk_ParentCols :: "string list"

datatype cfg_error =
    ErrEmpty
  | ErrYaml string
  | ErrNoSeeds
  | ErrAtLeast string int int
  | ErrPattern string string
  | ErrTransformEmpty string string
  | ErrAttach nat
  | ErrTableRequired
  | ErrQueryExcludes
  | ErrSeed nat string cfg_error

datatype yaml_result = YamlEOF | YamlErr string | YamlOk Config

subsection \<open>Operations\<close>

definition defaultChildDepth :: int where
  "defaultChildDepth = 1"

definition defaultChildrenPerParent :: int where
  "defaultChildrenPerParent = 20"

definition qualify :: "string \<Rightarrow> string" where
  "qualify name = (if contains name ''.'' then name else ''public.'' @ name)"

definition atLeast :: "string \<Rightarrow> int option \<Rightarrow> int \<Rightarrow> cfg_error option" where
  "atLeast name v low =
     (case v of None \<Rightarrow> None
      | Some x \<Rightarrow> (if x < low then Some (ErrAtLeast name low x) else None))"

definition validPatterns :: "string \<Rightarrow> string list \<Rightarrow> cfg_error option" where
  "validPatterns name patterns =
     first_err (\<lambda>p. case pathMatch (qualify p) [] of
                      None \<Rightarrow> Some (ErrPattern name p) | Some _ \<Rightarrow> None) patterns"

definition Seed_validate :: "Seed \<Rightarrow> cfg_error option" where
  "Seed_validate s =
     (if seed_Table s = [] then Some ErrTableRequired
      else if seed_Query s \<noteq> [] \<and> (seed_Where s \<noteq> [] \<or> seed_OrderBy s \<noteq> [] \<or> seed_Limit s \<noteq> None)
        then Some ErrQueryExcludes
      else err_then (atLeast ''limit'' (seed_Limit s) 1)
          (err_then (atLeast ''child_depth'' (seed_ChildDepth s) 0)
          (err_then (atLeast ''children_per_parent'' (seed_ChildrenPerParent s) 1)
            (validPatterns ''all_children'' (seed_AllChildren s)))))"

definition transform_error :: "(string, (string, string) gomap) gomap \<Rightarrow> cfg_error option" where
  "transform_error tr =
     first_err (\<lambda>tableName. first_err (\<lambda>column.
         if trimSpace (gm_get [] column (gm_get [] tableName tr)) = []
         then Some (ErrTransformEmpty tableName column) else None)
       (gm_sorted_keys (gm_get [] tableName tr))) (gm_sorted_keys tr)"

definition attach_error :: "AttachRule list \<Rightarrow> cfg_error option" where
  "attach_error rs =
     first_err (\<lambda>(i, a). if ar_Table a = [] \<or> ar_To a = [] then Some (ErrAttach (i + 1)) else None)
       (indexed rs)"

definition seeds_error :: "Seed list \<Rightarrow> cfg_error option" where
  "seeds_error ss =
     first_err (\<lambda>(i, s). case Seed_validate s of None \<Rightarrow> None
        | Some e \<Rightarrow> Some (ErrSeed (i + 1) (seed_Table s) e)) (indexed ss)"

definition Config_validate :: "Config \<Rightarrow> cfg_error option" where
  "Config_validate c =
     (if cfg_Seeds c = [] then Some ErrNoSeeds
      else err_then (atLeast ''children_per_parent'' (cfg_ChildrenPerParent c) 1)
          (err_then (validPatterns ''exclude'' (cfg_Exclude c))
          (err_then (transform_error (cfg_Transform c))
          (err_then (attach_error (cfg_Attach c)) (seeds_error (cfg_Seeds c))))))"

definition ParseConfig :: "(string \<Rightarrow> yaml_result) \<Rightarrow> string \<Rightarrow> cfg_error + Config" where
  "ParseConfig decode r =
     (case decode r of
        YamlEOF \<Rightarrow> Inl ErrEmpty
      | YamlErr e \<Rightarrow> Inl (ErrYaml e)
      | YamlOk cfg \<Rightarrow> (case Config_validate cfg of Some e \<Rightarrow> Inl e | None \<Rightarrow> Inr cfg))"

definition Seed_key :: "Seed \<Rightarrow> string" where
  "Seed_key s = qualify (seed_Table s)"

definition childDepth :: "Seed \<Rightarrow> int" where
  "childDepth s = (case seed_ChildDepth s of Some d \<Rightarrow> d | None \<Rightarrow> defaultChildDepth)"

definition childrenPerParent :: "Config \<Rightarrow> Seed \<Rightarrow> int" where
  "childrenPerParent c s =
     (case seed_ChildrenPerParent s of Some n \<Rightarrow> n
      | None \<Rightarrow> (case cfg_ChildrenPerParent c of Some n \<Rightarrow> n | None \<Rightarrow> defaultChildrenPerParent))"

definition matchAny :: "string list \<Rightarrow> string \<Rightarrow> bool" where
  "matchAny patterns key = list_ex (\<lambda>p. pathMatch (qualify p) key = Some True) patterns"

definition childLimit :: "Config \<Rightarrow> Seed \<Rightarrow> string \<Rightarrow> int" where
  "childLimit c s key = (if matchAny (seed_AllChildren s) key then 0 else childrenPerParent c s)"

definition excluded :: "Config \<Rightarrow> string \<Rightarrow> bool" where
  "excluded c key = matchAny (cfg_Exclude c) key"

definition attachedVia :: "Config \<Rightarrow> foreignKey \<Rightarrow> bool" where
  "attachedVia c fk =
     list_ex (\<lambda>a. qualify (ar_Table a) = fk_Child fk \<and> qualify (ar_To a) = fk_Parent fk) (cfg_Attach c)"

subsection \<open>What validation guarantees\<close>

lemma atLeast_None: "atLeast name v low = None \<longleftrightarrow> (\<forall>x. v = Some x \<longrightarrow> low \<le> x)"
  by (auto simp: atLeast_def split: option.splits)

lemma validPatterns_None:
  "validPatterns name ps = None \<longleftrightarrow> (\<forall>p \<in> set ps. pattern_ok (qualify p))"
proof -
  have "(case pathMatch q [] of None \<Rightarrow> Some e | Some _ \<Rightarrow> None) = None \<longleftrightarrow> pattern_ok q" for q and e :: cfg_error
    using pathMatch_None_iff [of q "[]"] by (auto split: option.splits)
  then show ?thesis by (simp add: validPatterns_def)
qed

lemma Seed_validate_None:
  "Seed_validate s = None \<longleftrightarrow>
     seed_Table s \<noteq> [] \<and>
     (seed_Query s = [] \<or> seed_Where s = [] \<and> seed_OrderBy s = [] \<and> seed_Limit s = None) \<and>
     (\<forall>x. seed_Limit s = Some x \<longrightarrow> 1 \<le> x) \<and> (\<forall>x. seed_ChildDepth s = Some x \<longrightarrow> 0 \<le> x) \<and>
     (\<forall>x. seed_ChildrenPerParent s = Some x \<longrightarrow> 1 \<le> x) \<and>
     (\<forall>p \<in> set (seed_AllChildren s). pattern_ok (qualify p))"
  by (auto simp: Seed_validate_def atLeast_None validPatterns_None)

lemma seeds_error_None: "seeds_error ss = None \<longleftrightarrow> (\<forall>s \<in> set ss. Seed_validate s = None)"
proof -
  have "seeds_error ss = None \<longleftrightarrow> (\<forall>ix \<in> set (indexed ss). Seed_validate (snd ix) = None)"
    unfolding seeds_error_def by (auto split: option.splits)
  also have "\<dots> \<longleftrightarrow> (\<forall>s \<in> set ss. Seed_validate s = None)"
    by (rule indexed_Ball [of ss "\<lambda>s. Seed_validate s = None"])
  finally show ?thesis .
qed

lemma Config_validate_None:
  "Config_validate c = None \<longleftrightarrow>
     cfg_Seeds c \<noteq> [] \<and> (\<forall>x. cfg_ChildrenPerParent c = Some x \<longrightarrow> 1 \<le> x) \<and>
     (\<forall>p \<in> set (cfg_Exclude c). pattern_ok (qualify p)) \<and>
     transform_error (cfg_Transform c) = None \<and> attach_error (cfg_Attach c) = None \<and>
     (\<forall>s \<in> set (cfg_Seeds c). Seed_validate s = None)"
  by (auto simp: Config_validate_def atLeast_None validPatterns_None seeds_error_None)

lemma ParseConfig_Inr:
  "ParseConfig decode r = Inr cfg \<longleftrightarrow> decode r = YamlOk cfg \<and> Config_validate cfg = None"
  by (auto simp: ParseConfig_def split: yaml_result.splits option.splits)

lemma qualify_has_dot: "contains (qualify n) ''.''"
  using contains_append [of "''public''" "''.''" n] by (simp add: qualify_def)

lemma qualify_idem [simp]: "qualify (qualify n) = qualify n"
  by (simp add: qualify_def [of "qualify n"] qualify_has_dot)

end
