(* ===== verification/Dump_Catalog.thy ===== *)
theory Dump_Catalog
  imports Dump_Config
begin

text \<open>
  \<open>internal/pkg/dump/catalog.go\<close>: the catalog the dump works on, built from the rows of three
  catalog queries (parameters: what the connection answers), and the attachment of the
  configured column transforms. The properties: the catalog does not depend on the order in
  which the server returns rows, its foreign keys stay within its tables, and
  \<open>applyTransforms\<close> changes nothing but the transforms it was given.
\<close>

subsection \<open>Data\<close>

record table =
  tbl_Schema :: string
  tbl_Name :: string
  tbl_Columns :: "string list"
  tbl_Types :: "string list"
  tbl_PK :: "string list"
  tbl_Transforms :: "(string, string) gomap"

definition table_key :: "table \<Rightarrow> string" where
  "table_key t = tbl_Schema t @ ''.'' @ tbl_Name t"

record sequenceUse =
  su_Table :: string
  su_Column :: string

record sequence =
  sq_Name :: string
  sq_Uses :: "sequenceUse list"

record catalog =
  cat_Tables :: "(string, table) gomap"
  cat_Keys :: "string list"
  cat_FKs :: "foreignKey list"
  cat_Sequences :: "sequence list"

text \<open>The errors of a query: it fails, a row cannot be scanned, or reading the rows fails.\<close>

datatype qerr = QueryFailed string | ScanFailed string | ReadFailed string

text \<open>What a query returns: an error, or rows (each of which may fail to scan) and the error
  found at their end, if any.\<close>

datatype 'r rows_result = QErr string | Rows "(string + 'r) list" "string option"

datatype dump_err =
    BeginSnapshot string
  | ReadTables qerr
  | ReadForeignKeys qerr
  | ReadSequences qerr
  | TransformNoTable string
  | TransformNoColumn string string
  | NilTable string
  | SeedNotFound string
  | AttachNoFK string string
  | AttachedExcluded string
  | SeedFailed string qerr
  | NotACtid string string
  | ChildrenFailed string string qerr
  | ParentsFailed string string qerr
  | AttachedFailed string string qerr
  | WriteFailed string
  | MissingType string
  | CopyFailed string "string list" string

subsection \<open>Operations\<close>

definition children :: "catalog \<Rightarrow> string \<Rightarrow> foreignKey list" where
  "children c parent = filter (\<lambda>fk. fk_Parent fk = parent) (cat_FKs c)"

definition parents :: "catalog \<Rightarrow> string \<Rightarrow> foreignKey list" where
  "parents c child = filter (\<lambda>fk. fk_Child fk = child) (cat_FKs c)"

definition queryRows :: "'r rows_result \<Rightarrow> ('s \<Rightarrow> 'r \<Rightarrow> 's) \<Rightarrow> 's \<Rightarrow> qerr + 's" where
  "queryRows res scan s0 =
     (case res of QErr e \<Rightarrow> Inl (QueryFailed e)
      | Rows rows fin \<Rightarrow>
         (case foldM (\<lambda>s r. case r of Inl e \<Rightarrow> Inl (ScanFailed e) | Inr row \<Rightarrow> Inr (scan s row)) s0 rows of
            Inl e \<Rightarrow> Inl e
          | Inr s \<Rightarrow> (case fin of Some e \<Rightarrow> Inl (ReadFailed e) | None \<Rightarrow> Inr s)))"

type_synonym table_row = "string \<times> string \<times> string list \<times> string list \<times> string list"
type_synonym fk_row = "string \<times> string \<times> string \<times> string \<times> string list \<times> string list"
type_synonym seq_row = "string \<times> string \<times> string \<times> string"

fun scan_table :: "(string, table) gomap \<Rightarrow> table_row \<Rightarrow> (string, table) gomap" where
  "scan_table ts (schema, name, cols, types, pk) =
     (let t = \<lparr>tbl_Schema = schema, tbl_Name = name, tbl_Columns = cols, tbl_Types = types,
               tbl_PK = pk, tbl_Transforms = []\<rparr>
      in gm_set (table_key t) t ts)"

definition known :: "(string, table) gomap \<Rightarrow> string \<Rightarrow> bool" where
  "known ts k = (map_of ts k \<noteq> None)"

fun fk_of_row :: "fk_row \<Rightarrow> foreignKey" where
  "fk_of_row (cs, cn, ps, pn, ccols, pcols) =
     \<lparr>fk_Child = cs @ ''.'' @ cn, fk_Parent = ps @ ''.'' @ pn, fk_ChildCols = ccols, fk_ParentCols = pcols\<rparr>"

definition scan_fk :: "(string, table) gomap \<Rightarrow> foreignKey list \<Rightarrow> fk_row \<Rightarrow> foreignKey list" where
  "scan_fk ts fks r =
     (let fk = fk_of_row r in
      if known ts (fk_Child fk) \<and> known ts (fk_Parent fk) then fks @ [fk] else fks)"

text \<open>The comparison of \<open>slices.SortFunc\<close>: child, then parent, then the joined child columns.\<close>

definition fk_order :: "foreignKey \<Rightarrow> string \<times> string \<times> string" where
  "fk_order fk = (fk_Child fk, fk_Parent fk, join '','' (fk_ChildCols fk))"

fun scan_sequence ::
    "(string, table) gomap \<Rightarrow> (string, sequenceUse list) gomap \<Rightarrow> seq_row \<Rightarrow> (string, sequenceUse list) gomap" where
  "scan_sequence ts uses (name, schema, tableName, column) =
     (let key = schema @ ''.'' @ tableName in
      if known ts key
      then gm_set name (gm_get [] name uses @ [\<lparr>su_Table = key, su_Column = column\<rparr>]) uses
      else uses)"

definition use_order :: "sequenceUse \<Rightarrow> string \<times> string" where
  "use_order u = (su_Table u, su_Column u)"

definition loadCatalog ::
    "table_row rows_result \<Rightarrow> fk_row rows_result \<Rightarrow> seq_row rows_result \<Rightarrow> dump_err + catalog" where
  "loadCatalog tablesRes fksRes seqsRes =
     (case queryRows tablesRes scan_table [] of Inl e \<Rightarrow> Inl (ReadTables e)
      | Inr ts \<Rightarrow>
        (case queryRows fksRes (scan_fk ts) [] of Inl e \<Rightarrow> Inl (ReadForeignKeys e)
         | Inr fks \<Rightarrow>
           (case queryRows seqsRes (scan_sequence ts) [] of Inl e \<Rightarrow> Inl (ReadSequences e)
            | Inr uses \<Rightarrow>
               Inr \<lparr>cat_Tables = ts, cat_Keys = gm_sorted_keys ts,
                    cat_FKs = sort_key fk_order fks,
                    cat_Sequences = map (\<lambda>name. \<lparr>sq_Name = name,
                        sq_Uses = sort_key use_order (gm_get [] name uses)\<rparr>) (gm_sorted_keys uses)\<rparr>)))"

definition transform_column ::
    "string \<Rightarrow> (string, string) gomap \<Rightarrow> table \<Rightarrow> string \<Rightarrow> dump_err + table" where
  "transform_column key exprs t column =
     (if column \<notin> set (tbl_Columns t) then Inl (TransformNoColumn key column)
      else Inr (t\<lparr>tbl_Transforms := gm_set column (gm_get [] column exprs) (tbl_Transforms t)\<rparr>))"

definition transform_table ::
    "(string, (string, string) gomap) gomap \<Rightarrow> catalog \<Rightarrow> string \<Rightarrow> dump_err + catalog" where
  "transform_table transform c name =
     (let key = qualify name; exprs = gm_get [] name transform in
      case map_of (cat_Tables c) key of None \<Rightarrow> Inl (TransformNoTable key)
      | Some t \<Rightarrow>
         (case foldM (transform_column key exprs) t (gm_sorted_keys exprs) of Inl e \<Rightarrow> Inl e
          | Inr t' \<Rightarrow> Inr (c\<lparr>cat_Tables := gm_set key t' (cat_Tables c)\<rparr>)))"

definition applyTransforms ::
    "(string, (string, string) gomap) gomap \<Rightarrow> catalog \<Rightarrow> dump_err + catalog" where
  "applyTransforms transform c = foldM (transform_table transform) c (gm_sorted_keys transform)"

subsection \<open>Loading is independent of the row order\<close>

lemma queryRows_ok [simp]: "queryRows (Rows (map Inr rs) None) scan s = Inr (foldl scan s rs)"
proof -
  have "foldM (\<lambda>s r. case r of Inl e \<Rightarrow> Inl (ScanFailed e) | Inr row \<Rightarrow> Inr (scan s row)) s (map Inr rs)
     = Inr (foldl scan s rs)"
    by (induction rs arbitrary: s) auto
  then show ?thesis by (simp add: queryRows_def)
qed

text \<open>Sorting by an injective key forgets the order of the input.\<close>

lemma sort_key_perm:
  assumes "mset xs = mset ys" and "inj_on f (set xs)"
  shows "sort_key f xs = sort_key f ys"
proof -
  have "sort (map f xs) = sort (map f ys)"
    using assms(1) by (metis mset_map sorted_list_of_multiset_mset)
  moreover have "map f (sort_key f zs) = sort (map f zs)" for zs
    by (rule properties_for_sort [symmetric]) auto
  ultimately have "map f (sort_key f xs) = map f (sort_key f ys)" by simp
  moreover have "set (sort_key f xs) \<union> set (sort_key f ys) = set xs"
    using mset_eq_setD [OF assms(1)] by simp
  ultimately show ?thesis using assms(2) by (metis inj_on_map_eq_map)
qed

definition row_table :: "table_row \<Rightarrow> table" where
  "row_table = (\<lambda>(schema, name, cols, types, pk). \<lparr>tbl_Schema = schema, tbl_Name = name,
     tbl_Columns = cols, tbl_Types = types, tbl_PK = pk, tbl_Transforms = []\<rparr>)"

lemma scan_table_eq: "scan_table ts r = gm_set (table_key (row_table r)) (row_table r) ts"
  by (cases r) (simp add: row_table_def Let_def)

lemma gm_set_fresh: "k \<notin> set (gm_keys m) \<Longrightarrow> gm_set k v m = m @ [(k, v)]"
  unfolding gm_set_def gm_keys_def by (induction m) auto

lemma tables_distinct:
  assumes "distinct (map (table_key \<circ> row_table) rs)"
  shows "foldl scan_table [] rs = map (\<lambda>r. (table_key (row_table r), row_table r)) rs"
  using assms
proof (induction rs rule: rev_induct)
  case Nil
  show ?case by simp
next
  case (snoc r rs)
  then have IH: "foldl scan_table [] rs = map (\<lambda>r. (table_key (row_table r), row_table r)) rs"
    by simp
  from snoc.prems have "table_key (row_table r) \<notin> set (gm_keys (foldl scan_table [] rs))"
    by (auto simp: gm_keys_def IH)
  then have "scan_table (foldl scan_table [] rs) r = foldl scan_table [] rs @ [(table_key (row_table r), row_table r)]"
    by (subst scan_table_eq) (rule gm_set_fresh)
  then show ?case by (simp add: IH)
qed

lemma foldl_scan_fk:
  "foldl (scan_fk ts) fks rs =
     fks @ filter (\<lambda>fk. known ts (fk_Child fk) \<and> known ts (fk_Parent fk)) (map fk_of_row rs)"
  by (induction rs arbitrary: fks) (auto simp: scan_fk_def Let_def)

definition row_uses :: "(string, table) gomap \<Rightarrow> string \<Rightarrow> seq_row list \<Rightarrow> sequenceUse list" where
  "row_uses ts name rs = map (\<lambda>(n, s, t, c). \<lparr>su_Table = s @ ''.'' @ t, su_Column = c\<rparr>)
     (filter (\<lambda>(n, s, t, c). n = name \<and> known ts (s @ ''.'' @ t)) rs)"

lemma foldl_scan_sequence:
  "gm_get [] name (foldl (scan_sequence ts) uses rs) = gm_get [] name uses @ row_uses ts name rs
   \<and> set (gm_keys (foldl (scan_sequence ts) uses rs)) =
       set (gm_keys uses) \<union> {n. \<exists>s t c. (n, s, t, c) \<in> set rs \<and> known ts (s @ ''.'' @ t)}
   \<and> (gm_wf uses \<longrightarrow> gm_wf (foldl (scan_sequence ts) uses rs))"
proof (induction rs arbitrary: uses)
  case Nil
  show ?case by (simp add: row_uses_def)
next
  case (Cons r rs)
  obtain n s t c where "r = (n, s, t, c)" by (cases r)
  with Cons [of "scan_sequence ts uses r"] show ?case
    by (auto simp: row_uses_def Let_def)
qed

lemma gm_sorted_keys_eq:
  "gm_wf m \<Longrightarrow> gm_wf m' \<Longrightarrow> set (gm_keys m) = set (gm_keys m') \<Longrightarrow> gm_sorted_keys m = gm_sorted_keys m'"
  unfolding gm_sorted_keys_def gm_wf_def gm_keys_def
  by (metis sorted_list_of_set_sort_remdups distinct_remdups_id)

lemma row_uses_perm: "mset rs = mset rs' \<Longrightarrow> mset (row_uses ts name rs) = mset (row_uses ts name rs')"
  by (simp add: row_uses_def)

lemma known_perm:
  assumes "mset ts = mset ts'" and "gm_wf ts"
  shows "known ts = known ts'"
proof
  fix k
  have "set ts = set ts'" using assms(1) by (rule mset_eq_setD)
  then show "known ts k = known ts' k"
    by (auto simp: known_def map_of_eq_None_iff)
qed

lemma inj_use_order: "inj_on use_order A"
  by (auto simp: inj_on_def use_order_def)

lemma row_uses_cong: "known ts = known ts' \<Longrightarrow> row_uses ts = row_uses ts'"
  by (simp add: row_uses_def fun_eq_iff)

text \<open>The catalog of rows that all scan, spelled out.\<close>

lemma loadCatalog_rows:
  "loadCatalog (Rows (map Inr trs) None) (Rows (map Inr frs) None) (Rows (map Inr srs) None) =
     Inr \<lparr>cat_Tables = foldl scan_table [] trs, cat_Keys = gm_sorted_keys (foldl scan_table [] trs),
          cat_FKs = sort_key fk_order (foldl (scan_fk (foldl scan_table [] trs)) [] frs),
          cat_Sequences = map (\<lambda>name. \<lparr>sq_Name = name, sq_Uses = sort_key use_order
              (gm_get [] name (foldl (scan_sequence (foldl scan_table [] trs)) [] srs))\<rparr>)
            (gm_sorted_keys (foldl (scan_sequence (foldl scan_table [] trs)) [] srs))\<rparr>"
  by (simp add: loadCatalog_def)

definition same_catalog :: "catalog \<Rightarrow> catalog \<Rightarrow> bool" where
  "same_catalog c c' \<longleftrightarrow> cat_Keys c = cat_Keys c' \<and> cat_FKs c = cat_FKs c' \<and>
     cat_Sequences c = cat_Sequences c' \<and> map_of (cat_Tables c) = map_of (cat_Tables c')"

lemma loadCatalog_perm:
  assumes t: "mset trs = mset trs'" and f: "mset frs = mset frs'" and s: "mset srs = mset srs'"
    and dt: "distinct (map (table_key \<circ> row_table) trs)"
    and df: "inj_on fk_order (fk_of_row ` set frs)"
  shows "\<exists>c c'. loadCatalog (Rows (map Inr trs) None) (Rows (map Inr frs) None) (Rows (map Inr srs) None) = Inr c
    \<and> loadCatalog (Rows (map Inr trs') None) (Rows (map Inr frs') None) (Rows (map Inr srs') None) = Inr c'
    \<and> same_catalog c c'"
proof -
  let ?ts = "foldl scan_table [] trs" and ?ts' = "foldl scan_table [] trs'"
  have dt': "distinct (map (table_key \<circ> row_table) trs')"
    using dt t by (metis mset_eq_imp_distinct_iff mset_map)
  have mts: "mset ?ts = mset ?ts'" using t by (simp add: tables_distinct dt dt')
  have wf: "gm_wf ?ts" using dt by (simp add: tables_distinct gm_wf_def comp_def)
  have kn: "known ?ts' = known ?ts" using known_perm [OF mts wf] by simp
  have tab: "map_of ?ts = map_of ?ts'"
  proof -
    have "mset (map fst ?ts) = mset (map fst ?ts')" by (simp only: mset_map mts)
    then have "distinct (map fst ?ts')"
      using wf mset_eq_imp_distinct_iff unfolding gm_wf_def by blast
    then show ?thesis
      using map_of_inject_set [of ?ts ?ts'] wf mset_eq_setD [OF mts] by (simp add: gm_wf_def)
  qed
  let ?P = "\<lambda>fk. known ?ts (fk_Child fk) \<and> known ?ts (fk_Parent fk)"
  have fks: "sort_key fk_order (foldl (scan_fk ?ts) [] frs) = sort_key fk_order (foldl (scan_fk ?ts') [] frs')"
    unfolding foldl_scan_fk kn using f df
    by (simp, intro sort_key_perm) (auto intro: inj_on_subset)
  let ?u = "foldl (scan_sequence ?ts) [] srs" and ?u' = "foldl (scan_sequence ?ts') [] srs'"
  have get: "gm_get [] n ?u = row_uses ?ts n srs" "gm_get [] n ?u' = row_uses ?ts n srs'" for n
    using foldl_scan_sequence [of n ?ts "[]" srs] foldl_scan_sequence [of n ?ts' "[]" srs']
    by (simp_all add: row_uses_cong [OF kn])
  have uses: "sort_key use_order (gm_get [] n ?u) = sort_key use_order (gm_get [] n ?u')" for n
    unfolding get by (rule sort_key_perm [OF row_uses_perm [OF s] inj_use_order])
  have keys: "gm_sorted_keys ?u = gm_sorted_keys ?u'"
    by (rule gm_sorted_keys_eq)
       (use foldl_scan_sequence [of n ?ts "[]" srs] foldl_scan_sequence [of n ?ts' "[]" srs'] kn
         mset_eq_setD [OF s] in auto)
  show ?thesis
    unfolding loadCatalog_rows
    by (simp add: same_catalog_def tab fks uses keys gm_sorted_keys_perm [OF mts])
qed

text \<open>A loaded catalog's foreign keys only join tables of the catalog.\<close>

definition catalog_wf :: "catalog \<Rightarrow> bool" where
  "catalog_wf c \<longleftrightarrow> gm_wf (cat_Tables c) \<and> cat_Keys c = gm_sorted_keys (cat_Tables c) \<and>
     (\<forall>fk \<in> set (cat_FKs c). known (cat_Tables c) (fk_Child fk) \<and> known (cat_Tables c) (fk_Parent fk)) \<and>
     sorted (map fk_order (cat_FKs c)) \<and>
     (\<forall>s \<in> set (cat_Sequences c). \<forall>u \<in> set (sq_Uses s). known (cat_Tables c) (su_Table u))"

lemma queryRows_invariant:
  assumes "queryRows res scan s0 = Inr s" and "P s0" and "\<And>s r. P s \<Longrightarrow> P (scan s r)"
  shows "P s"
proof -
  from assms(1) obtain rows where
    "foldM (\<lambda>s r. case r of Inl e \<Rightarrow> Inl (ScanFailed e) | Inr row \<Rightarrow> Inr (scan s row)) s0 rows = Inr s"
    by (auto simp: queryRows_def split: rows_result.splits sum.splits option.splits)
  then show ?thesis
    by (rule foldM_invariant) (use assms(2,3) in \<open>auto split: sum.splits\<close>)
qed

lemma loadCatalog_wf:
  assumes "loadCatalog tr fr sr = Inr c"
  shows "catalog_wf c"
proof -
  from assms obtain ts fks uses where q: "queryRows tr scan_table [] = Inr ts"
    "queryRows fr (scan_fk ts) [] = Inr fks" "queryRows sr (scan_sequence ts) [] = Inr uses"
    and c: "c = \<lparr>cat_Tables = ts, cat_Keys = gm_sorted_keys ts, cat_FKs = sort_key fk_order fks,
                cat_Sequences = map (\<lambda>name. \<lparr>sq_Name = name,
                    sq_Uses = sort_key use_order (gm_get [] name uses)\<rparr>) (gm_sorted_keys uses)\<rparr>"
    by (auto simp: loadCatalog_def split: sum.splits)
  have "gm_wf ts"
    using q(1) by (rule queryRows_invariant) (auto simp: scan_table_eq)
  moreover have "\<forall>fk \<in> set fks. known ts (fk_Child fk) \<and> known ts (fk_Parent fk)"
    using q(2) by (rule queryRows_invariant) (auto simp: scan_fk_def Let_def)
  moreover have "\<forall>n. \<forall>u \<in> set (gm_get [] n uses). known ts (su_Table u)"
    using q(3)
  proof (rule queryRows_invariant)
    fix uses :: "(string, sequenceUse list) gomap" and r
    assume "\<forall>n. \<forall>u \<in> set (gm_get [] n uses). known ts (su_Table u)"
    then show "\<forall>n. \<forall>u \<in> set (gm_get [] n (scan_sequence ts uses r)). known ts (su_Table u)"
      by (cases r) (auto simp: Let_def)
  qed simp
  ultimately show ?thesis by (simp add: c catalog_wf_def)
qed

subsection \<open>Transforms\<close>

lemma transform_columns:
  assumes "foldM (transform_column key exprs) t cols = Inr t'"
  shows "set cols \<subseteq> set (tbl_Columns t)
    \<and> (\<exists>tr. t' = t\<lparr>tbl_Transforms := tr\<rparr> \<and>
         (\<forall>col. gm_get [] col tr = (if col \<in> set cols then gm_get [] col exprs else gm_get [] col (tbl_Transforms t))))"
  using assms
proof (induction cols arbitrary: t)
  case Nil
  then show ?case by (intro conjI exI [of _ "tbl_Transforms t"]) auto
next
  case (Cons col cols)
  from Cons.prems have col: "col \<in> set (tbl_Columns t)"
    and "foldM (transform_column key exprs)
           (t\<lparr>tbl_Transforms := gm_set col (gm_get [] col exprs) (tbl_Transforms t)\<rparr>) cols = Inr t'"
    by (auto simp: transform_column_def [of key exprs t col] split: if_splits)
  from Cons.IH [OF this(2)] col show ?case by auto
qed

lemma children_applyTransforms:
  assumes "applyTransforms tr c = Inr c'"
  shows "cat_Keys c' = cat_Keys c \<and> cat_FKs c' = cat_FKs c \<and> cat_Sequences c' = cat_Sequences c
    \<and> set (gm_keys (cat_Tables c')) = set (gm_keys (cat_Tables c))"
  using assms unfolding applyTransforms_def
proof (rule foldM_invariant)
  fix s x s'
  assume inv: "cat_Keys s = cat_Keys c \<and> cat_FKs s = cat_FKs c \<and> cat_Sequences s = cat_Sequences c
    \<and> set (gm_keys (cat_Tables s)) = set (gm_keys (cat_Tables c))"
    and step: "transform_table tr s x = Inr s'"
  from step obtain t t' where "map_of (cat_Tables s) (qualify x) = Some t"
    "s' = s\<lparr>cat_Tables := gm_set (qualify x) t' (cat_Tables s)\<rparr>"
    by (auto simp: transform_table_def Let_def split: option.splits sum.splits)
  moreover from this(1) have "qualify x \<in> set (gm_keys (cat_Tables s))"
    by (metis gm_keys_def map_of_eq_None_iff option.distinct(1) set_map)
  ultimately show "cat_Keys s' = cat_Keys c \<and> cat_FKs s' = cat_FKs c \<and> cat_Sequences s' = cat_Sequences c
    \<and> set (gm_keys (cat_Tables s')) = set (gm_keys (cat_Tables c))"
    using inv by (simp add: insert_absorb)
qed simp

text \<open>Every column has a type, so the types can be indexed by the position of a column.\<close>

definition types_ok :: "catalog \<Rightarrow> bool" where
  "types_ok c \<longleftrightarrow> (\<forall>k t. map_of (cat_Tables c) k = Some t \<longrightarrow> length (tbl_Columns t) \<le> length (tbl_Types t))"

lemma known_iff: "known ts k \<longleftrightarrow> k \<in> set (gm_keys ts)"
  by (simp add: known_def gm_keys_def map_of_eq_None_iff)

lemma applyTransforms_wf:
  assumes "applyTransforms tr c = Inr c'" and "catalog_wf c" and "types_ok c"
  shows "catalog_wf c' \<and> types_ok c'"
  using assms(1) unfolding applyTransforms_def
proof (rule foldM_invariant)
  fix s x s'
  assume inv: "catalog_wf s \<and> types_ok s" and step: "transform_table tr s x = Inr s'"
  from step obtain t t' cols exprs where t: "map_of (cat_Tables s) (qualify x) = Some t"
    and f: "foldM (transform_column (qualify x) exprs) t cols = Inr t'"
    and s': "s' = s\<lparr>cat_Tables := gm_set (qualify x) t' (cat_Tables s)\<rparr>"
    by (auto simp: transform_table_def Let_def split: option.splits sum.splits)
  from transform_columns [OF f] obtain r where t': "t' = t\<lparr>tbl_Transforms := r\<rparr>" by blast
  have "qualify x \<in> set (gm_keys (cat_Tables s))" using t by (metis known_def known_iff option.distinct(1))
  then have keys: "set (gm_keys (cat_Tables s')) = set (gm_keys (cat_Tables s))" by (simp add: s' insert_absorb)
  have wf: "gm_wf (cat_Tables s)" "gm_wf (cat_Tables s')" using inv by (simp_all add: catalog_wf_def s')
  have "cat_Keys s' = gm_sorted_keys (cat_Tables s')"
    using inv gm_sorted_keys_eq [OF wf keys [symmetric]] by (simp add: catalog_wf_def s')
  then have "catalog_wf s'"
    using inv keys wf(2) unfolding catalog_wf_def known_iff by (simp add: s')
  moreover have "types_ok s'"
    using inv t by (auto simp: types_ok_def s' t' gm_set_def update_conv split: if_splits)
  ultimately show "catalog_wf s' \<and> types_ok s'" ..
qed (use assms(2,3) in simp)

end
