(* ===== verification/Dump_SQL.thy ===== *)
theory Dump_SQL
  imports Dump_Catalog
begin

text \<open>
  \<open>internal/pkg/dump/sql.go\<close>: the SQL text the dump sends. Identifiers and literals are quoted by
  doubling the quote; the interface \<open>quoting\<close> states what that promises to a reader of SQL
  (\<open>scan_quoted\<close>, the lexical rule of a quoted token), and both quoting functions provide it.
\<close>

subsection \<open>Operations\<close>

definition dq :: char where
  "dq = CHR 0x22"

definition sq :: char where
  "sq = CHR 0x27"

definition quoteIdent :: "string \<Rightarrow> string" where
  "quoteIdent name = [dq] @ replace_char dq [dq, dq] name @ [dq]"

definition quoteLiteral :: "string \<Rightarrow> string" where
  "quoteLiteral s = [sq] @ replace_char sq [sq, sq] s @ [sq]"

definition table_qualified :: "table \<Rightarrow> string" where
  "table_qualified t = quoteIdent (tbl_Schema t) @ ''.'' @ quoteIdent (tbl_Name t)"

definition columnList :: "string \<Rightarrow> string list \<Rightarrow> string" where
  "columnList alias cols =
     join '', '' (map (\<lambda>c. if alias \<noteq> [] then alias @ ''.'' @ quoteIdent c else quoteIdent c) cols)"

definition tidArray :: "string list \<Rightarrow> string" where
  "tidArray ctids = ''{'' @ join '','' (map (\<lambda>c. [dq] @ c @ [dq]) ctids) @ ''}''"

definition keyOrder :: "string \<Rightarrow> table \<Rightarrow> string" where
  "keyOrder alias t =
     (if tbl_PK t = [] then ''ROW('' @ alias @ ''.*)::text DESC''
      else join '', '' (map (\<lambda>c. alias @ ''.'' @ quoteIdent c @ '' DESC'') (tbl_PK t)))"

definition stableOrder :: "string \<Rightarrow> table \<Rightarrow> string" where
  "stableOrder alias t =
     (if tbl_PK t = [] then ''ROW('' @ alias @ ''.*)::text'' else columnList alias (tbl_PK t))"

definition seedSQL :: "table \<Rightarrow> Seed \<Rightarrow> string" where
  "seedSQL t s =
     (if seed_Query s \<noteq> [] then seed_Query s
      else ''SELECT t.ctid FROM ONLY '' @ table_qualified t @ '' t''
        @ (if seed_Where s \<noteq> [] then '' WHERE ('' @ seed_Where s @ '')'' else [])
        @ '' ORDER BY '' @ (if seed_OrderBy s = [] then keyOrder ''t'' t else seed_OrderBy s)
        @ (case seed_Limit s of None \<Rightarrow> [] | Some n \<Rightarrow> '' LIMIT '' @ itoa n))"

definition childSQL :: "table \<Rightarrow> table \<Rightarrow> foreignKey \<Rightarrow> int \<Rightarrow> string" where
  "childSQL parent child fk perParent =
     (let limit = (if 0 < perParent then '' LIMIT '' @ itoa perParent else []) in
      ''SELECT x.ctid FROM ONLY '' @ table_qualified parent @ '' p CROSS JOIN LATERAL ''
      @ ''(SELECT c.ctid FROM ONLY '' @ table_qualified child @ '' c WHERE ('' @ columnList ''c'' (fk_ChildCols fk)
      @ '') = ('' @ columnList ''p'' (fk_ParentCols fk) @ '') ORDER BY '' @ keyOrder ''c'' child @ limit
      @ '') x WHERE p.ctid = ANY($1::text[]::tid[])'')"

definition parentSQL :: "table \<Rightarrow> table \<Rightarrow> foreignKey \<Rightarrow> string" where
  "parentSQL parent child fk =
     ''SELECT p.ctid FROM ONLY '' @ table_qualified parent @ '' p WHERE ('' @ columnList ''p'' (fk_ParentCols fk)
     @ '') IN (SELECT '' @ columnList ''c'' (fk_ChildCols fk) @ '' FROM ONLY '' @ table_qualified child
     @ '' c WHERE c.ctid = ANY($1::text[]::tid[]))''"

definition copyHeader :: "table \<Rightarrow> string" where
  "copyHeader t = ''COPY '' @ table_qualified t @ '' ('' @ columnList [] (tbl_Columns t) @ '') FROM stdin;''"

text \<open>\<open>t.Types[i]\<close> is read for a transformed column only; the catalog query returns both arrays
  from the same rows of \<open>pg_attribute\<close>, so they have the same length. Where they have not, Go
  panics: the model has no select list then.\<close>

definition select_part :: "table \<Rightarrow> nat \<times> string \<Rightarrow> string option" where
  "select_part t ic =
     (case ic of (i, c) \<Rightarrow>
       (case map_of (tbl_Transforms t) c of
          Some expr \<Rightarrow>
            (if i < length (tbl_Types t)
             then Some (''('' @ expr @ '')::'' @ (tbl_Types t ! i) @ '' AS '' @ quoteIdent c) else None)
        | None \<Rightarrow> Some (''t.'' @ quoteIdent c)))"

definition selectList :: "table \<Rightarrow> string option" where
  "selectList t = map_option (join '', '') (those (map (select_part t) (indexed (tbl_Columns t))))"

definition copySQL :: "table \<Rightarrow> string list \<Rightarrow> string option" where
  "copySQL t ctids = (case selectList t of None \<Rightarrow> None
     | Some cols \<Rightarrow> Some (''COPY (SELECT '' @ cols @ '' FROM ONLY '' @ table_qualified t @ '' t WHERE t.ctid = ANY(''
         @ quoteLiteral (tidArray ctids) @ ''::tid[]) ORDER BY '' @ stableOrder ''t'' t @ '') TO STDOUT''))"

subsection \<open>Quoting\<close>

text \<open>How SQL reads the rest of a quoted token after its opening quote: a doubled quote is one
  quote of the content, a single one ends the token. The result is the content and what
  follows the token; \<open>None\<close> is an unterminated token.\<close>

fun scan_quoted :: "char \<Rightarrow> string \<Rightarrow> (string \<times> string) option" where
  "scan_quoted q [] = None"
| "scan_quoted q [c] = (if c = q then Some ([], []) else None)"
| "scan_quoted q (c # d # cs) =
     (if c = q then
        (if d = q then map_option (apfst ((#) q)) (scan_quoted q cs) else Some ([], d # cs))
      else map_option (apfst ((#) c)) (scan_quoted q (d # cs)))"

locale quoting =
  fixes quote :: "string \<Rightarrow> string" and q :: char
  assumes quote_doubles: "quote s = q # replace_char q [q, q] s @ [q]"
begin

lemma scan_doubled:
  assumes "rest = [] \<or> hd rest \<noteq> q"
  shows "scan_quoted q (replace_char q [q, q] s @ q # rest) = Some (s, rest)"
proof (induction s)
  case Nil
  show ?case using assms by (cases rest) (auto simp: replace_char_def)
next
  case (Cons c s)
  obtain d ds where d: "replace_char q [q, q] s @ q # rest = d # ds"
    by (cases "replace_char q [q, q] s @ q # rest") auto
  have "replace_char q [q, q] (c # s) @ q # rest =
      (if c = q then [q, q] else [c]) @ replace_char q [q, q] s @ q # rest"
    by (simp add: replace_char_def)
  with Cons d show ?case by (cases "c = q") auto
qed

lemma quote_reads_back:
  "rest = [] \<or> hd rest \<noteq> q \<Longrightarrow> scan_quoted q (tl (quote s @ rest)) = Some (s, rest) \<and> hd (quote s) = q"
  by (simp add: quote_doubles scan_doubled)

lemma quote_cancel:
  assumes "quote s @ r = quote s' @ r'" and "r = [] \<or> hd r \<noteq> q" and "r' = [] \<or> hd r' \<noteq> q"
  shows "s = s' \<and> r = r'"
proof -
  have "Some (s, r) = Some (s', r')"
    using quote_reads_back [OF assms(2), of s] quote_reads_back [OF assms(3), of s'] assms(1) by metis
  then show ?thesis by blast
qed

lemma quote_inject: "quote s = quote s' \<longleftrightarrow> s = s'"
  using quote_cancel [of s "[]" s' "[]"] by auto

lemma quote_neq_Nil: "quote s \<noteq> []" "[] \<noteq> quote s"
  by (simp_all add: quote_doubles)

end

interpretation ident: quoting quoteIdent dq
  by unfold_locales (simp add: quoteIdent_def)

interpretation lit: quoting quoteLiteral sq
  by unfold_locales (simp add: quoteLiteral_def)

subsection \<open>Lists of columns\<close>

text \<open>A list of quoted identifiers determines the identifiers: no column name can pretend to be
  two, or end the list.\<close>

lemma join_quoted_inject:
  assumes "join '', '' (map quoteIdent xs) = join '', '' (map quoteIdent ys)"
  shows "xs = ys"
  using assms
proof (induction xs arbitrary: ys)
  case Nil
  then show ?case using ident.quote_neq_Nil by (cases ys) (auto simp: join_Cons split: if_splits)
next
  case (Cons x xs)
  define rest where "rest zs = (if zs = [] then [] else '', '' @ join '', '' (map quoteIdent zs))" for zs
  have split: "join '', '' (map quoteIdent (z # zs)) = quoteIdent z @ rest zs" for z zs
    by (simp add: join_Cons rest_def)
  have ok: "rest zs = [] \<or> hd (rest zs) \<noteq> dq" for zs
    by (simp add: rest_def dq_def)
  obtain y ys' where ys: "ys = y # ys'"
    using Cons.prems ident.quote_neq_Nil by (cases ys) (auto simp: join_Cons split: if_splits)
  have "x = y \<and> rest xs = rest ys'"
    using Cons.prems ident.quote_cancel [OF _ ok ok, of x xs y ys'] unfolding ys split by blast
  moreover from this have "join '', '' (map quoteIdent xs) = join '', '' (map quoteIdent ys')"
    by (auto simp: rest_def split: if_splits)
  ultimately show ?case using Cons.IH ys by blast
qed

lemma selectList_total:
  assumes "length (tbl_Columns t) \<le> length (tbl_Types t)"
  shows "\<exists>l. selectList t = Some l"
proof -
  have "those (map (select_part t) ics) \<noteq> None"
    if "\<forall>ic \<in> set ics. fst ic < length (tbl_Types t)" for ics
    using that by (induction ics) (auto simp: select_part_def split: option.splits)
  moreover have "\<forall>ic \<in> set (indexed (tbl_Columns t)). fst ic < length (tbl_Types t)"
    using assms by (auto simp: indexed_def dest!: set_zip_leftD)
  ultimately show ?thesis by (auto simp: selectList_def)
qed

end
