(* ===== verification/Dump_Walk.thy ===== *)
theory Dump_Walk
  imports Dump_SQL
begin

text \<open>
  \<open>internal/pkg/dump/walk.go\<close>: the selection of rows. The database connection is a parameter
  (record \<open>conn\<close>): what a query answers is a function of its text and arguments, because every
  query of a dump runs in one read-only repeatable-read snapshot. \<open>closeSelection\<close> is a loop
  whose end depends on the data, a \<open>partial_function\<close>: \<open>None\<close> is a loop that never ends. A nil
  table dereference, a panic in Go, is the error \<open>NilTable\<close>.
\<close>

subsection \<open>Sets of rows\<close>

type_synonym rowSet = "(string, string list) gomap"

fun rowSet_add :: "string \<Rightarrow> string list \<Rightarrow> rowSet \<Rightarrow> rowSet \<times> string list" where
  "rowSet_add table [] r = (r, [])"
| "rowSet_add table (c # cs) r =
     (let r1 = (if map_of r table = None then gm_set table [] r else r); set1 = gm_get [] table r1 in
      if c \<in> set set1 then rowSet_add table cs r1
      else (let (r2, added) = rowSet_add table cs (gm_set table (set1 @ [c]) r1) in (r2, c # added)))"

definition rowSet_sorted :: "rowSet \<Rightarrow> string \<Rightarrow> string list" where
  "rowSet_sorted r table = sort (gm_get [] table r)"

text \<open>\<open>fmt.Fprintf(w, "%8d  %s\n", len(r[k]), k)\<close>, by count descending, then by key.\<close>

definition pad8 :: "string \<Rightarrow> string" where
  "pad8 s = replicate (8 - length s) (CHR '' '') @ s"

definition rowSet_summary :: "rowSet \<Rightarrow> string" where
  "rowSet_summary r =
     concat (map (\<lambda>k. pad8 (show_nat (length (gm_get [] k r))) @ ''  '' @ k @ [CHR 0x0A])
       (sort_key (\<lambda>k. (- int (length (gm_get [] k r)), k)) (gm_keys r)))"

definition pairs :: "rowSet \<Rightarrow> (string \<times> string) set" where
  "pairs r = {(t, c). c \<in> set (gm_get [] t r)}"

text \<open>The interface the walk relies on: \<open>add\<close> puts the rows in and returns those that were new,
  each once.\<close>

locale row_set =
  fixes add :: "'t \<Rightarrow> 'c list \<Rightarrow> 'r \<Rightarrow> 'r \<times> 'c list" and member :: "'r \<Rightarrow> ('t \<times> 'c) set"
  assumes member_add: "member (fst (add t cs r)) = member r \<union> {t} \<times> set cs"
    and added_set: "set (snd (add t cs r)) = {c \<in> set cs. (t, c) \<notin> member r}"
    and added_distinct: "distinct (snd (add t cs r))"
begin

lemma add_grows: "member r \<subseteq> member (fst (add t cs r))"
  by (simp add: member_add)

lemma added_pairs: "{t} \<times> set (snd (add t cs r)) = member (fst (add t cs r)) - member r"
  by (auto simp: member_add added_set)

lemma add_known: "{t} \<times> set cs \<subseteq> member r \<Longrightarrow> member (fst (add t cs r)) = member r \<and> snd (add t cs r) = []"
proof -
  assume a: "{t} \<times> set cs \<subseteq> member r"
  then have "set (snd (add t cs r)) = {}" unfolding added_set by auto
  then show ?thesis using a by (auto simp: member_add)
qed

lemma add_twice: "snd (add t cs (fst (add t cs r))) = []"
  by (rule add_known [THEN conjunct2]) (simp add: member_add)

lemma add_commute: "member (fst (add t cs (fst (add t' ds r)))) = member (fst (add t' ds (fst (add t cs r))))"
  by (auto simp: member_add)

end

lemma pairs_gm_set: "pairs (gm_set t cs r) = {p \<in> pairs r. fst p \<noteq> t} \<union> {t} \<times> set cs"
  by (auto simp: pairs_def split: if_splits)

lemma pairs_Nil [simp]: "pairs [] = {}"
  by (simp add: pairs_def)

lemma gm_get_missing: "map_of r t = None \<Longrightarrow> gm_get [] t r = []"
  by (simp add: gm_get_def)

lemma rowSet_add_spec:
  "pairs (fst (rowSet_add t cs r)) = pairs r \<union> {t} \<times> set cs
   \<and> set (snd (rowSet_add t cs r)) = {c \<in> set cs. (t, c) \<notin> pairs r}
   \<and> distinct (snd (rowSet_add t cs r))"
proof (induction cs arbitrary: r)
  case Nil
  then show ?case by simp
next
  case (Cons c cs)
  define r1 where "r1 = (if map_of r t = None then gm_set t [] r else r)"
  have p1: "pairs r1 = pairs r" and g1: "gm_get [] t r1 = gm_get [] t r"
    by (auto simp: r1_def pairs_def gm_get_missing split: if_splits)
  define r2 where "r2 = gm_set t (gm_get [] t r @ [c]) r1"
  have p2: "pairs r2 = pairs r \<union> {(t, c)}"
    unfolding r2_def pairs_gm_set p1 by (auto simp: pairs_def)
  show ?case
  proof (cases "(t, c) \<in> pairs r")
    case True
    then have "rowSet_add t (c # cs) r = rowSet_add t cs r1"
      by (simp add: Let_def pairs_def g1 flip: r1_def)
    with Cons.IH [of r1] p1 True show ?thesis by auto
  next
    case False
    then have e: "rowSet_add t (c # cs) r = (fst (rowSet_add t cs r2), c # snd (rowSet_add t cs r2))"
      by (simp add: Let_def pairs_def g1 r2_def case_prod_unfold flip: r1_def)
    show ?thesis using Cons.IH [of r2] p2 False unfolding e by auto
  qed
qed

interpretation rs: row_set rowSet_add pairs
  by unfold_locales (simp_all add: rowSet_add_spec)

subsection \<open>Queries\<close>

record conn =
  conn_query :: "string \<Rightarrow> string list \<Rightarrow> string rows_result"
  conn_fields :: "string \<Rightarrow> nat list"
  conn_typeName :: "nat \<Rightarrow> string option"

definition batchSize :: nat where
  "batchSize = 5000"

definition TIDOID :: nat where
  "TIDOID = 27"

text \<open>\<open>pgx.CollectRows(rows, pgx.RowTo[string])\<close> on the rows of a query that succeeded.\<close>

definition collectRows :: "(string + string) list \<Rightarrow> string option \<Rightarrow> qerr + string list" where
  "collectRows rows fin =
     (case foldM (\<lambda>acc r. case r of Inl e \<Rightarrow> Inl (ReadFailed e) | Inr x \<Rightarrow> Inr (acc @ [x])) [] rows of
        Inl e \<Rightarrow> Inl e
      | Inr xs \<Rightarrow> (case fin of Some e \<Rightarrow> Inl (ReadFailed e) | None \<Rightarrow> Inr xs))"

definition queryStrings :: "conn \<Rightarrow> string \<Rightarrow> string list \<Rightarrow> qerr + string list" where
  "queryStrings cn query args =
     (case conn_query cn query args of QErr e \<Rightarrow> Inl (QueryFailed e) | Rows rows fin \<Rightarrow> collectRows rows fin)"

definition typeName :: "conn \<Rightarrow> nat \<Rightarrow> string" where
  "typeName cn oid = (case conn_typeName cn oid of Some n \<Rightarrow> n | None \<Rightarrow> ''type '' @ show_nat oid)"

datatype seed_err = SeedQuery qerr | SeedNoCtid string

definition seedCtids :: "conn \<Rightarrow> string \<Rightarrow> seed_err + string list" where
  "seedCtids cn query =
     (case conn_query cn query [] of QErr e \<Rightarrow> Inl (SeedQuery (QueryFailed e))
      | Rows rows fin \<Rightarrow>
         (case conn_fields cn query of
            [] \<Rightarrow> Inl (SeedNoCtid ''no column'')
          | oid # _ \<Rightarrow>
             (if oid \<noteq> TIDOID then Inl (SeedNoCtid (typeName cn oid))
              else (case collectRows rows fin of Inl e \<Rightarrow> Inl (SeedQuery e) | Inr xs \<Rightarrow> Inr xs))))"

text \<open>\<open>slices.Chunk\<close>.\<close>

function chunks :: "nat \<Rightarrow> 'a list \<Rightarrow> 'a list list" where
  "chunks n xs = (if xs = [] \<or> n = 0 then [] else take n xs # chunks n (drop n xs))"
  by pat_completeness auto
termination
  by (relation "measure (\<lambda>(n, xs). length xs)") auto

declare chunks.simps [simp del]

definition queryBatched :: "conn \<Rightarrow> string \<Rightarrow> string list \<Rightarrow> qerr + string list" where
  "queryBatched cn query ctids =
     foldM (\<lambda>out chunk. case queryStrings cn query chunk of Inl e \<Rightarrow> Inl e | Inr found \<Rightarrow> Inr (out @ found))
       [] (chunks batchSize ctids)"

lemma chunks_Nil [simp]: "chunks n [] = []"
  by (subst chunks.simps) simp

lemma chunks_step: "xs \<noteq> [] \<Longrightarrow> 0 < n \<Longrightarrow> chunks n xs = take n xs # chunks n (drop n xs)"
  by (subst chunks.simps) simp

lemma concat_chunks: "0 < n \<Longrightarrow> concat (chunks n xs) = xs"
proof (induction n xs rule: chunks.induct)
  case (1 n xs)
  then show ?case by (cases "xs = []") (simp_all add: chunks_step)
qed

lemma chunks_bound: "c \<in> set (chunks n xs) \<Longrightarrow> 0 < length c \<and> length c \<le> n"
proof (induction n xs rule: chunks.induct)
  case (1 n xs)
  show ?case
  proof (cases "xs = [] \<or> n = 0")
    case True
    with "1.prems" show ?thesis by (subst (asm) chunks.simps) auto
  next
    case False
    with 1 show ?thesis by (auto simp: chunks_step)
  qed
qed

subsection \<open>The walk\<close>

definition fk_tables :: "catalog \<Rightarrow> foreignKey \<Rightarrow> dump_err + table \<times> table" where
  "fk_tables c fk =
     (case map_of (cat_Tables c) (fk_Parent fk) of None \<Rightarrow> Inl (NilTable (fk_Parent fk))
      | Some p \<Rightarrow> (case map_of (cat_Tables c) (fk_Child fk) of None \<Rightarrow> Inl (NilTable (fk_Child fk))
         | Some ch \<Rightarrow> Inr (p, ch)))"

type_synonym walk_state = "rowSet \<times> rowSet"

definition expand_fk ::
    "conn \<Rightarrow> catalog \<Rightarrow> Config \<Rightarrow> Seed \<Rightarrow> string list \<Rightarrow> walk_state \<Rightarrow> foreignKey \<Rightarrow> dump_err + walk_state" where
  "expand_fk cn cat cfg s ctids st fk =
     (case st of (rows, nxt) \<Rightarrow>
       if excluded cfg (fk_Child fk) then Inr (rows, nxt)
       else (case fk_tables cat fk of Inl e \<Rightarrow> Inl e
         | Inr (p, ch) \<Rightarrow>
            (case queryBatched cn (childSQL p ch fk (childLimit cfg s (fk_Child fk))) ctids of
               Inl e \<Rightarrow> Inl (ChildrenFailed (fk_Child fk) (fk_Parent fk) e)
             | Inr found \<Rightarrow>
                (let (rows', added) = rowSet_add (fk_Child fk) found rows
                 in Inr (rows', gm_set (fk_Child fk) (gm_get [] (fk_Child fk) nxt @ added) nxt)))))"

definition expand_level ::
    "conn \<Rightarrow> catalog \<Rightarrow> Config \<Rightarrow> Seed \<Rightarrow> walk_state \<Rightarrow> dump_err + walk_state" where
  "expand_level cn cat cfg s st =
     (case st of (rows, frontier) \<Rightarrow>
       foldM (\<lambda>st parent. foldM (expand_fk cn cat cfg s (gm_get [] parent frontier)) st (children cat parent))
         (rows, []) (gm_sorted_keys frontier))"

fun expand_depth ::
    "conn \<Rightarrow> catalog \<Rightarrow> Config \<Rightarrow> Seed \<Rightarrow> nat \<Rightarrow> walk_state \<Rightarrow> dump_err + walk_state" where
  "expand_depth cn cat cfg s 0 st = Inr st"
| "expand_depth cn cat cfg s (Suc n) st =
     (case expand_level cn cat cfg s st of Inl e \<Rightarrow> Inl e | Inr st' \<Rightarrow> expand_depth cn cat cfg s n st')"

definition expandSeed :: "conn \<Rightarrow> catalog \<Rightarrow> Config \<Rightarrow> rowSet \<Rightarrow> Seed \<Rightarrow> dump_err + rowSet" where
  "expandSeed cn cat cfg rows s =
     (let key = Seed_key s in
      case map_of (cat_Tables cat) key of None \<Rightarrow> Inl (NilTable key)
      | Some t \<Rightarrow>
        (case seedCtids cn (seedSQL t s) of
           Inl (SeedQuery e) \<Rightarrow> Inl (SeedFailed key e)
         | Inl (SeedNoCtid got) \<Rightarrow> Inl (NotACtid key got)
         | Inr ctids \<Rightarrow>
            (let (rows', added) = rowSet_add key ctids rows in
             case expand_depth cn cat cfg s (nat (childDepth s)) (rows', [(key, added)]) of
               Inl e \<Rightarrow> Inl e
             | Inr (rows'', _) \<Rightarrow> Inr rows'')))"

definition parent_found ::
    "conn \<Rightarrow> catalog \<Rightarrow> string list \<Rightarrow> rowSet \<Rightarrow> foreignKey \<Rightarrow> dump_err + rowSet" where
  "parent_found cn cat ctids found fk =
     (case fk_tables cat fk of Inl e \<Rightarrow> Inl e
      | Inr (p, ch) \<Rightarrow>
         (case queryBatched cn (parentSQL p ch fk) ctids of
            Inl e \<Rightarrow> Inl (ParentsFailed (fk_Parent fk) (fk_Child fk) e)
          | Inr ids \<Rightarrow> Inr (gm_set (fk_Parent fk) (gm_get [] (fk_Parent fk) found @ ids) found)))"

definition attached_found ::
    "conn \<Rightarrow> catalog \<Rightarrow> Config \<Rightarrow> string list \<Rightarrow> rowSet \<Rightarrow> foreignKey \<Rightarrow> dump_err + rowSet" where
  "attached_found cn cat cfg ctids found fk =
     (if \<not> attachedVia cfg fk then Inr found
      else (case fk_tables cat fk of Inl e \<Rightarrow> Inl e
        | Inr (p, ch) \<Rightarrow>
           (case queryBatched cn (childSQL p ch fk 0) ctids of
              Inl e \<Rightarrow> Inl (AttachedFailed (fk_Child fk) (fk_Parent fk) e)
            | Inr ids \<Rightarrow> Inr (gm_set (fk_Child fk) (gm_get [] (fk_Child fk) found @ ids) found))))"

definition neighbours ::
    "conn \<Rightarrow> catalog \<Rightarrow> Config \<Rightarrow> string \<Rightarrow> string list \<Rightarrow> dump_err + rowSet" where
  "neighbours cn cat cfg key ctids =
     (case foldM (parent_found cn cat ctids) [] (parents cat key) of Inl e \<Rightarrow> Inl e
      | Inr found \<Rightarrow> foldM (attached_found cn cat cfg ctids) found (children cat key))"

definition add_found :: "rowSet \<Rightarrow> walk_state \<Rightarrow> string \<Rightarrow> walk_state" where
  "add_found found st table =
     (case st of (rows, nxt) \<Rightarrow>
       let (rows', added) = rowSet_add table (gm_get [] table found) rows
       in (rows', if added = [] then nxt else gm_set table (gm_get [] table nxt @ added) nxt))"

definition close_key ::
    "conn \<Rightarrow> catalog \<Rightarrow> Config \<Rightarrow> rowSet \<Rightarrow> walk_state \<Rightarrow> string \<Rightarrow> dump_err + walk_state" where
  "close_key cn cat cfg work st key =
     (case neighbours cn cat cfg key (gm_get [] key work) of Inl e \<Rightarrow> Inl e
      | Inr found \<Rightarrow> Inr (foldl (add_found found) st (gm_sorted_keys found)))"

definition close_round ::
    "conn \<Rightarrow> catalog \<Rightarrow> Config \<Rightarrow> rowSet \<Rightarrow> rowSet \<Rightarrow> dump_err + walk_state" where
  "close_round cn cat cfg rows work =
     foldM (close_key cn cat cfg work) (rows, []) (gm_sorted_keys work)"

partial_function (option) close_loop ::
    "conn \<Rightarrow> catalog \<Rightarrow> Config \<Rightarrow> rowSet \<Rightarrow> rowSet \<Rightarrow> (dump_err + rowSet) option" where
  "close_loop cn cat cfg rows work =
     (if work = [] then Some (Inr rows)
      else (case close_round cn cat cfg rows work of Inl e \<Rightarrow> Some (Inl e)
        | Inr st \<Rightarrow> close_loop cn cat cfg (fst st) (snd st)))"

declare close_loop.simps [code]

definition closeSelection :: "conn \<Rightarrow> catalog \<Rightarrow> Config \<Rightarrow> rowSet \<Rightarrow> (dump_err + rowSet) option" where
  "closeSelection cn cat cfg rows =
     close_loop cn cat cfg rows (map (\<lambda>key. (key, rowSet_sorted rows key)) (gm_keys rows))"

definition check_seeds :: "catalog \<Rightarrow> Config \<Rightarrow> dump_err option" where
  "check_seeds cat cfg =
     first_err (\<lambda>s. if known (cat_Tables cat) (Seed_key s) then None else Some (SeedNotFound (Seed_key s)))
       (cfg_Seeds cfg)"

definition check_attach :: "catalog \<Rightarrow> Config \<Rightarrow> dump_err option" where
  "check_attach cat cfg =
     first_err (\<lambda>a. let child = qualify (ar_Table a); parent = qualify (ar_To a) in
         if \<not> list_ex (\<lambda>fk. fk_Child fk = child \<and> fk_Parent fk = parent) (cat_FKs cat)
         then Some (AttachNoFK child parent)
         else if excluded cfg child then Some (AttachedExcluded child) else None)
       (cfg_Attach cfg)"

definition walk :: "conn \<Rightarrow> catalog \<Rightarrow> Config \<Rightarrow> (dump_err + rowSet) option" where
  "walk cn cat cfg =
     (case err_then (check_seeds cat cfg) (check_attach cat cfg) of Some e \<Rightarrow> Some (Inl e)
      | None \<Rightarrow>
         (case foldM (expandSeed cn cat cfg) [] (cfg_Seeds cfg) of Inl e \<Rightarrow> Some (Inl e)
          | Inr rows \<Rightarrow> closeSelection cn cat cfg rows))"

end
