(* ===== verification/Dump_Closure.thy ===== *)
theory Dump_Closure
  imports Dump_Walk
begin

text \<open>
  What the walk selects. Rows are nodes (table, ctid); a foreign key whose referenced rows a
  query finds, and an attach rule, are edges. What the code relies on of PostgreSQL is
  \<open>answers\<close>: a child or parent query over an array of ctids returns the union of what it
  returns for each ctid (the array is only used as \<open>= ANY($1)\<close>, and a row limit is applied per
  parent row, in a lateral join). \<open>closeSelection\<close> then returns the rows reachable from the
  selection, and it always returns when the tables have finitely many rows.
\<close>

subsection \<open>Edges\<close>

definition walk_query :: "string \<Rightarrow> bool" where
  "walk_query q \<longleftrightarrow> (\<exists>p ch fk limit. q = childSQL p ch fk limit \<or> q = parentSQL p ch fk)"

definition answers :: "conn \<Rightarrow> (string \<Rightarrow> string \<Rightarrow> string set) \<Rightarrow> bool" where
  "answers cn rel \<longleftrightarrow> (\<forall>q cs xs. walk_query q \<longrightarrow> cs \<noteq> [] \<longrightarrow> queryStrings cn q cs = Inr xs \<longrightarrow>
     set xs = (\<Union>c \<in> set cs. rel q c))"

type_synonym row = "string \<times> string"

definition parent_edges :: "catalog \<Rightarrow> (string \<Rightarrow> string \<Rightarrow> string set) \<Rightarrow> foreignKey \<Rightarrow> row rel" where
  "parent_edges cat rel fk = {((t, c), (t', c')). t = fk_Child fk \<and> t' = fk_Parent fk \<and>
     (\<exists>p ch. fk_tables cat fk = Inr (p, ch) \<and> c' \<in> rel (parentSQL p ch fk) c)}"

definition child_edges ::
    "catalog \<Rightarrow> (string \<Rightarrow> string \<Rightarrow> string set) \<Rightarrow> int \<Rightarrow> foreignKey \<Rightarrow> row rel" where
  "child_edges cat rel limit fk = {((t, c), (t', c')). t = fk_Parent fk \<and> t' = fk_Child fk \<and>
     (\<exists>p ch. fk_tables cat fk = Inr (p, ch) \<and> c' \<in> rel (childSQL p ch fk limit) c)}"

definition closure_edges :: "catalog \<Rightarrow> Config \<Rightarrow> (string \<Rightarrow> string \<Rightarrow> string set) \<Rightarrow> row rel" where
  "closure_edges cat cfg rel = (\<Union>fk \<in> set (cat_FKs cat). parent_edges cat rel fk) \<union>
     (\<Union>fk \<in> {fk \<in> set (cat_FKs cat). attachedVia cfg fk}. child_edges cat rel 0 fk)"

definition expand_edges ::
    "catalog \<Rightarrow> Config \<Rightarrow> Seed \<Rightarrow> (string \<Rightarrow> string \<Rightarrow> string set) \<Rightarrow> row rel" where
  "expand_edges cat cfg s rel =
     (\<Union>fk \<in> {fk \<in> set (cat_FKs cat). \<not> excluded cfg (fk_Child fk)}.
        child_edges cat rel (childLimit cfg s (fk_Child fk)) fk)"

subsection \<open>Queries in batches\<close>

lemma queryBatched_set:
  assumes ans: "answers cn rel" and q: "walk_query q" and r: "queryBatched cn q cs = Inr xs"
  shows "set xs = (\<Union>c \<in> set cs. rel q c)"
proof -
  have gen: "set xs = set acc \<union> (\<Union>c \<in> set (concat css). rel q c)"
    if "foldM (\<lambda>out chunk. case queryStrings cn q chunk of Inl e \<Rightarrow> Inl e | Inr found \<Rightarrow> Inr (out @ found))
          acc css = Inr xs" and "\<forall>c \<in> set css. c \<noteq> []" for acc css
    using that
  proof (induction css arbitrary: acc)
    case Nil
    then show ?case by simp
  next
    case (Cons c css)
    from Cons.prems obtain found where f: "queryStrings cn q c = Inr found"
      and rest: "foldM (\<lambda>out chunk. case queryStrings cn q chunk of Inl e \<Rightarrow> Inl e | Inr found \<Rightarrow> Inr (out @ found))
          (acc @ found) css = Inr xs" by (auto split: sum.splits)
    have "set found = (\<Union>x \<in> set c. rel q x)" using ans q f Cons.prems(2) by (simp add: answers_def)
    with Cons.IH [OF rest] Cons.prems(2) show ?case by auto
  qed
  have "\<forall>c \<in> set (chunks batchSize cs). c \<noteq> []" using chunks_bound by fastforce
  from gen [OF r [unfolded queryBatched_def] this] show ?thesis
    by (simp add: concat_chunks batchSize_def)
qed

lemma walk_queries [simp]: "walk_query (childSQL p ch fk limit)" "walk_query (parentSQL p ch fk)"
  by (auto simp: walk_query_def)

lemma pairs_append:
  "pairs (gm_set t (gm_get [] t r @ xs) r) = pairs r \<union> {t} \<times> set xs"
  unfolding pairs_gm_set by (auto simp: pairs_def)

subsection \<open>One round of the closure\<close>

lemma parent_found_pairs:
  assumes "answers cn rel" and "parent_found cn cat cs found fk = Inr found'"
  shows "pairs found' = pairs found \<union> parent_edges cat rel fk `` ({fk_Child fk} \<times> set cs)"
proof -
  from assms(2) obtain p ch ids where t: "fk_tables cat fk = Inr (p, ch)"
    and q: "queryBatched cn (parentSQL p ch fk) cs = Inr ids"
    and f: "found' = gm_set (fk_Parent fk) (gm_get [] (fk_Parent fk) found @ ids) found"
    by (auto simp: parent_found_def split: sum.splits prod.splits)
  show ?thesis unfolding f pairs_append queryBatched_set [OF assms(1) walk_queries(2) q]
    by (auto simp: parent_edges_def t)
qed

lemma attached_found_pairs:
  assumes "answers cn rel" and "attached_found cn cat cfg cs found fk = Inr found'"
  shows "pairs found' = pairs found \<union>
    (if attachedVia cfg fk then child_edges cat rel 0 fk `` ({fk_Parent fk} \<times> set cs) else {})"
proof (cases "attachedVia cfg fk")
  case False
  with assms(2) show ?thesis by (simp add: attached_found_def)
next
  case True
  with assms(2) obtain p ch ids where t: "fk_tables cat fk = Inr (p, ch)"
    and q: "queryBatched cn (childSQL p ch fk 0) cs = Inr ids"
    and f: "found' = gm_set (fk_Child fk) (gm_get [] (fk_Child fk) found @ ids) found"
    by (auto simp: attached_found_def split: sum.splits prod.splits)
  show ?thesis unfolding f pairs_append queryBatched_set [OF assms(1) walk_queries(1) q]
    using True by (auto simp: child_edges_def t)
qed

text \<open>A loop whose body adds a set of pairs adds the union.\<close>

lemma foldM_union:
  assumes "foldM f s xs = Inr t" and "\<And>s x s'. f s x = Inr s' \<Longrightarrow> x \<in> set xs \<Longrightarrow> g s' = g s \<union> h x"
  shows "g t = g s \<union> (\<Union>x \<in> set xs. h x)"
  using assms
proof (induction xs arbitrary: s)
  case Nil
  then show ?case by simp
next
  case (Cons x xs)
  from Cons.prems(1) obtain s' where s': "f s x = Inr s'" "foldM f s' xs = Inr t"
    by (auto split: sum.splits)
  have "g t = g s' \<union> (\<Union>x \<in> set xs. h x)" using Cons.IH [OF s'(2)] Cons.prems(2) by auto
  moreover have "g s' = g s \<union> h x" using Cons.prems(2) s'(1) by auto
  ultimately show ?case by auto
qed

lemma UN_filter:
  "(\<And>x. x \<in> set xs \<Longrightarrow> \<not> Q x \<Longrightarrow> g x = {}) \<Longrightarrow> (\<Union>x \<in> set xs. g x) = (\<Union>x \<in> set (filter Q xs). g x)"
  by auto

lemma neighbours_pairs:
  assumes ans: "answers cn rel" and n: "neighbours cn cat cfg key cs = Inr found"
  shows "pairs found = closure_edges cat cfg rel `` ({key} \<times> set cs)"
proof -
  from n obtain f1 where 1: "foldM (parent_found cn cat cs) [] (parents cat key) = Inr f1"
    and 2: "foldM (attached_found cn cat cfg cs) f1 (children cat key) = Inr found"
    by (auto simp: neighbours_def split: sum.splits)
  have "pairs f1 = pairs [] \<union> (\<Union>fk \<in> set (parents cat key). parent_edges cat rel fk `` ({key} \<times> set cs))"
    using 1 by (rule foldM_union) (use parent_found_pairs [OF ans] in \<open>auto simp: parents_def\<close>)
  moreover have "pairs found = pairs f1 \<union> (\<Union>fk \<in> set (children cat key).
      if attachedVia cfg fk then child_edges cat rel 0 fk `` ({key} \<times> set cs) else {})"
    using 2 by (rule foldM_union) (use attached_found_pairs [OF ans] in \<open>auto simp: children_def\<close>)
  moreover have "closure_edges cat cfg rel `` ({key} \<times> set cs) =
      (\<Union>fk \<in> set (cat_FKs cat). parent_edges cat rel fk `` ({key} \<times> set cs)) \<union>
      (\<Union>fk \<in> set (cat_FKs cat). if attachedVia cfg fk then child_edges cat rel 0 fk `` ({key} \<times> set cs) else {})"
    unfolding closure_edges_def by (auto split: if_splits)
  moreover have "(\<Union>fk \<in> set (cat_FKs cat). parent_edges cat rel fk `` ({key} \<times> set cs)) =
      (\<Union>fk \<in> set (parents cat key). parent_edges cat rel fk `` ({key} \<times> set cs))"
    unfolding parents_def by (rule UN_filter) (auto simp: parent_edges_def)
  moreover have "(\<Union>fk \<in> set (cat_FKs cat).
      if attachedVia cfg fk then child_edges cat rel 0 fk `` ({key} \<times> set cs) else {}) =
      (\<Union>fk \<in> set (children cat key).
        if attachedVia cfg fk then child_edges cat rel 0 fk `` ({key} \<times> set cs) else {})"
    unfolding children_def by (rule UN_filter) (auto simp: child_edges_def)
  ultimately show ?thesis by simp
qed

definition no_empty :: "rowSet \<Rightarrow> bool" where
  "no_empty r \<longleftrightarrow> (\<forall>k \<in> set (gm_keys r). gm_get [] k r \<noteq> [])"

lemma no_empty_pairs: "no_empty r \<Longrightarrow> pairs r = {} \<Longrightarrow> r = []"
proof (rule ccontr)
  assume a: "no_empty r" "pairs r = {}" "r \<noteq> []"
  then obtain k where "k \<in> set (gm_keys r)" by (metis gm_keys_empty_iff last_in_set)
  with a(1) obtain c where "c \<in> set (gm_get [] k r)" by (auto simp: no_empty_def)
       (meson last_in_set)
  with a(2) show False by (auto simp: pairs_def)
qed

text \<open>What a step of the closure may do to the pair (rows, next) when it adds the rows \<open>A\<close>.\<close>

definition grows :: "row set \<Rightarrow> walk_state \<Rightarrow> walk_state \<Rightarrow> bool" where
  "grows A st st' \<longleftrightarrow> pairs (fst st') = pairs (fst st) \<union> A \<and>
     pairs (snd st') = pairs (snd st) \<union> (A - pairs (fst st))"

lemma grows_trans: "grows A s t \<Longrightarrow> grows B t u \<Longrightarrow> grows (A \<union> B) s u"
  by (auto simp: grows_def)

lemma grows_refl: "grows {} s s"
  by (simp add: grows_def)

lemma add_found_grows:
  "grows ({k} \<times> set (gm_get [] k found)) st (add_found found st k)"
  "no_empty (snd st) \<Longrightarrow> no_empty (snd (add_found found st k))"
proof -
  define rows nxt where "rows = fst st" and "nxt = snd st"
  then have st: "fst st = rows" "snd st = nxt" "st = (rows, nxt)" by simp_all
  obtain rows' added where a: "rowSet_add k (gm_get [] k found) rows = (rows', added)" by (cases "rowSet_add k (gm_get [] k found) rows")
  have e: "add_found found st k = (rows', if added = [] then nxt else gm_set k (gm_get [] k nxt @ added) nxt)"
    by (simp add: add_found_def st(3) a)
  have m: "pairs rows' = pairs rows \<union> {k} \<times> set (gm_get [] k found)"
    and s: "set added = {c \<in> set (gm_get [] k found). (k, c) \<notin> pairs rows}"
    using rs.member_add [of k "gm_get [] k found" rows] rs.added_set [of k "gm_get [] k found" rows] by (simp_all add: a)
  show "grows ({k} \<times> set (gm_get [] k found)) st (add_found found st k)"
  proof (cases "added = []")
    case True
    then have "{k} \<times> set (gm_get [] k found) - pairs rows = {}" using s by auto
    then show ?thesis using True m unfolding e grows_def st(1,2) by auto
  next
    case False
    have "{k} \<times> set added = {k} \<times> set (gm_get [] k found) - pairs rows" using s by auto
    with False m show ?thesis unfolding e grows_def st(1,2) by (simp add: pairs_append)
  qed
  show "no_empty (snd st) \<Longrightarrow> no_empty (snd (add_found found st k))"
    unfolding e st(1,2) by (auto simp: no_empty_def)
qed

lemma foldl_add_found:
  "grows (\<Union>k \<in> set ks. {k} \<times> set (gm_get [] k found)) st (foldl (add_found found) st ks)
   \<and> (no_empty (snd st) \<longrightarrow> no_empty (snd (foldl (add_found found) st ks)))"
proof (induction ks arbitrary: st)
  case Nil
  show ?case by (simp add: grows_refl)
next
  case (Cons k ks)
  from Cons [of "add_found found st k"] add_found_grows [where k = k and found = found and st = st] show ?case
    by (auto dest: grows_trans)
qed

lemma pairs_by_key: "(\<Union>k \<in> set (gm_keys r). {k} \<times> set (gm_get [] k r)) = pairs r"
  using gm_get_notin [of _ r "[]"] by (fastforce simp: pairs_def)

lemma close_key_grows:
  assumes "answers cn rel" and "close_key cn cat cfg work st key = Inr st'"
  shows "grows (closure_edges cat cfg rel `` ({key} \<times> set (gm_get [] key work))) st st'"
    and "no_empty (snd st) \<Longrightarrow> no_empty (snd st')"
proof -
  from assms(2) obtain found where n: "neighbours cn cat cfg key (gm_get [] key work) = Inr found"
    and st': "st' = foldl (add_found found) st (gm_sorted_keys found)"
    by (auto simp: close_key_def split: sum.splits)
  show "grows (closure_edges cat cfg rel `` ({key} \<times> set (gm_get [] key work))) st st'"
    "no_empty (snd st) \<Longrightarrow> no_empty (snd st')"
    using foldl_add_found [where ks = "gm_sorted_keys found" and found = found and st = st] neighbours_pairs [OF assms(1) n]
    by (simp_all add: st' pairs_by_key)
qed

lemma foldM_close_key:
  assumes "answers cn rel" and "foldM (close_key cn cat cfg work) st ks = Inr st'"
  shows "grows (closure_edges cat cfg rel `` (\<Union>k \<in> set ks. {k} \<times> set (gm_get [] k work))) st st'
    \<and> (no_empty (snd st) \<longrightarrow> no_empty (snd st'))"
  using assms(2)
proof (induction ks arbitrary: st)
  case Nil
  then show ?case by (simp add: grows_refl)
next
  case (Cons k ks)
  from Cons.prems obtain s where s: "close_key cn cat cfg work st k = Inr s"
    "foldM (close_key cn cat cfg work) s ks = Inr st'" by (auto split: sum.splits)
  from grows_trans [OF close_key_grows(1) [OF assms(1) s(1)] Cons.IH [OF s(2), THEN conjunct1]]
    Cons.IH [OF s(2)] close_key_grows(2) [OF assms(1) s(1)]
  show ?case by (simp add: Image_Un)
qed

lemma close_round_pairs:
  assumes "answers cn rel" and "close_round cn cat cfg rows work = Inr (rows', nxt)"
  shows "pairs rows' = pairs rows \<union> closure_edges cat cfg rel `` pairs work"
    and "pairs nxt = pairs rows' - pairs rows" and "no_empty nxt"
  using foldM_close_key [OF assms(1) assms(2) [unfolded close_round_def]]
  by (auto simp: grows_def pairs_by_key no_empty_def)

subsection \<open>The loop ends, with the reachable rows\<close>

lemma close_loop_unfold:
  "close_loop cn cat cfg rows work =
     (if work = [] then Some (Inr rows)
      else (case close_round cn cat cfg rows work of Inl e \<Rightarrow> Some (Inl e)
        | Inr st \<Rightarrow> close_loop cn cat cfg (fst st) (snd st)))"
  by (rule close_loop.simps)

lemma reach_between:
  assumes "A \<subseteq> B" and "B \<subseteq> E\<^sup>* `` A"
  shows "E\<^sup>* `` B = E\<^sup>* `` A"
  using assms by (auto simp: Image_iff subset_iff) (meson rtrancl_trans)

lemma close_loop_total:
  assumes ans: "answers cn rel" and E: "E = closure_edges cat cfg rel"
    and fin: "finite U" "pairs rows \<subseteq> U" "E `` U \<subseteq> U"
    and inv: "pairs work \<subseteq> pairs rows" "E `` (pairs rows - pairs work) \<subseteq> pairs rows"
  shows "\<exists>r. close_loop cn cat cfg rows work = Some r \<and> (\<forall>rows'. r = Inr rows' \<longrightarrow> pairs rows' = E\<^sup>* `` pairs rows)"
  using fin(2) inv
proof (induction "card (U - pairs rows)" arbitrary: rows work rule: less_induct)
  case less
  consider "work = []" | e where "work \<noteq> []" "close_round cn cat cfg rows work = Inl e"
    | rows1 nxt where "work \<noteq> []" "close_round cn cat cfg rows work = Inr (rows1, nxt)"
    by (cases "close_round cn cat cfg rows work") force+
  then show ?case
  proof cases
    case 1
    then have "E\<^sup>* `` pairs rows = pairs rows" using less.prems(3) by (simp add: Image_closed_trancl)
    with 1 show ?thesis by (simp add: close_loop_unfold)
  next
    case 2
    then show ?thesis by (subst close_loop_unfold) simp
  next
    case 3
    note cr = close_round_pairs [OF ans 3(2), folded E]
    have step: "close_loop cn cat cfg rows work = close_loop cn cat cfg rows1 nxt"
      using 3 by (subst close_loop_unfold) simp
    have closed: "E `` (pairs rows1 - pairs nxt) \<subseteq> pairs rows1" "pairs nxt \<subseteq> pairs rows1"
      using less.prems cr(1,2) by blast+
    have sub: "pairs rows1 \<subseteq> U" using less.prems(1,2) cr(1) fin(3) by blast
    have "pairs rows1 \<subseteq> E\<^sup>* `` pairs rows" using less.prems(2) cr(1) by auto
    then have same: "E\<^sup>* `` pairs rows1 = E\<^sup>* `` pairs rows"
      using cr(1) by (intro reach_between) auto
    show ?thesis
    proof (cases "pairs nxt = {}")
      case True
      then have "nxt = []" using cr(3) no_empty_pairs by blast
      then have "close_loop cn cat cfg rows work = Some (Inr rows1)" using step by (simp add: close_loop_unfold)
      moreover have "E\<^sup>* `` pairs rows1 = pairs rows1"
        using closed True by (simp add: Image_closed_trancl)
      ultimately show ?thesis using same by simp
    next
      case False
      then have "U - pairs rows1 \<subset> U - pairs rows" using cr(1,2) sub by blast
      then have "card (U - pairs rows1) < card (U - pairs rows)" using fin(1) by (simp add: psubset_card_mono)
      from less.hyps [OF this sub closed(2,1)] show ?thesis using step same by simp
    qed
  qed
qed

lemma finite_pairs: "finite (pairs r)"
proof -
  have "pairs r = (\<Union>k \<in> set (gm_keys r). {k} \<times> set (gm_get [] k r))" by (simp add: pairs_by_key)
  then show ?thesis by simp
qed

lemma pairs_sorted_work:
  "pairs (map (\<lambda>key. (key, rowSet_sorted rows key)) (gm_keys rows)) = pairs rows"
proof -
  have "gm_get [] k (map (\<lambda>key. (key, rowSet_sorted rows key)) (gm_keys rows)) =
      (if k \<in> set (gm_keys rows) then rowSet_sorted rows k else [])" for k
    by (simp add: gm_get_def map_of_map_keys split: option.splits)
       (auto simp: map_of_map_restrict restrict_map_def split: if_splits)
  then show ?thesis
    using gm_get_notin [of _ rows "[]"] by (fastforce simp: pairs_def rowSet_sorted_def split: if_splits)
qed

lemma closeSelection_total:
  assumes "answers cn rel" and "finite (Range (closure_edges cat cfg rel))"
  shows "\<exists>r. closeSelection cn cat cfg rows = Some r \<and>
    (\<forall>rows'. r = Inr rows' \<longrightarrow> pairs rows' = (closure_edges cat cfg rel)\<^sup>* `` pairs rows)"
  unfolding closeSelection_def
  by (rule close_loop_total [where U = "pairs rows \<union> Range (closure_edges cat cfg rel)"])
     (use assms in \<open>auto simp: pairs_sorted_work finite_pairs\<close>)

subsection \<open>Expansion of a seed\<close>

lemma expand_fk_grows:
  assumes ans: "answers cn rel" and e: "expand_fk cn cat cfg s cs st fk = Inr st'"
  shows "grows (if excluded cfg (fk_Child fk) then {}
      else child_edges cat rel (childLimit cfg s (fk_Child fk)) fk `` ({fk_Parent fk} \<times> set cs)) st st'"
proof (cases "excluded cfg (fk_Child fk)")
  case True
  with e show ?thesis by (auto simp: expand_fk_def grows_def split: prod.splits)
next
  case False
  let ?lim = "childLimit cfg s (fk_Child fk)"
  obtain rows nxt where st: "st = (rows, nxt)" by (cases st)
  from e False st obtain p ch found where t: "fk_tables cat fk = Inr (p, ch)"
    and q: "queryBatched cn (childSQL p ch fk ?lim) cs = Inr found"
    by (auto simp: expand_fk_def split: sum.splits prod.splits)
  obtain rows' added where a: "rowSet_add (fk_Child fk) found rows = (rows', added)"
    by (cases "rowSet_add (fk_Child fk) found rows")
  have st': "st' = (rows', gm_set (fk_Child fk) (gm_get [] (fk_Child fk) nxt @ added) nxt)"
    using e False by (simp add: expand_fk_def st t q a)
  have "child_edges cat rel ?lim fk `` ({fk_Parent fk} \<times> set cs) = {fk_Child fk} \<times> set found"
    unfolding queryBatched_set [OF ans walk_queries(1) q] by (auto simp: child_edges_def t)
  moreover have "{fk_Child fk} \<times> set added = {fk_Child fk} \<times> set found - pairs rows"
    using rs.added_set [of "fk_Child fk" found rows] a by auto
  moreover have "pairs rows' = pairs rows \<union> {fk_Child fk} \<times> set found"
    using rs.member_add [of "fk_Child fk" found rows] a by simp
  ultimately show ?thesis using False by (simp add: grows_def st st' pairs_append)
qed

lemma foldM_grows:
  assumes "foldM f st xs = Inr st'" and "\<And>s x s'. f s x = Inr s' \<Longrightarrow> x \<in> set xs \<Longrightarrow> grows (h x) s s'"
  shows "grows (\<Union>x \<in> set xs. h x) st st'"
  using assms
proof (induction xs arbitrary: st)
  case Nil
  then show ?case by (simp add: grows_refl)
next
  case (Cons x xs)
  from Cons.prems(1) obtain s where s: "f st x = Inr s" "foldM f s xs = Inr st'"
    by (auto split: sum.splits)
  have "grows (\<Union>x \<in> set xs. h x) s st'" using Cons.IH [OF s(2)] Cons.prems(2) by auto
  with grows_trans [OF Cons.prems(2) [OF s(1)]] show ?case by auto
qed

lemma expand_children_grows:
  assumes ans: "answers cn rel"
    and e: "foldM (expand_fk cn cat cfg s cs) st (children cat parent) = Inr st'"
  shows "grows (expand_edges cat cfg s rel `` ({parent} \<times> set cs)) st st'"
proof -
  let ?h = "\<lambda>fk. if excluded cfg (fk_Child fk) then {}
      else child_edges cat rel (childLimit cfg s (fk_Child fk)) fk `` ({parent} \<times> set cs)"
  have "grows (\<Union>fk \<in> set (children cat parent). ?h fk) st st'"
    using e
  proof (rule foldM_grows)
    fix st fk st'
    assume "expand_fk cn cat cfg s cs st fk = Inr st'" "fk \<in> set (children cat parent)"
    then show "grows (?h fk) st st'"
      using expand_fk_grows [OF ans] unfolding children_def by fastforce
  qed
  moreover have "(\<Union>fk \<in> set (children cat parent). ?h fk) = (\<Union>fk \<in> set (cat_FKs cat). ?h fk)"
    unfolding children_def by (rule UN_filter [symmetric]) (auto simp: child_edges_def)
  moreover have "(\<Union>fk \<in> set (cat_FKs cat). ?h fk) = expand_edges cat cfg s rel `` ({parent} \<times> set cs)"
    unfolding expand_edges_def by (auto split: if_splits)
  ultimately show ?thesis by simp
qed

lemma expand_level_pairs:
  assumes "answers cn rel" and "expand_level cn cat cfg s (rows, fr) = Inr (rows', fr')"
  shows "pairs rows' = pairs rows \<union> expand_edges cat cfg s rel `` pairs fr"
    and "pairs fr' = pairs rows' - pairs rows"
proof -
  let ?X = "expand_edges cat cfg s rel"
  have "grows (\<Union>k \<in> set (gm_sorted_keys fr). ?X `` ({k} \<times> set (gm_get [] k fr))) (rows, []) (rows', fr')"
    using assms(2) unfolding expand_level_def prod.case
    by (rule foldM_grows) (rule expand_children_grows [OF assms(1)])
  moreover have "(\<Union>k \<in> set (gm_sorted_keys fr). ?X `` ({k} \<times> set (gm_get [] k fr))) = ?X `` pairs fr"
    unfolding set_gm_sorted_keys by (subst pairs_by_key [symmetric]) (simp add: Image_UN)
  ultimately show "pairs rows' = pairs rows \<union> ?X `` pairs fr" "pairs fr' = pairs rows' - pairs rows"
    by (auto simp: grows_def)
qed

text \<open>The nodes at most \<open>n\<close> edges away.\<close>

fun within :: "'a rel \<Rightarrow> nat \<Rightarrow> 'a set \<Rightarrow> 'a set" where
  "within E 0 S = S"
| "within E (Suc n) S = within E n (S \<union> E `` S)"

lemma within_iff: "y \<in> within E n S \<longleftrightarrow> (\<exists>k \<le> n. \<exists>x \<in> S. (x, y) \<in> E ^^ k)"
proof (induction n arbitrary: S)
  case 0
  then show ?case by simp
next
  case (Suc n)
  have "(\<exists>k \<le> n. \<exists>x \<in> S \<union> E `` S. (x, y) \<in> E ^^ k) \<longleftrightarrow> (\<exists>k \<le> Suc n. \<exists>x \<in> S. (x, y) \<in> E ^^ k)"
    (is "?l \<longleftrightarrow> ?r")
  proof
    assume ?l
    then obtain k x where k: "k \<le> n" "x \<in> S \<or> (\<exists>z \<in> S. (z, x) \<in> E)" "(x, y) \<in> E ^^ k" by auto
    then show ?r
    proof (elim disjE)
      assume "\<exists>z \<in> S. (z, x) \<in> E"
      then obtain z where "z \<in> S" "(z, x) \<in> E" by blast
      then have "(z, y) \<in> E ^^ Suc k" using k(3) by (meson relpow_Suc_I2)
      then show ?r using k(1) \<open>z \<in> S\<close> by (meson Suc_le_mono)
    qed (meson le_SucI)
  next
    assume ?r
    then obtain k x where k: "k \<le> Suc n" "x \<in> S" "(x, y) \<in> E ^^ k" by auto
    then show ?l
    proof (cases k)
      case 0
      with k show ?thesis by (intro exI [of _ 0]) auto
    next
      case (Suc m)
      with k(3) obtain z where "(x, z) \<in> E" "(z, y) \<in> E ^^ m" by (meson relpow_Suc_D2)
      with k Suc show ?thesis by (intro exI [of _ m]) auto
    qed
  qed
  with Suc.IH show ?case by simp
qed

lemma within_absorb:
  "E `` (R - F) \<subseteq> R \<Longrightarrow> F \<subseteq> R \<Longrightarrow> R \<union> E `` R = R \<union> E `` F"
  by blast

text \<open>The visited set of a breadth-first search, whose frontier is what the last level added.\<close>

lemma expand_depth_pairs:
  assumes "answers cn rel" and "expand_depth cn cat cfg s n (rows, fr) = Inr (rows', fr')"
    and "expand_edges cat cfg s rel `` (pairs rows - pairs fr) \<subseteq> pairs rows" and "pairs fr \<subseteq> pairs rows"
  shows "pairs rows' = within (expand_edges cat cfg s rel) n (pairs rows)"
  using assms(2,3,4)
proof (induction n arbitrary: rows fr)
  case 0
  then show ?case by simp
next
  case (Suc n)
  from Suc.prems(1) obtain r1 f1 where l: "expand_level cn cat cfg s (rows, fr) = Inr (r1, f1)"
    and d: "expand_depth cn cat cfg s n (r1, f1) = Inr (rows', fr')" by (auto split: sum.splits)
  note l = expand_level_pairs [OF assms(1) l]
  have eq: "pairs r1 = pairs rows \<union> expand_edges cat cfg s rel `` pairs rows"
    unfolding l(1) using within_absorb Suc.prems(2,3) by metis
  have "pairs rows' = within (expand_edges cat cfg s rel) n (pairs r1)"
    by (rule Suc.IH [OF d]) (use eq l in blast)+
  then show ?case by (simp add: eq)
qed

lemma seed_pairs: "pairs [(k, xs)] = {k} \<times> set xs"
  by (auto simp: pairs_def gm_get_def split: if_splits)

lemma expandSeed_first:
  assumes ans: "answers cn rel" and e: "expandSeed cn cat cfg [] s = Inr rows"
  shows "\<exists>t ctids. map_of (cat_Tables cat) (Seed_key s) = Some t \<and> seedCtids cn (seedSQL t s) = Inr ctids \<and>
    pairs rows = within (expand_edges cat cfg s rel) (nat (childDepth s)) ({Seed_key s} \<times> set ctids)"
proof -
  obtain t where t: "map_of (cat_Tables cat) (Seed_key s) = Some t"
    using e by (auto simp: expandSeed_def Let_def split: option.splits)
  obtain ctids where c: "seedCtids cn (seedSQL t s) = Inr ctids"
    using e t by (auto simp: expandSeed_def Let_def split: sum.splits seed_err.splits)
  obtain r1 added where a: "rowSet_add (Seed_key s) ctids [] = (r1, added)"
    by (cases "rowSet_add (Seed_key s) ctids []")
  obtain fr where d: "expand_depth cn cat cfg s (nat (childDepth s)) (r1, [(Seed_key s, added)]) = Inr (rows, fr)"
    using e by (auto simp: expandSeed_def t c a split: sum.splits)
  have p: "pairs r1 = {Seed_key s} \<times> set ctids" "pairs [(Seed_key s, added)] = pairs r1"
    using rs.member_add [of "Seed_key s" ctids "[]"] rs.added_set [of "Seed_key s" ctids "[]"]
    by (auto simp: a seed_pairs)
  have "pairs rows = within (expand_edges cat cfg s rel) (nat (childDepth s)) (pairs r1)"
    using ans d by (rule expand_depth_pairs) (simp_all add: p(2))
  then show ?thesis using t c p by simp
qed

subsection \<open>Which tables a seed can reach\<close>

definition reachable_tables :: "catalog \<Rightarrow> Config \<Rightarrow> string set" where
  "reachable_tables cat cfg = {t. known (cat_Tables cat) t \<and> \<not> excluded cfg t}"

definition adds_within :: "string set \<Rightarrow> rowSet \<Rightarrow> rowSet \<Rightarrow> bool" where
  "adds_within T r r' \<longleftrightarrow> pairs r \<subseteq> pairs r' \<and> pairs r' - pairs r \<subseteq> T \<times> UNIV"

lemma adds_within_refl: "adds_within T r r"
  by (simp add: adds_within_def)

lemma adds_within_trans: "adds_within T r s \<Longrightarrow> adds_within T s t \<Longrightarrow> adds_within T r t"
  unfolding adds_within_def by blast

lemma adds_within_add: "t \<in> T \<Longrightarrow> adds_within T r (fst (rowSet_add t cs r))"
  unfolding adds_within_def rs.member_add by blast

lemma fk_tables_known: "fk_tables cat fk = Inr pc \<Longrightarrow> known (cat_Tables cat) (fk_Child fk) \<and> known (cat_Tables cat) (fk_Parent fk)"
  by (auto simp: fk_tables_def known_def split: option.splits)

lemma expand_fk_adds:
  assumes "expand_fk cn cat cfg s cs st fk = Inr st'"
  shows "adds_within (reachable_tables cat cfg) (fst st) (fst st')"
proof (cases "excluded cfg (fk_Child fk)")
  case True
  with assms show ?thesis by (auto simp: expand_fk_def adds_within_refl split: prod.splits)
next
  case False
  obtain rows nxt where st: "st = (rows, nxt)" by (cases st)
  from assms False obtain p ch found where t: "fk_tables cat fk = Inr (p, ch)"
    and st': "fst st' = fst (rowSet_add (fk_Child fk) found rows)"
    by (auto simp: expand_fk_def st Let_def case_prod_unfold split: sum.splits)
  have "fk_Child fk \<in> reachable_tables cat cfg"
    using fk_tables_known [OF t] False by (simp add: reachable_tables_def)
  then show ?thesis unfolding st' st fst_conv by (rule adds_within_add)
qed

lemma expand_level_adds:
  assumes "expand_level cn cat cfg s st = Inr st'"
  shows "adds_within (reachable_tables cat cfg) (fst st) (fst st')"
proof -
  obtain rows fr where st: "st = (rows, fr)" by (cases st)
  let ?P = "\<lambda>st'. adds_within (reachable_tables cat cfg) rows (fst st')"
  from assms have f: "foldM (\<lambda>st parent. foldM (expand_fk cn cat cfg s (gm_get [] parent fr)) st (children cat parent))
      (rows, []) (gm_sorted_keys fr) = Inr st'" by (simp add: expand_level_def st)
  have "?P st'"
    using f
  proof (rule foldM_invariant [where P = ?P])
    fix s1 x s2
    assume "?P s1" and "foldM (expand_fk cn cat cfg s (gm_get [] x fr)) s1 (children cat x) = Inr s2"
    then show "?P s2"
      by (rule_tac foldM_invariant [where P = ?P]) (auto intro: adds_within_trans expand_fk_adds)
  qed (simp add: adds_within_refl)
  then show ?thesis by (simp add: st)
qed

lemma expand_depth_adds:
  "expand_depth cn cat cfg s n st = Inr st' \<Longrightarrow> adds_within (reachable_tables cat cfg) (fst st) (fst st')"
  by (induction n arbitrary: st)
     (auto simp: adds_within_refl split: sum.splits intro: adds_within_trans expand_level_adds)

lemma expandSeed_adds:
  assumes "expandSeed cn cat cfg rows s = Inr rows'"
  shows "adds_within (insert (Seed_key s) (reachable_tables cat cfg)) rows rows'"
proof -
  from assms obtain ctids fr where d: "expand_depth cn cat cfg s (nat (childDepth s))
      (fst (rowSet_add (Seed_key s) ctids rows), [(Seed_key s, snd (rowSet_add (Seed_key s) ctids rows))]) = Inr (rows', fr)"
    by (auto simp: expandSeed_def Let_def case_prod_unfold split: option.splits sum.splits seed_err.splits)
  from expand_depth_adds [OF d]
  have "adds_within (insert (Seed_key s) (reachable_tables cat cfg)) (fst (rowSet_add (Seed_key s) ctids rows)) rows'"
    by (auto simp: adds_within_def)
  then show ?thesis by (rule adds_within_trans [OF adds_within_add, rotated]) simp
qed

lemma expandSeeds_tables:
  assumes "foldM (expandSeed cn cat cfg) [] ss = Inr rows"
  shows "pairs rows \<subseteq> (Seed_key ` set ss \<union> reachable_tables cat cfg) \<times> UNIV"
  using assms
proof (rule foldM_invariant)
  fix r s r'
  assume s: "s \<in> set ss" and r: "pairs r \<subseteq> (Seed_key ` set ss \<union> reachable_tables cat cfg) \<times> UNIV"
    and e: "expandSeed cn cat cfg r s = Inr r'"
  have "pairs r' \<subseteq> pairs r \<union> insert (Seed_key s) (reachable_tables cat cfg) \<times> UNIV"
    using expandSeed_adds [OF e] unfolding adds_within_def by blast
  also have "\<dots> \<subseteq> (Seed_key ` set ss \<union> reachable_tables cat cfg) \<times> UNIV"
    using r s by blast
  finally show "pairs r' \<subseteq> (Seed_key ` set ss \<union> reachable_tables cat cfg) \<times> UNIV" .
qed simp

subsection \<open>No nil table is dereferenced\<close>

text \<open>The errors of the model that are run-time panics in Go: a method of a nil table, and an index past
  the end of the types of a table.\<close>

definition panic :: "dump_err \<Rightarrow> bool" where
  "panic e \<longleftrightarrow> (case e of NilTable _ \<Rightarrow> True | MissingType _ \<Rightarrow> True | _ \<Rightarrow> False)"

lemma fk_tables_ok: "catalog_wf cat \<Longrightarrow> fk \<in> set (cat_FKs cat) \<Longrightarrow> \<exists>pc. fk_tables cat fk = Inr pc"
  by (force simp: fk_tables_def catalog_wf_def known_def split: option.splits)

lemma expand_fk_no_panic:
  "catalog_wf cat \<Longrightarrow> fk \<in> set (cat_FKs cat) \<Longrightarrow> expand_fk cn cat cfg s cs st fk = Inl e \<Longrightarrow> \<not> panic e"
  using fk_tables_ok [of cat fk] by (auto simp: panic_def expand_fk_def case_prod_unfold Let_def split: sum.splits if_splits)

lemma expand_level_no_panic: "catalog_wf cat \<Longrightarrow> expand_level cn cat cfg s st = Inl e \<Longrightarrow> \<not> panic e"
  by (auto simp: expand_level_def children_def split: prod.splits dest!: foldM_error dest: expand_fk_no_panic)

lemma expand_depth_no_panic: "catalog_wf cat \<Longrightarrow> expand_depth cn cat cfg s n st = Inl e \<Longrightarrow> \<not> panic e"
  by (induction n arbitrary: st) (auto split: sum.splits dest: expand_level_no_panic)

lemma expandSeed_no_panic:
  "catalog_wf cat \<Longrightarrow> known (cat_Tables cat) (Seed_key s) \<Longrightarrow> expandSeed cn cat cfg rows s = Inl e \<Longrightarrow> \<not> panic e"
  using expand_depth_no_panic [of cat cn cfg s]
  by (auto simp: panic_def expandSeed_def known_def Let_def case_prod_unfold split: option.splits sum.splits seed_err.splits)

lemma close_key_no_panic:
  assumes wf: "catalog_wf cat" and "close_key cn cat cfg work st key = Inl e"
  shows "\<not> panic e"
proof -
  from assms(2) have "neighbours cn cat cfg key (gm_get [] key work) = Inl e"
    by (simp add: close_key_def split: sum.splits)
  then consider f fk where "fk \<in> set (cat_FKs cat)" "parent_found cn cat (gm_get [] key work) f fk = Inl e"
    | f fk where "fk \<in> set (cat_FKs cat)" "attached_found cn cat cfg (gm_get [] key work) f fk = Inl e"
    by (auto simp: neighbours_def parents_def children_def split: sum.splits dest!: foldM_error)
  then show ?thesis
    by cases (use fk_tables_ok [OF wf] in
      \<open>fastforce simp: panic_def parent_found_def attached_found_def split: sum.splits prod.splits if_splits\<close>)+
qed

lemma close_round_no_panic: "catalog_wf cat \<Longrightarrow> close_round cn cat cfg rows work = Inl e \<Longrightarrow> \<not> panic e"
  unfolding close_round_def by (auto dest!: foldM_error dest: close_key_no_panic)

lemma close_loop_no_panic:
  assumes "catalog_wf cat" and "close_loop cn cat cfg rows work = Some (Inl e)"
  shows "\<not> panic e"
proof -
  have "catalog_wf cat \<longrightarrow> (\<forall>e. r = Inl e \<longrightarrow> \<not> panic e)" if "close_loop cn cat cfg rows work = Some r" for r
  proof (rule close_loop.raw_induct [OF _ that])
    fix f :: "conn \<Rightarrow> catalog \<Rightarrow> Config \<Rightarrow> rowSet \<Rightarrow> rowSet \<Rightarrow> (dump_err + rowSet) option"
    fix cn cat cfg rows work r
    assume IH: "\<And>cn cat cfg rows work r. f cn cat cfg rows work = Some r \<Longrightarrow> catalog_wf cat \<longrightarrow> (\<forall>e. r = Inl e \<longrightarrow> \<not> panic e)"
      and e: "(if work = [] then Some (Inr rows)
        else (case close_round cn cat cfg rows work of Inl e \<Rightarrow> Some (Inl e)
          | Inr st \<Rightarrow> f cn cat cfg (fst st) (snd st))) = Some r"
    show "catalog_wf cat \<longrightarrow> (\<forall>e. r = Inl e \<longrightarrow> \<not> panic e)"
      using e IH close_round_no_panic [of cat cn cfg rows work] by (auto split: if_splits sum.splits)
  qed
  then show ?thesis using assms by blast
qed

text \<open>On a well-formed catalog the walk does not panic.\<close>

lemma walk_no_panic:
  assumes wf: "catalog_wf cat" and w: "walk cn cat cfg = Some (Inl e)"
  shows "\<not> panic e"
proof (cases "check_seeds cat cfg = None \<and> check_attach cat cfg = None")
  case False
  then have "check_seeds cat cfg = Some e \<or> check_attach cat cfg = Some e"
    using w by (auto simp: walk_def err_then_def split: option.splits)
  then show ?thesis
    by (auto simp: panic_def check_seeds_def check_attach_def Let_def split: if_splits dest!: first_err_Some)
next
  case none: True
  then have seeds: "\<forall>s \<in> set (cfg_Seeds cfg). known (cat_Tables cat) (Seed_key s)"
    by (auto simp: check_seeds_def split: if_splits)
  show ?thesis
  proof (cases "foldM (expandSeed cn cat cfg) [] (cfg_Seeds cfg)")
    case (Inl e')
    then have "e = e'" using w none by (simp add: walk_def)
    with foldM_error [OF Inl] seeds expandSeed_no_panic [OF wf] show ?thesis by blast
  next
    case (Inr rows)
    then have "closeSelection cn cat cfg rows = Some (Inl e)" using w none by (simp add: walk_def)
    from close_loop_no_panic [OF wf this [unfolded closeSelection_def]] show ?thesis .
  qed
qed

end
