(* ===== verification/Go_Path.thy ===== *)
theory Go_Path
  imports Go_Strings
begin

text \<open>
  \<open>path/filepath\<close> on Unix: \<open>Clean\<close> over the slash-separated elements, and \<open>Join\<close>, \<open>Dir\<close>, \<open>Base\<close>
  and \<open>Ext\<close> on top of it. \<open>clean_elem\<close> keeps the elements already emitted, in reverse.
\<close>

definition slash :: char where
  "slash = CHR ''/''"

definition clean_elem :: "bool \<Rightarrow> string list \<Rightarrow> string \<Rightarrow> string list" where
  "clean_elem rooted st e =
     (if e = [] \<or> e = ''.'' then st
      else if e = ''..'' then
        (if st \<noteq> [] \<and> hd st \<noteq> ''..'' then tl st else if rooted then st else e # st)
      else e # st)"

definition path_clean :: "string \<Rightarrow> string" where
  "path_clean p =
     (if p = [] then ''.''
      else let rooted = (hd p = slash);
               r = (if rooted then [slash] else []) @ join [slash] (rev (foldl (clean_elem rooted) [] (split_on slash p)))
           in if r = [] then ''.'' else r)"

definition path_join :: "string list \<Rightarrow> string" where
  "path_join elems = (case dropWhile (\<lambda>e. e = []) elems of [] \<Rightarrow> [] | es \<Rightarrow> path_clean (join [slash] es))"

text \<open>\<open>Dir\<close>: everything up to and including the last slash, cleaned.\<close>

definition upto_slash :: "string \<Rightarrow> string" where
  "upto_slash p = rev (dropWhile (\<lambda>c. c \<noteq> slash) (rev p))"

definition path_dir :: "string \<Rightarrow> string" where
  "path_dir p = path_clean (upto_slash p)"

definition path_base :: "string \<Rightarrow> string" where
  "path_base p =
     (if p = [] then ''.''
      else let q = trimRight p [slash] in
           if q = [] then [slash] else rev (takeWhile (\<lambda>c. c \<noteq> slash) (rev q)))"

text \<open>\<open>Ext\<close>: from the last dot of the last element.\<close>

definition path_ext :: "string \<Rightarrow> string" where
  "path_ext p =
     (let b = rev (takeWhile (\<lambda>c. c \<noteq> slash) (rev p)); e = takeWhile (\<lambda>c. c \<noteq> CHR ''.'') (rev b)
      in if length e < length b then CHR ''.'' # rev e else [])"

lemma path_base_no_slash: "path_base p \<noteq> [slash] \<Longrightarrow> slash \<notin> set (path_base p)"
proof -
  assume "path_base p \<noteq> [slash]"
  then have "path_base p = ''.'' \<or> (\<exists>q. path_base p = rev (takeWhile (\<lambda>c. c \<noteq> slash) (rev q)))"
    unfolding path_base_def Let_def by (auto split: if_splits)
  then show ?thesis by (auto simp: slash_def dest: set_takeWhileD)
qed

lemma path_base_neq_Nil: "path_base p \<noteq> []"
proof (cases "p = [] \<or> trimRight p [slash] = []")
  case True
  then show ?thesis by (auto simp: path_base_def)
next
  case False
  then have "last (trimRight p [slash]) \<noteq> slash" using trimRight_last [of p "[slash]"] by simp
  then show ?thesis using False
    by (cases "trimRight p [slash]" rule: rev_cases) (auto simp: path_base_def Let_def)
qed

end
