(* ===== verification/Dump_Output.thy ===== *)
theory Dump_Output
  imports Dump_Closure Go_Path
begin

text \<open>
  \<open>internal/pkg/dump/output.go\<close>, \<open>snapshot.go\<close> and \<open>dump.go\<close>: the script, the snapshot around the
  dump and the temporary-file protocol of \<open>Run\<close>. The script goes through a \<open>bufio.Writer\<close>,
  modelled with its buffer and its sticky error over an underlying writer that may fail at any
  write; \<open>io.WriteString\<close> is treated as \<open>Write\<close>. The file system is a map from paths to contents
  and modes, and every system call of \<open>Run\<close> may fail.
\<close>

subsection \<open>bufio.Writer\<close>

text \<open>An underlying writer: given what it accepted so far and the bytes of one call, \<open>None\<close> when it
  accepts them all, or how many it accepted and its error (the contract of \<open>io.Writer\<close>: fewer
  bytes than given come with an error).\<close>

type_synonym writer = "string \<Rightarrow> string \<Rightarrow> (nat \<times> string) option"

record bufw =
  bw_buf :: string
  bw_out :: string
  bw_err :: "string option"

definition bufSize :: nat where
  "bufSize = 4096"

definition newBufw :: bufw where
  "newBufw = \<lparr>bw_buf = [], bw_out = [], bw_err = None\<rparr>"

definition bw_flush :: "writer \<Rightarrow> bufw \<Rightarrow> bufw" where
  "bw_flush wr b =
     (if bw_err b \<noteq> None \<or> bw_buf b = [] then b
      else (case wr (bw_out b) (bw_buf b) of
          None \<Rightarrow> b\<lparr>bw_out := bw_out b @ bw_buf b, bw_buf := []\<rparr>
        | Some (n, e) \<Rightarrow> b\<lparr>bw_out := bw_out b @ take n (bw_buf b), bw_buf := drop n (bw_buf b), bw_err := Some e\<rparr>))"

lemma bw_flush_done: "bw_err (bw_flush wr b) = None \<Longrightarrow> bw_buf (bw_flush wr b) = []"
  by (auto simp: bw_flush_def split: option.splits if_splits)

function bw_write :: "writer \<Rightarrow> bufw \<Rightarrow> string \<Rightarrow> bufw" where
  "bw_write wr b p =
     (if bw_err b \<noteq> None then b
      else if length p \<le> bufSize - length (bw_buf b) then b\<lparr>bw_buf := bw_buf b @ p\<rparr>
      else if bw_buf b = [] then
        (case wr (bw_out b) p of
           None \<Rightarrow> bw_write wr (b\<lparr>bw_out := bw_out b @ p\<rparr>) []
         | Some (n, e) \<Rightarrow> bw_write wr (b\<lparr>bw_out := bw_out b @ take n p, bw_err := Some e\<rparr>) (drop n p))
      else
        (let n = bufSize - length (bw_buf b)
         in bw_write wr (bw_flush wr (b\<lparr>bw_buf := bw_buf b @ take n p\<rparr>)) (drop n p)))"
  by pat_completeness auto

termination
proof (relation "measure (\<lambda>(wr, b, p). if bw_err b \<noteq> None then 0 else Suc (length p + length (bw_buf b)))",
    goal_cases)
  case 1
  show ?case by simp
next
  case (4 wr b p n)
  then show ?case
    using bw_flush_done [of wr "b\<lparr>bw_buf := bw_buf b @ take n p\<rparr>"] by (cases "bw_buf b") auto
qed auto

declare bw_write.simps [simp del]

lemma bw_flush_ok:
  "bw_err (bw_flush wr b) = None \<Longrightarrow>
   bw_err b = None \<and> bw_out (bw_flush wr b) = bw_out b @ bw_buf b \<and> bw_buf (bw_flush wr b) = []"
  by (auto simp: bw_flush_def split: option.splits if_splits)

text \<open>A write that leaves no error has put all its bytes behind the earlier ones.\<close>

lemma bw_write_ok:
  "bw_err (bw_write wr b p) = None \<Longrightarrow>
   bw_err b = None \<and> bw_out (bw_write wr b p) @ bw_buf (bw_write wr b p) = bw_out b @ bw_buf b @ p"
proof (induction wr b p rule: bw_write.induct)
  case (1 wr b p)
  let ?n = "bufSize - length (bw_buf b)"
  consider "bw_err b \<noteq> None" | "bw_err b = None" "length p \<le> ?n"
    | "bw_err b = None" "\<not> length p \<le> ?n" "bw_buf b = []" | "bw_err b = None" "\<not> length p \<le> ?n" "bw_buf b \<noteq> []"
    by blast
  then show ?case
  proof cases
    case 1
    with "1.prems" show ?thesis by (simp add: bw_write.simps [of wr b p])
  next
    case 2
    then show ?thesis by (simp add: bw_write.simps [of wr b p])
  next
    case 3
    note e = bw_write.simps [of wr b p]
    show ?thesis
    proof (cases "wr (bw_out b) p")
      case None
      with 3 have w: "bw_write wr b p = bw_write wr (b\<lparr>bw_out := bw_out b @ p\<rparr>) []" by (simp add: e)
      from "1.IH"(1) [OF _ _ _ None] 3 "1.prems" show ?thesis by (simp add: w)
    next
      case (Some ne)
      obtain n x where "ne = (n, x)" by (cases ne)
      with 3 Some have "bw_write wr b p = bw_write wr (b\<lparr>bw_out := bw_out b @ take n p, bw_err := Some x\<rparr>) (drop n p)"
        by (simp add: e)
      with "1.prems" show ?thesis by (simp add: bw_write.simps)
    qed
  next
    case 4
    let ?b = "b\<lparr>bw_buf := bw_buf b @ take ?n p\<rparr>"
    from 4 have w: "bw_write wr b p = bw_write wr (bw_flush wr ?b) (drop ?n p)"
      by (simp add: bw_write.simps [of wr b p] Let_def)
    have IH: "bw_err (bw_flush wr ?b) = None \<and> bw_out (bw_write wr b p) @ bw_buf (bw_write wr b p) =
        bw_out (bw_flush wr ?b) @ bw_buf (bw_flush wr ?b) @ drop ?n p"
      unfolding w by (rule "1.IH"(3)) (use 4 "1.prems" w in simp_all)
    with bw_flush_ok [of wr ?b] show ?thesis by simp
  qed
qed

subsection \<open>The script\<close>

definition nl :: string where
  "nl = [CHR 0x0A]"

definition header_text :: "string \<Rightarrow> string" where
  "header_text source =
     ''-- Code generated by mmw db dump from '' @ source @ ''. DO NOT EDIT.'' @ nl
     @ ''SET client_encoding = '' @ quoteLiteral ''UTF8'' @ '';'' @ nl
     @ ''SET standard_conforming_strings = on;'' @ nl
     @ ''SET TimeZone = '' @ quoteLiteral ''UTC'' @ '';'' @ nl
     @ ''SET session_replication_role = replica;'' @ nl
     @ ''BEGIN;'' @ nl @ nl"

text \<open>Every step of the output writes on the buffered writer; an error carries the writer with it,
  since what was delivered before the error stays delivered.\<close>

type_synonym out_result = "dump_err \<times> bufw + bufw"

definition bw_put :: "writer \<Rightarrow> string \<Rightarrow> bufw \<Rightarrow> out_result" where
  "bw_put wr p b = (let b' = bw_write wr b p in
     case bw_err b' of Some e \<Rightarrow> Inl (WriteFailed e, b') | None \<Rightarrow> Inr b')"

definition writeHeader :: "writer \<Rightarrow> string \<Rightarrow> bufw \<Rightarrow> out_result" where
  "writeHeader wr source b = bw_put wr (header_text source) b"

definition maxExpr_part :: "(string, table) gomap \<Rightarrow> sequenceUse \<Rightarrow> dump_err + string" where
  "maxExpr_part tables u =
     (case map_of tables (su_Table u) of None \<Rightarrow> Inl (NilTable (su_Table u))
      | Some t \<Rightarrow> Inr (''(SELECT max('' @ quoteIdent (su_Column u) @ '') FROM ONLY '' @ table_qualified t @ '')''))"

definition maxExpr :: "sequence \<Rightarrow> (string, table) gomap \<Rightarrow> dump_err + string" where
  "maxExpr s tables =
     (case foldM (\<lambda>parts u. case maxExpr_part tables u of Inl e \<Rightarrow> Inl e | Inr x \<Rightarrow> Inr (parts @ [x]))
        [''1''] (sq_Uses s) of
        Inl e \<Rightarrow> Inl e | Inr parts \<Rightarrow> Inr (''GREATEST('' @ join '', '' parts @ '')''))"

definition renderSetval :: "sequence \<Rightarrow> (string, table) gomap \<Rightarrow> dump_err + string" where
  "renderSetval s tables =
     (case maxExpr s tables of Inl e \<Rightarrow> Inl e
      | Inr m \<Rightarrow> Inr (''SELECT setval('' @ quoteLiteral (sq_Name s) @ '', '' @ m @ '');''))"

definition usedBy :: "sequence \<Rightarrow> rowSet \<Rightarrow> bool" where
  "usedBy s rows = list_ex (\<lambda>u. gm_get [] (su_Table u) rows \<noteq> []) (sq_Uses s)"

text \<open>The connection, with what \<open>CopyTo\<close> receives for a COPY command: chunks, and an error after
  them or none.\<close>

record dconn = conn +
  dc_begin :: "string option"
  dc_tables :: "table_row rows_result"
  dc_fks :: "fk_row rows_result"
  dc_seqs :: "seq_row rows_result"
  dc_copy :: "string \<Rightarrow> string list \<times> string option"

definition copyTo :: "dconn \<Rightarrow> writer \<Rightarrow> string \<Rightarrow> bufw \<Rightarrow> string \<times> bufw + bufw" where
  "copyTo cn wr sql b =
     (case dc_copy cn sql of (parts, fin) \<Rightarrow>
       (case foldM (\<lambda>b c. let b' = bw_write wr b c in
               case bw_err b' of Some e \<Rightarrow> Inl (e, b') | None \<Rightarrow> Inr b') b parts of
          Inl x \<Rightarrow> Inl x
        | Inr b' \<Rightarrow> (case fin of Some e \<Rightarrow> Inl (e, b') | None \<Rightarrow> Inr b')))"

definition write_table :: "dconn \<Rightarrow> writer \<Rightarrow> catalog \<Rightarrow> rowSet \<Rightarrow> bufw \<Rightarrow> string \<Rightarrow> out_result" where
  "write_table cn wr cat rows b key =
     (let ctids = rowSet_sorted rows key in
      if ctids = [] then Inr b
      else (case map_of (cat_Tables cat) key of None \<Rightarrow> Inl (NilTable key, b)
        | Some t \<Rightarrow>
           (case bw_put wr (copyHeader t @ nl) b of Inl x \<Rightarrow> Inl x
            | Inr b1 \<Rightarrow>
               (case copySQL t ctids of None \<Rightarrow> Inl (MissingType key, b1)
                | Some sql \<Rightarrow>
                   (case copyTo cn wr sql b1 of
                      Inl (e, b2) \<Rightarrow> Inl (CopyFailed key (gm_sorted_keys (tbl_Transforms t)) e, b2)
                    | Inr b2 \<Rightarrow> bw_put wr (CHR 0x5C # ''.'' @ nl @ nl) b2)))))"

definition write_setval :: "writer \<Rightarrow> catalog \<Rightarrow> rowSet \<Rightarrow> bufw \<Rightarrow> sequence \<Rightarrow> out_result" where
  "write_setval wr cat rows b s =
     (if \<not> usedBy s rows then Inr b
      else (case renderSetval s (cat_Tables cat) of Inl e \<Rightarrow> Inl (e, b)
        | Inr line \<Rightarrow> bw_put wr (line @ nl) b))"

definition writeData :: "dconn \<Rightarrow> writer \<Rightarrow> catalog \<Rightarrow> rowSet \<Rightarrow> bufw \<Rightarrow> out_result" where
  "writeData cn wr cat rows b =
     (case foldM (write_table cn wr cat rows) b (cat_Keys cat) of Inl x \<Rightarrow> Inl x
      | Inr b1 \<Rightarrow>
         (case foldM (write_setval wr cat rows) b1 (cat_Sequences cat) of Inl x \<Rightarrow> Inl x
          | Inr b2 \<Rightarrow> bw_put wr (nl @ ''COMMIT;'' @ nl) b2))"

subsection \<open>The dump\<close>

text \<open>\<open>withSnapshot\<close>: the statements executed around \<open>fn\<close> are part of the result.\<close>

datatype stmt = BeginSnapshotStmt | RollbackStmt

definition beginSnapshot :: string where
  "beginSnapshot = ''BEGIN ISOLATION LEVEL REPEATABLE READ READ ONLY;'' @ nl @ ''SET row_security = off;'' @ nl
     @ ''SET TimeZone = '' @ quoteLiteral ''UTC'' @ '';'' @ nl @ ''SET DateStyle = '' @ quoteLiteral ''ISO, YMD'' @ '';'' @ nl
     @ ''SET IntervalStyle = '' @ quoteLiteral ''postgres'' @ '';'' @ nl @ ''SET extra_float_digits = 3''"

fun stmt_text :: "stmt \<Rightarrow> string" where
  "stmt_text BeginSnapshotStmt = beginSnapshot"
| "stmt_text RollbackStmt = ''ROLLBACK''"

definition withSnapshot ::
    "dconn \<Rightarrow> (dump_err option \<times> 's) option \<Rightarrow> 's \<Rightarrow> (dump_err option \<times> 's \<times> stmt list) option" where
  "withSnapshot cn fn s0 =
     (case dc_begin cn of Some e \<Rightarrow> Some (Some (BeginSnapshot e), s0, [BeginSnapshotStmt])
      | None \<Rightarrow> (case fn of None \<Rightarrow> None
         | Some (err, s) \<Rightarrow> Some (err, s, [BeginSnapshotStmt, RollbackStmt])))"

text \<open>What a dump leaves: the bytes the destination accepted and the summary.\<close>

type_synonym dump_out = "string \<times> string"

definition dump_write :: "dconn \<Rightarrow> writer \<Rightarrow> Config \<Rightarrow> catalog \<Rightarrow> rowSet \<Rightarrow> dump_err option \<times> dump_out" where
  "dump_write cn wr cfg cat rows =
     (let summary = rowSet_summary rows in
      case writeHeader wr (cfg_Source cfg) newBufw of Inl (e, b) \<Rightarrow> (Some e, bw_out b, summary)
      | Inr b1 \<Rightarrow>
         (case writeData cn wr cat rows b1 of Inl (e, b) \<Rightarrow> (Some e, bw_out b, summary)
          | Inr b2 \<Rightarrow>
             (let b3 = bw_flush wr b2 in
              (map_option WriteFailed (bw_err b3), bw_out b3, summary))))"

definition dump_body :: "dconn \<Rightarrow> writer \<Rightarrow> Config \<Rightarrow> (dump_err option \<times> dump_out) option" where
  "dump_body cn wr cfg =
     (case loadCatalog (dc_tables cn) (dc_fks cn) (dc_seqs cn) of Inl e \<Rightarrow> Some (Some e, [], [])
      | Inr cat0 \<Rightarrow>
         (case applyTransforms (cfg_Transform cfg) cat0 of Inl e \<Rightarrow> Some (Some e, [], [])
          | Inr cat \<Rightarrow>
             (case walk (conn.truncate cn) cat cfg of None \<Rightarrow> None
              | Some (Inl e) \<Rightarrow> Some (Some e, [], [])
              | Some (Inr rows) \<Rightarrow> Some (dump_write cn wr cfg cat rows))))"

definition Dump :: "dconn \<Rightarrow> writer \<Rightarrow> Config \<Rightarrow> (dump_err option \<times> dump_out \<times> stmt list) option" where
  "Dump cn wr cfg = withSnapshot cn (dump_body cn wr cfg) ([], [])"

text \<open>The script a successful dump delivers, as text.\<close>

definition table_text :: "dconn \<Rightarrow> catalog \<Rightarrow> rowSet \<Rightarrow> string \<Rightarrow> string" where
  "table_text cn cat rows key =
     (let ctids = rowSet_sorted rows key in
      if ctids = [] then []
      else (case map_of (cat_Tables cat) key of None \<Rightarrow> []
        | Some t \<Rightarrow> copyHeader t @ nl @ (case copySQL t ctids of None \<Rightarrow> [] | Some sql \<Rightarrow> concat (fst (dc_copy cn sql)))
            @ CHR 0x5C # ''.'' @ nl @ nl))"

definition setval_text :: "catalog \<Rightarrow> rowSet \<Rightarrow> sequence \<Rightarrow> string" where
  "setval_text cat rows s =
     (if usedBy s rows then (case renderSetval s (cat_Tables cat) of Inl _ \<Rightarrow> [] | Inr line \<Rightarrow> line @ nl) else [])"

definition script_text :: "dconn \<Rightarrow> Config \<Rightarrow> catalog \<Rightarrow> rowSet \<Rightarrow> string" where
  "script_text cn cfg cat rows =
     header_text (cfg_Source cfg) @ concat (map (table_text cn cat rows) (cat_Keys cat))
     @ concat (map (setval_text cat rows) (cat_Sequences cat)) @ nl @ ''COMMIT;'' @ nl"

definition bw_all :: "bufw \<Rightarrow> string" where
  "bw_all b = bw_out b @ bw_buf b"

lemma bw_put_ok: "bw_put wr p b = Inr b' \<Longrightarrow> bw_all b' = bw_all b @ p"
  using bw_write_ok [of wr b p] by (auto simp: bw_put_def bw_all_def Let_def split: option.splits)

lemma foldM_text:
  assumes "foldM f s xs = Inr t" and "\<And>s x s'. f s x = Inr s' \<Longrightarrow> g s' = g s @ h x"
  shows "g t = g s @ concat (map h xs)"
  using assms(1)
proof (induction xs arbitrary: s)
  case (Cons x xs)
  then obtain s' where "f s x = Inr s'" "foldM f s' xs = Inr t" by (auto split: sum.splits)
  with Cons.IH assms(2) show ?case by fastforce
qed simp

lemma copyTo_ok: "copyTo cn wr sql b = Inr b' \<Longrightarrow> bw_all b' = bw_all b @ concat (fst (dc_copy cn sql))"
proof -
  assume a: "copyTo cn wr sql b = Inr b'"
  obtain parts fin where p: "dc_copy cn sql = (parts, fin)" by (cases "dc_copy cn sql")
  let ?f = "\<lambda>b c. let b' = bw_write wr b c in case bw_err b' of Some e \<Rightarrow> Inl (e, b') | None \<Rightarrow> Inr b'"
  have "foldM ?f b parts = Inr b'"
    using a by (auto simp: copyTo_def p split: sum.splits option.splits)
  then have "bw_all b' = bw_all b @ concat (map id parts)"
  proof (rule foldM_text)
    fix s x s'
    assume "?f s x = Inr s'"
    then show "bw_all s' = bw_all s @ id x"
      using bw_write_ok [of wr s x] by (auto simp: bw_all_def Let_def split: option.splits)
  qed
  then show ?thesis by (simp add: p)
qed

lemma write_table_ok:
  assumes "write_table cn wr cat rows b key = Inr b'"
  shows "bw_all b' = bw_all b @ table_text cn cat rows key"
proof (cases "rowSet_sorted rows key = []")
  case True
  with assms show ?thesis by (simp add: write_table_def table_text_def)
next
  case False
  with assms obtain t b1 sql b2 where "map_of (cat_Tables cat) key = Some t"
    "bw_put wr (copyHeader t @ nl) b = Inr b1" "copySQL t (rowSet_sorted rows key) = Some sql"
    "copyTo cn wr sql b1 = Inr b2" "bw_put wr (CHR 0x5C # ''.'' @ nl @ nl) b2 = Inr b'"
    by (auto simp: write_table_def Let_def split: option.splits sum.splits prod.splits)
  with False bw_put_ok copyTo_ok show ?thesis by (fastforce simp: table_text_def)
qed

lemma write_setval_ok:
  "write_setval wr cat rows b s = Inr b' \<Longrightarrow> bw_all b' = bw_all b @ setval_text cat rows s"
  using bw_put_ok by (fastforce simp: write_setval_def setval_text_def split: if_splits sum.splits)

lemma writeData_ok:
  assumes "writeData cn wr cat rows b = Inr b'"
  shows "bw_all b' = bw_all b @ concat (map (table_text cn cat rows) (cat_Keys cat))
    @ concat (map (setval_text cat rows) (cat_Sequences cat)) @ nl @ ''COMMIT;'' @ nl"
proof -
  from assms obtain b1 b2 where 1: "foldM (write_table cn wr cat rows) b (cat_Keys cat) = Inr b1"
    and 2: "foldM (write_setval wr cat rows) b1 (cat_Sequences cat) = Inr b2"
    and 3: "bw_put wr (nl @ ''COMMIT;'' @ nl) b2 = Inr b'"
    by (auto simp: writeData_def split: sum.splits)
  show ?thesis
    using foldM_text [OF 1, of bw_all, OF write_table_ok] foldM_text [OF 2, of bw_all, OF write_setval_ok]
      bw_put_ok [OF 3] by simp
qed

lemma dump_write_ok:
  assumes "dump_write cn wr cfg cat rows = (None, out, summary)"
  shows "out = script_text cn cfg cat rows"
proof -
  from assms obtain b1 b2 where 1: "writeHeader wr (cfg_Source cfg) newBufw = Inr b1"
    and 2: "writeData cn wr cat rows b1 = Inr b2" and e: "bw_err (bw_flush wr b2) = None"
    and out: "out = bw_out (bw_flush wr b2)"
    by (auto simp: dump_write_def Let_def split: sum.splits prod.splits)
  have "bw_all b1 = header_text (cfg_Source cfg)"
    using bw_put_ok [OF 1 [unfolded writeHeader_def]] by (simp add: bw_all_def newBufw_def)
  with writeData_ok [OF 2] bw_flush_ok [OF e] out show ?thesis
    by (simp add: bw_all_def script_text_def)
qed

lemma dump_body_ok:
  assumes "dump_body cn wr cfg = Some (None, out, summary)"
  shows "\<exists>cat0 cat rows. loadCatalog (dc_tables cn) (dc_fks cn) (dc_seqs cn) = Inr cat0 \<and>
    applyTransforms (cfg_Transform cfg) cat0 = Inr cat \<and> walk (conn.truncate cn) cat cfg = Some (Inr rows) \<and>
    out = script_text cn cfg cat rows"
  using assms by (auto simp: dump_body_def split: sum.splits option.splits dest: dump_write_ok)

subsection \<open>Writing does not panic\<close>

lemma bw_put_no_panic: "bw_put wr p b = Inl (e, b') \<Longrightarrow> \<not> panic e"
  by (auto simp: bw_put_def panic_def Let_def split: option.splits)

lemma write_table_no_panic:
  assumes "types_ok cat" and "known (cat_Tables cat) key" and "write_table cn wr cat rows b key = Inl (e, b')"
  shows "\<not> panic e"
proof -
  from assms(2) obtain t where t: "map_of (cat_Tables cat) key = Some t" by (auto simp: known_def)
  with assms(1) have "length (tbl_Columns t) \<le> length (tbl_Types t)" by (simp add: types_ok_def)
  then obtain sql where sql: "copySQL t (rowSet_sorted rows key) = Some sql"
    using selectList_total [of t] by (auto simp: copySQL_def)
  have "write_table cn wr cat rows b key = Inl (e, b') \<longrightarrow> \<not> panic e"
    by (auto simp: write_table_def Let_def t sql panic_def dest!: bw_put_no_panic split: sum.splits prod.splits)
  with assms(3) show ?thesis by simp
qed

lemma renderSetval_total:
  assumes "\<forall>u \<in> set (sq_Uses s). known tables (su_Table u)"
  shows "\<exists>line. renderSetval s tables = Inr line"
proof -
  have part: "\<exists>x. maxExpr_part tables u = Inr x" if "u \<in> set (sq_Uses s)" for u
    using assms that by (auto simp: maxExpr_part_def known_def split: option.splits)
  have "\<exists>m. maxExpr s tables = Inr m"
  proof (rule ccontr)
    assume "\<nexists>m. maxExpr s tables = Inr m"
    then obtain e where "foldM (\<lambda>parts u. case maxExpr_part tables u of Inl e \<Rightarrow> Inl e | Inr x \<Rightarrow> Inr (parts @ [x])) [''1''] (sq_Uses s) = Inl e"
      by (auto simp: maxExpr_def split: sum.splits)
    from foldM_error [OF this] obtain parts u where u: "u \<in> set (sq_Uses s)"
      and "(case maxExpr_part tables u of Inl e \<Rightarrow> Inl e | Inr x \<Rightarrow> Inr (parts @ [x])) = Inl e" by blast
    moreover from u obtain x where "maxExpr_part tables u = Inr x" using part by blast
    ultimately show False by simp
  qed
  then show ?thesis by (auto simp: renderSetval_def)
qed

lemma writeData_no_panic:
  assumes wf: "catalog_wf cat" and ty: "types_ok cat" and w: "writeData cn wr cat rows b = Inl (e, b')"
  shows "\<not> panic e"
proof -
  from w consider "foldM (write_table cn wr cat rows) b (cat_Keys cat) = Inl (e, b')"
    | b1 where "foldM (write_setval wr cat rows) b1 (cat_Sequences cat) = Inl (e, b')"
    | b2 where "bw_put wr (nl @ ''COMMIT;'' @ nl) b2 = Inl (e, b')"
    by (auto simp: writeData_def split: sum.splits)
  then show ?thesis
  proof cases
    case 1
    then obtain b1 key where "key \<in> set (cat_Keys cat)" "write_table cn wr cat rows b1 key = Inl (e, b')"
      by (blast dest: foldM_error)
    moreover from this wf have "known (cat_Tables cat) key"
      by (auto simp: catalog_wf_def known_iff gm_sorted_keys_def gm_keys_def)
    ultimately show ?thesis using write_table_no_panic [OF ty] by blast
  next
    case 2
    then obtain b2 s where s: "s \<in> set (cat_Sequences cat)" "write_setval wr cat rows b2 s = Inl (e, b')"
      by (blast dest: foldM_error)
    with wf obtain line where "renderSetval s (cat_Tables cat) = Inr line"
      using renderSetval_total by (fastforce simp: catalog_wf_def)
    with s(2) show ?thesis by (auto simp: write_setval_def split: if_splits dest: bw_put_no_panic)
  next
    case 3
    then show ?thesis by (rule bw_put_no_panic)
  qed
qed

lemma dump_write_no_panic:
  assumes "catalog_wf cat" and "types_ok cat" and "dump_write cn wr cfg cat rows = (Some e, out)"
  shows "\<not> panic e"
  using assms(3) writeData_no_panic [OF assms(1,2), of cn wr rows] bw_put_no_panic [of wr "header_text (cfg_Source cfg)"]
  by (auto simp: dump_write_def writeHeader_def Let_def panic_def split: sum.splits prod.splits)

lemma loadCatalog_no_panic: "loadCatalog tr fr sr = Inl e \<Longrightarrow> \<not> panic e"
  by (auto simp: loadCatalog_def panic_def split: sum.splits)

lemma applyTransforms_no_panic: "applyTransforms tr c = Inl e \<Longrightarrow> \<not> panic e"
  unfolding applyTransforms_def
  by (auto simp: transform_table_def transform_column_def panic_def Let_def
      dest!: foldM_error split: option.splits sum.splits if_splits)

text \<open>A dump of a catalog whose tables have a type for every column does not panic.\<close>

lemma Dump_no_panic:
  assumes ty: "\<And>c. loadCatalog (dc_tables cn) (dc_fks cn) (dc_seqs cn) = Inr c \<Longrightarrow> types_ok c"
    and d: "Dump cn wr cfg = Some (Some e, r)"
  shows "\<not> panic e"
proof (cases "dc_begin cn")
  case (Some x)
  with d show ?thesis by (auto simp: Dump_def withSnapshot_def panic_def)
next
  case None
  with d obtain out where b: "dump_body cn wr cfg = Some (Some e, out)"
    by (auto simp: Dump_def withSnapshot_def split: option.splits)
  show ?thesis
  proof (cases "loadCatalog (dc_tables cn) (dc_fks cn) (dc_seqs cn)")
    case (Inl x)
    with b show ?thesis by (auto simp: dump_body_def dest: loadCatalog_no_panic)
  next
    case 0: (Inr cat0)
    show ?thesis
    proof (cases "applyTransforms (cfg_Transform cfg) cat0")
      case (Inl x)
      with b 0 show ?thesis by (auto simp: dump_body_def dest: applyTransforms_no_panic)
    next
      case (Inr cat)
      from applyTransforms_wf [OF this loadCatalog_wf [OF 0] ty [OF 0]] have wf: "catalog_wf cat" "types_ok cat" by auto
      from b 0 Inr consider "walk (conn.truncate cn) cat cfg = Some (Inl e)" | rows where "dump_write cn wr cfg cat rows = (Some e, out)"
        by (auto simp: dump_body_def split: option.splits sum.splits)
      then show ?thesis
        by cases (rule walk_no_panic [OF wf(1)], assumption, rule dump_write_no_panic [OF wf], assumption)
    qed
  qed
qed

end
