(* ===== verification/Dump_Run.thy ===== *)
theory Dump_Run
  imports Dump_Output
begin

text \<open>
  \<open>Run\<close> of \<open>internal/pkg/dump/dump.go\<close>: the configuration is read, the database connected and the
  script written through a temporary file that is renamed onto the output when the dump has
  succeeded. Every call that may fail is a field of \<open>run_env\<close>; the file system is a map from
  paths to contents and modes.
\<close>

type_synonym filesystem = "string \<rightharpoonup> string \<times> nat"

text \<open>The modes \<open>0o600\<close> and \<open>0o644\<close>.\<close>

definition tempMode :: nat where
  "tempMode = 6 * 64"

definition scriptMode :: nat where
  "scriptMode = 6 * 64 + 4 * 8 + 4"

record run_env =
  re_open :: "string option"
  re_decode :: "string \<Rightarrow> yaml_result"
  re_connect :: "string \<Rightarrow> string + dconn"
  re_createTemp :: "string \<Rightarrow> string \<Rightarrow> string + string"
  re_stdout :: writer
  re_file :: writer
  re_close :: "string option"
  re_chmod :: "string option"
  re_rename :: "string option"
  re_removeOk :: bool

record Options =
  opt_URL :: string
  opt_Config :: string
  opt_Output :: string

datatype run_err =
    OpenFailed string
  | ConfigFailed cfg_error
  | ConnectFailed string
  | CreateTempFailed string
  | DumpFailed dump_err
  | CloseFailed string
  | ChmodFailed string
  | RenameFailed string

record run_state =
  rst_fs :: filesystem
  rst_stdout :: string
  rst_stderr :: string

definition remove_file :: "bool \<Rightarrow> string \<Rightarrow> run_state \<Rightarrow> run_state" where
  "remove_file ok p st = (if ok then st\<lparr>rst_fs := (rst_fs st)(p := None)\<rparr> else st)"

text \<open>The end of \<open>Run\<close>, from the open temporary file \<open>tmp\<close>.\<close>

definition run_file ::
    "run_env \<Rightarrow> Options \<Rightarrow> dconn \<Rightarrow> Config \<Rightarrow> string \<Rightarrow> run_state \<Rightarrow> (run_err option \<times> run_state) option" where
  "run_file env opts cn cfg tmp st =
     (case Dump cn (re_file env) cfg of None \<Rightarrow> None
      | Some (err, (out, summary), _) \<Rightarrow>
         (let st1 = st\<lparr>rst_fs := (rst_fs st)(tmp \<mapsto> (out, tempMode)), rst_stderr := rst_stderr st @ summary\<rparr>;
              removed = remove_file (re_removeOk env) tmp in
          case err of Some e \<Rightarrow> Some (Some (DumpFailed e), removed st1)
          | None \<Rightarrow>
            (case re_close env of Some e \<Rightarrow> Some (Some (CloseFailed e), removed st1)
             | None \<Rightarrow>
               (case re_chmod env of Some e \<Rightarrow> Some (Some (ChmodFailed e), removed st1)
                | None \<Rightarrow>
                  (let st2 = st1\<lparr>rst_fs := (rst_fs st1)(tmp \<mapsto> (out, scriptMode))\<rparr> in
                   case re_rename env of Some e \<Rightarrow> Some (Some (RenameFailed e), removed st2)
                   | None \<Rightarrow> Some (None, st2\<lparr>rst_fs := (rst_fs st2)(tmp := None, opt_Output opts \<mapsto> (out, scriptMode))\<rparr>))))))"

definition Run :: "run_env \<Rightarrow> Options \<Rightarrow> run_state \<Rightarrow> (run_err option \<times> run_state) option" where
  "Run env opts st =
     (case (re_open env, rst_fs st (opt_Config opts)) of
        (Some e, _) \<Rightarrow> Some (Some (OpenFailed e), st)
      | (None, None) \<Rightarrow> Some (Some (OpenFailed ''no such file or directory''), st)
      | (None, Some (text, _)) \<Rightarrow>
         (case ParseConfig (re_decode env) text of Inl e \<Rightarrow> Some (Some (ConfigFailed e), st)
          | Inr cfg0 \<Rightarrow>
             (let cfg = cfg0\<lparr>cfg_Source := opt_Config opts\<rparr> in
              case re_connect env (opt_URL opts) of Inl e \<Rightarrow> Some (Some (ConnectFailed e), st)
              | Inr cn \<Rightarrow>
                 (if opt_Output opts = [] then
                    (case Dump cn (re_stdout env) cfg of None \<Rightarrow> None
                     | Some (err, (out, summary), _) \<Rightarrow>
                        Some (map_option DumpFailed err,
                          st\<lparr>rst_stdout := rst_stdout st @ out, rst_stderr := rst_stderr st @ summary\<rparr>))
                  else
                    (case re_createTemp env (path_dir (opt_Output opts))
                            (''.'' @ path_base (opt_Output opts) @ ''.*.tmp'') of
                       Inl e \<Rightarrow> Some (Some (CreateTempFailed e), st)
                     | Inr tmp \<Rightarrow> run_file env opts cn cfg tmp (st\<lparr>rst_fs := (rst_fs st)(tmp \<mapsto> ([], tempMode))\<rparr>))))))"

text \<open>What \<open>os.CreateTemp\<close> promises: a file that did not exist, and, by the shape of the pattern,
  not the output itself.\<close>

definition fresh_temp :: "run_env \<Rightarrow> Options \<Rightarrow> filesystem \<Rightarrow> bool" where
  "fresh_temp env opts fs \<longleftrightarrow>
     (\<forall>dir pat tmp. re_createTemp env dir pat = Inr tmp \<longrightarrow> fs tmp = None \<and> tmp \<noteq> opt_Output opts)"

lemma run_file_cases:
  assumes "run_file env opts cn cfg tmp st = Some (r, st')"
  obtains e out mode summary where "r = Some e"
      "rst_fs st' = (if re_removeOk env then (rst_fs st)(tmp := None) else (rst_fs st)(tmp \<mapsto> (out, mode)))"
    | out summary tr where "r = None" "Dump cn (re_file env) cfg = Some (None, (out, summary), tr)"
      "rst_fs st' = (rst_fs st)(tmp := None, opt_Output opts \<mapsto> (out, scriptMode))"
proof -
  obtain err out summary tr where d: "Dump cn (re_file env) cfg = Some (err, (out, summary), tr)"
    using assms by (auto simp: run_file_def split: option.splits)
  show ?thesis
  proof (cases "err = None \<and> re_close env = None \<and> re_chmod env = None \<and> re_rename env = None")
    case True
    then show ?thesis using assms d that(2) by (auto simp: run_file_def fun_upd_twist)
  next
    case False
    then obtain e mode where "r = Some e"
      "rst_fs st' = (if re_removeOk env then (rst_fs st)(tmp := None) else (rst_fs st)(tmp \<mapsto> (out, mode)))"
      using assms d by (auto simp: run_file_def remove_file_def Let_def split: option.splits if_splits)
    then show ?thesis using that(1) by blast
  qed
qed

lemma Run_output:
  assumes r: "Run env opts st = Some (r, st')" and out: "opt_Output opts \<noteq> []"
    and fresh: "fresh_temp env opts (rst_fs st)"
  shows "(\<forall>e. r = Some e \<longrightarrow> rst_fs st' (opt_Output opts) = rst_fs st (opt_Output opts) \<and>
            (re_removeOk env \<longrightarrow> rst_fs st' = rst_fs st)) \<and>
    (r = None \<longrightarrow> (\<exists>cfg cn out summary tr. re_connect env (opt_URL opts) = Inr cn \<and>
        Dump cn (re_file env) cfg = Some (None, (out, summary), tr) \<and> cfg_Source cfg = opt_Config opts \<and>
        rst_fs st' = (rst_fs st)(opt_Output opts \<mapsto> (out, scriptMode)))) \<and>
    rst_stdout st' = rst_stdout st"
proof -
  have stdout: "rst_stdout st' = rst_stdout st" if "run_file env opts cn cfg tmp s = Some (r, st')"
    "rst_stdout s = rst_stdout st" for cn cfg tmp s
    using that by (auto simp: run_file_def remove_file_def Let_def split: option.splits if_splits)
  from r out consider e where "r = Some e" "st' = st"
    | cfg0 cn dir pat tmp where "re_connect env (opt_URL opts) = Inr cn" "re_createTemp env dir pat = Inr tmp"
      "run_file env opts cn (cfg0\<lparr>cfg_Source := opt_Config opts\<rparr>) tmp (st\<lparr>rst_fs := (rst_fs st)(tmp \<mapsto> ([], tempMode))\<rparr>) = Some (r, st')"
    by (auto simp: Run_def Let_def split: option.splits sum.splits)
  then show ?thesis
  proof cases
    case 1
    then show ?thesis by simp
  next
    case 2
    have tmp: "rst_fs st tmp = None" "tmp \<noteq> opt_Output opts" using fresh 2(2) by (auto simp: fresh_temp_def)
    then have un: "(rst_fs st)(tmp := None) = rst_fs st" by auto
    have st: "rst_stdout st' = rst_stdout st" by (rule stdout [OF 2(3)]) simp
    from 2(3) show ?thesis
    proof (rule run_file_cases)
      fix e out mode summary
      assume "r = Some e" "rst_fs st' = (if re_removeOk env
        then (rst_fs (st\<lparr>rst_fs := (rst_fs st)(tmp \<mapsto> ([], tempMode))\<rparr>))(tmp := None)
        else (rst_fs (st\<lparr>rst_fs := (rst_fs st)(tmp \<mapsto> ([], tempMode))\<rparr>))(tmp \<mapsto> (out, mode)))"
      then show ?thesis using tmp un st by simp
    next
      fix out summary tr
      assume "r = None" "Dump cn (re_file env) (cfg0\<lparr>cfg_Source := opt_Config opts\<rparr>) = Some (None, (out, summary), tr)"
        "rst_fs st' = (rst_fs (st\<lparr>rst_fs := (rst_fs st)(tmp \<mapsto> ([], tempMode))\<rparr>))(tmp := None, opt_Output opts \<mapsto> (out, scriptMode))"
      then show ?thesis using 2(1) un st by (auto intro!: exI [of _ "cfg0\<lparr>cfg_Source := opt_Config opts\<rparr>"])
    qed
  qed
qed

end
