(* ===== verification/Dump_Example.thy ===== *)
theory Dump_Example
  imports Dump_Run
begin

text \<open>
  A small database on which the dump's hypotheses hold and its functions evaluate: orders
  referencing users, users referencing countries, and audit rows attached to users.
\<close>

definition ex_table :: "string \<Rightarrow> table" where
  "ex_table n = \<lparr>tbl_Schema = ''public'', tbl_Name = n, tbl_Columns = [''id''], tbl_Types = [''bigint''],
     tbl_PK = [''id''], tbl_Transforms = []\<rparr>"

definition ex_fk :: "string \<Rightarrow> string \<Rightarrow> foreignKey" where
  "ex_fk c p = \<lparr>fk_Child = ''public.'' @ c, fk_Parent = ''public.'' @ p, fk_ChildCols = [''ref''], fk_ParentCols = [''id'']\<rparr>"

definition ex_cat :: catalog where
  "ex_cat = \<lparr>cat_Tables = map (\<lambda>n. (''public.'' @ n, ex_table n)) [''a'', ''c'', ''o'', ''u''],
     cat_Keys = [''public.a'', ''public.c'', ''public.o'', ''public.u''],
     cat_FKs = [ex_fk ''a'' ''u'', ex_fk ''o'' ''u'', ex_fk ''u'' ''c''],
     cat_Sequences = [\<lparr>sq_Name = ''public.u_id_seq'', sq_Uses = [\<lparr>su_Table = ''public.u'', su_Column = ''id''\<rparr>]\<rparr>]\<rparr>"

definition ex_seed :: Seed where
  "ex_seed = \<lparr>seed_Table = ''o'', seed_Where = [], seed_OrderBy = [], seed_Limit = Some 1, seed_Query = [],
     seed_ChildDepth = None, seed_ChildrenPerParent = None, seed_AllChildren = []\<rparr>"

definition ex_cfg :: Config where
  "ex_cfg = \<lparr>cfg_Seeds = [ex_seed], cfg_ChildrenPerParent = None, cfg_Exclude = [''log_*''],
     cfg_Attach = [\<lparr>ar_Table = ''a'', ar_To = ''u''\<rparr>], cfg_Transform = [], cfg_Source = ''dump.yaml''\<rparr>"

text \<open>The rows: one order, one user, one country, one audit row; a query over ctids answers with
  the row its text asks for.\<close>

definition ex_rel :: "string \<Rightarrow> string \<Rightarrow> string list" where
  "ex_rel q c =
     (if c = ''(0,1)'' \<and> q = parentSQL (ex_table ''u'') (ex_table ''o'') (ex_fk ''o'' ''u'') then [''(0,2)'']
      else if c = ''(0,2)'' \<and> q = parentSQL (ex_table ''c'') (ex_table ''u'') (ex_fk ''u'' ''c'') then [''(0,3)'']
      else if c = ''(0,2)'' \<and> q = childSQL (ex_table ''u'') (ex_table ''a'') (ex_fk ''a'' ''u'') 0 then [''(0,4)'']
      else [])"

definition ex_conn :: conn where
  "ex_conn = \<lparr>conn_query = (\<lambda>q args. if args = [] then Rows [Inr ''(0,1)''] None
       else Rows (map Inr (concat (map (ex_rel q) args))) None),
     conn_fields = (\<lambda>_. [TIDOID]), conn_typeName = (\<lambda>_. None)\<rparr>"

lemma collectRows_ok [simp]: "collectRows (map Inr xs) None = Inr xs"
proof -
  have "foldM (\<lambda>acc r. case r of Inl e \<Rightarrow> Inl (ReadFailed e) | Inr x \<Rightarrow> Inr (acc @ [x])) acc (map Inr xs) = Inr (acc @ xs)"
    for acc :: "string list"
    by (induction xs arbitrary: acc) auto
  then show ?thesis by (simp add: collectRows_def)
qed

lemma ex_answers: "answers ex_conn (\<lambda>q c. set (ex_rel q c))"
  by (auto simp: answers_def queryStrings_def ex_conn_def)

lemma ex_finite: "finite (Range (closure_edges cat cfg (\<lambda>q c. set (ex_rel q c))))"
proof -
  have "set (ex_rel q c) \<subseteq> {''(0,2)'', ''(0,3)'', ''(0,4)''}" for q c by (auto simp: ex_rel_def split: if_splits)
  then have "Range (closure_edges cat cfg (\<lambda>q c. set (ex_rel q c)))
      \<subseteq> (fk_Parent ` set (cat_FKs cat) \<union> fk_Child ` set (cat_FKs cat)) \<times> {''(0,2)'', ''(0,3)'', ''(0,4)''}"
    by (fastforce simp: closure_edges_def parent_edges_def child_edges_def)
  then show ?thesis by (rule finite_subset) simp
qed

definition ex_rows :: rowSet where
  "ex_rows = [(''public.o'', [''(0,1)'']), (''public.u'', [''(0,2)'']), (''public.a'', [''(0,4)'']), (''public.c'', [''(0,3)''])]"

lemma ex_walk: "walk ex_conn ex_cat ex_cfg = Some (Inr ex_rows)"
  by code_simp

end
