(* ===== verification/Props_Dump.thy ===== *)
theory Props_Dump
  imports Dump_Example
begin

text \<open>The properties of the dump, each with a concrete instance of its hypotheses.\<close>

subsection \<open>The selection\<close>

text \<open>
  Claim C1. A walk that succeeds returns exactly the rows reachable, along foreign keys to the
  referenced rows and along attach rules, from the rows its seeds selected: every referenced row is
  there (the script satisfies the foreign keys), and no row is there without a reason.
\<close>

theorem walk_reachable:
  assumes "answers cn rel" and "finite (Range (closure_edges cat cfg rel))"
    and "walk cn cat cfg = Some (Inr rows)"
  shows "\<exists>seeded. foldM (expandSeed cn cat cfg) [] (cfg_Seeds cfg) = Inr seeded \<and>
    pairs rows = (closure_edges cat cfg rel)\<^sup>* `` pairs seeded \<and>
    closure_edges cat cfg rel `` pairs rows \<subseteq> pairs rows"
proof -
  from assms(3) obtain seeded where s: "foldM (expandSeed cn cat cfg) [] (cfg_Seeds cfg) = Inr seeded"
    and c: "closeSelection cn cat cfg seeded = Some (Inr rows)"
    by (auto simp: walk_def split: option.splits sum.splits)
  from closeSelection_total [OF assms(1,2), of seeded] c
  have p: "pairs rows = (closure_edges cat cfg rel)\<^sup>* `` pairs seeded" by auto
  have "closure_edges cat cfg rel `` pairs rows \<subseteq> pairs rows"
    unfolding p by (auto intro: rtrancl_into_rtrancl)
  with s p show ?thesis by blast
qed

theorem walk_reachable_witness:
  "\<exists>seeded. foldM (expandSeed ex_conn ex_cat ex_cfg) [] (cfg_Seeds ex_cfg) = Inr seeded \<and>
    pairs ex_rows = (closure_edges ex_cat ex_cfg (\<lambda>q c. set (ex_rel q c)))\<^sup>* `` pairs seeded \<and>
    closure_edges ex_cat ex_cfg (\<lambda>q c. set (ex_rel q c)) `` pairs ex_rows \<subseteq> pairs ex_rows"
  by (rule walk_reachable [OF ex_answers ex_finite ex_walk])

text \<open>
  Claim C7. The walk always returns (rows or an error), whatever cycles the foreign keys form, as
  long as the tables have finitely many rows.
\<close>

theorem walk_terminates:
  assumes "answers cn rel" and "finite (Range (closure_edges cat cfg rel))"
  shows "\<exists>r. walk cn cat cfg = Some r"
proof -
  have "\<exists>r. closeSelection cn cat cfg rows = Some r" for rows
    using closeSelection_total [OF assms, of rows] by blast
  then show ?thesis unfolding walk_def by (auto split: option.splits sum.splits)
qed

text \<open>A table referencing itself, in a cycle of two rows.\<close>

definition loop_cat :: catalog where
  "loop_cat = \<lparr>cat_Tables = [(''public.n'', ex_table ''n'')], cat_Keys = [''public.n''],
     cat_FKs = [ex_fk ''n'' ''n''], cat_Sequences = []\<rparr>"

definition loop_rel :: "string \<Rightarrow> string \<Rightarrow> string set" where
  "loop_rel q c = (if c = ''(0,1)'' then {''(0,2)''} else if c = ''(0,2)'' then {''(0,1)''} else {})"

definition loop_conn :: conn where
  "loop_conn = \<lparr>conn_query = (\<lambda>q args. if args = [] then Rows [Inr ''(0,1)''] None
       else Rows (map Inr (concat (map (\<lambda>c. if c = ''(0,1)'' then [''(0,2)''] else if c = ''(0,2)'' then [''(0,1)''] else []) args))) None),
     conn_fields = (\<lambda>_. [TIDOID]), conn_typeName = (\<lambda>_. None)\<rparr>"

lemma loop_answers: "answers loop_conn loop_rel"
  unfolding answers_def by (auto simp: queryStrings_def loop_conn_def loop_rel_def split: if_splits)

lemma loop_finite: "finite (Range (closure_edges loop_cat cfg loop_rel))"
proof -
  have "Range (closure_edges loop_cat cfg loop_rel) \<subseteq> {''public.n''} \<times> {''(0,1)'', ''(0,2)''}"
    by (auto simp: closure_edges_def parent_edges_def child_edges_def loop_cat_def ex_fk_def loop_rel_def split: if_splits)
  then show ?thesis by (rule finite_subset) simp
qed

theorem walk_terminates_witness: "\<exists>r. walk loop_conn loop_cat ex_cfg = Some r"
  by (rule walk_terminates [OF loop_answers loop_finite])

text \<open>
  The first seed selects its rows and then, level by level, exactly the rows at most
  \<open>child_depth\<close> foreign keys below them, leaving excluded tables out and keeping at most the
  configured number of children per parent (the limit in the query).
\<close>

theorem first_seed_depth:
  assumes "answers cn rel" and "expandSeed cn cat cfg [] s = Inr rows"
  shows "\<exists>t ctids. map_of (cat_Tables cat) (Seed_key s) = Some t \<and> seedCtids cn (seedSQL t s) = Inr ctids \<and>
    pairs rows = {y. \<exists>k \<le> nat (childDepth s). \<exists>x \<in> {Seed_key s} \<times> set ctids.
      (x, y) \<in> expand_edges cat cfg s rel ^^ k}"
proof -
  from expandSeed_first [OF assms] obtain t ctids where
    "map_of (cat_Tables cat) (Seed_key s) = Some t" "seedCtids cn (seedSQL t s) = Inr ctids"
    "pairs rows = within (expand_edges cat cfg s rel) (nat (childDepth s)) ({Seed_key s} \<times> set ctids)" by blast
  then show ?thesis
    by (intro exI [of _ t] exI [of _ ctids]) (simp add: set_eq_iff within_iff)
qed

definition loop_seed :: Seed where
  "loop_seed = ex_seed\<lparr>seed_Table := ''n'', seed_ChildDepth := Some 1\<rparr>"

lemma loop_expand: "expandSeed loop_conn loop_cat ex_cfg [] loop_seed = Inr [(''public.n'', [''(0,1)'', ''(0,2)''])]"
  by code_simp

theorem first_seed_depth_witness:
  "\<exists>t ctids. map_of (cat_Tables loop_cat) (Seed_key loop_seed) = Some t \<and>
    seedCtids loop_conn (seedSQL t loop_seed) = Inr ctids \<and>
    pairs [(''public.n'', [''(0,1)'', ''(0,2)''])] = {y. \<exists>k \<le> nat (childDepth loop_seed).
      \<exists>x \<in> {Seed_key loop_seed} \<times> set ctids. (x, y) \<in> expand_edges loop_cat ex_cfg loop_seed loop_rel ^^ k}"
  by (rule first_seed_depth [OF loop_answers loop_expand])

text \<open>
  Expansion never enters an excluded table: before the closure, every selected row is of a
  seed's own table or of a known table that no exclude pattern matches.
\<close>

theorem excluded_not_expanded:
  assumes "foldM (expandSeed cn cat cfg) [] seeds = Inr rows" and "(t, c) \<in> pairs rows"
  shows "t \<in> Seed_key ` set seeds \<or> (known (cat_Tables cat) t \<and> \<not> excluded cfg t)"
  using expandSeeds_tables [OF assms(1)] assms(2) by (auto simp: reachable_tables_def)

lemma ex_seeds: "foldM (expandSeed ex_conn ex_cat ex_cfg) [] [ex_seed] = Inr [(''public.o'', [''(0,1)''])]"
  by code_simp

theorem excluded_not_expanded_witness:
  "''public.o'' \<in> Seed_key ` set [ex_seed] \<or> (known (cat_Tables ex_cat) ''public.o'' \<and> \<not> excluded ex_cfg ''public.o'')"
  by (rule excluded_not_expanded [OF ex_seeds, of _ "''(0,1)''"]) (simp add: pairs_def gm_get_def)

text \<open>
  On a loaded catalog the walk never dereferences a missing table: no run ends in the nil
  dereference that \<open>cat.Tables[...]\<close> could give.
\<close>

theorem walk_no_nil:
  assumes "loadCatalog tr fr sr = Inr cat"
  shows "walk cn cat cfg \<noteq> Some (Inl (NilTable k))"
  using walk_no_panic [OF loadCatalog_wf [OF assms]] by (force simp: panic_def)

subsection \<open>The configuration\<close>

text \<open>
  Claim C28. A configuration that \<open>ParseConfig\<close> accepts asks only well-defined questions later: no
  exclude or all_children pattern is malformed for any table key (so the errors \<open>matchAny\<close> ignores
  cannot occur), depths are not negative, and a child limit is at least one unless the table is
  listed in all_children, for which it is zero (no limit).
\<close>

theorem ParseConfig_guarantees:
  assumes "ParseConfig decode r = Inr cfg" and "s \<in> set (cfg_Seeds cfg)"
  shows "(\<forall>p \<in> set (cfg_Exclude cfg) \<union> set (seed_AllChildren s). pathMatch (qualify p) key \<noteq> None) \<and>
    0 \<le> childDepth s \<and>
    (if matchAny (seed_AllChildren s) key then childLimit cfg s key = 0 else 1 \<le> childLimit cfg s key) \<and>
    (\<forall>n. seed_Limit s = Some n \<longrightarrow> 1 \<le> n)"
proof -
  have v: "Config_validate cfg = None" using assms(1) by (simp add: ParseConfig_Inr)
  then have c: "\<forall>x. cfg_ChildrenPerParent cfg = Some x \<longrightarrow> 1 \<le> x" "\<forall>p \<in> set (cfg_Exclude cfg). pattern_ok (qualify p)"
    and s: "Seed_validate s = None" using assms(2) by (simp_all add: Config_validate_None)
  from s have sv: "\<forall>x. seed_Limit s = Some x \<longrightarrow> 1 \<le> x" "\<forall>x. seed_ChildDepth s = Some x \<longrightarrow> 0 \<le> x"
    "\<forall>x. seed_ChildrenPerParent s = Some x \<longrightarrow> 1 \<le> x" "\<forall>p \<in> set (seed_AllChildren s). pattern_ok (qualify p)"
    by (simp_all add: Seed_validate_None)
  have "1 \<le> childrenPerParent cfg s"
    using c(1) sv(3) by (auto simp: childrenPerParent_def defaultChildrenPerParent_def split: option.splits)
  then show ?thesis using c(2) sv
    by (auto simp: pathMatch_None_iff childDepth_def defaultChildDepth_def childLimit_def split: option.splits)
qed

lemma ex_parse: "ParseConfig (\<lambda>_. YamlOk ex_cfg) ''seeds: ...'' = Inr ex_cfg"
  by code_simp

theorem ParseConfig_guarantees_witness:
  "pathMatch (qualify ''log_*'') ''public.log_a'' \<noteq> None \<and> 0 \<le> childDepth ex_seed \<and>
    1 \<le> childLimit ex_cfg ex_seed ''public.log_a''"
proof -
  have "ex_seed \<in> set (cfg_Seeds ex_cfg)" "''log_*'' \<in> set (cfg_Exclude ex_cfg)" "\<not> matchAny (seed_AllChildren ex_seed) ''public.log_a''"
    by (simp_all add: ex_cfg_def ex_seed_def matchAny_def)
  with ParseConfig_guarantees [OF ex_parse, of ex_seed "''public.log_a''"] show ?thesis by auto
qed

subsection \<open>The catalog\<close>





text \<open>
  Applying the configured transforms changes no table, key, foreign key or sequence of the
  catalog: only the transforms of the tables they name.
\<close>

theorem applyTransforms_frame:
  assumes "applyTransforms tr c = Inr c'"
  shows "cat_Keys c' = cat_Keys c \<and> cat_FKs c' = cat_FKs c \<and> cat_Sequences c' = cat_Sequences c \<and>
    (\<forall>k. map_option (\<lambda>t. t\<lparr>tbl_Transforms := []\<rparr>) (map_of (cat_Tables c') k) =
         map_option (\<lambda>t. t\<lparr>tbl_Transforms := []\<rparr>) (map_of (cat_Tables c) k)) \<and>
    (\<forall>k t. map_of (cat_Tables c') k = Some t \<longrightarrow> k \<notin> qualify ` set (gm_keys tr) \<longrightarrow> map_of (cat_Tables c) k = Some t)"
proof -
  let ?P = "\<lambda>c'. (\<forall>k. map_option (\<lambda>t. t\<lparr>tbl_Transforms := []\<rparr>) (map_of (cat_Tables c') k) =
         map_option (\<lambda>t. t\<lparr>tbl_Transforms := []\<rparr>) (map_of (cat_Tables c) k)) \<and>
    (\<forall>k t. map_of (cat_Tables c') k = Some t \<longrightarrow> k \<notin> qualify ` set (gm_keys tr) \<longrightarrow> map_of (cat_Tables c) k = Some t)"
  have "?P c'"
    using assms unfolding applyTransforms_def
  proof (rule foldM_invariant)
    fix s x s'
    assume x: "x \<in> set (gm_sorted_keys tr)" and P: "?P s" and step: "transform_table tr s x = Inr s'"
    from step obtain t t' where t: "map_of (cat_Tables s) (qualify x) = Some t"
      "foldM (transform_column (qualify x) (gm_get [] x tr)) t (gm_sorted_keys (gm_get [] x tr)) = Inr t'"
      "s' = s\<lparr>cat_Tables := gm_set (qualify x) t' (cat_Tables s)\<rparr>"
      by (auto simp: transform_table_def Let_def split: option.splits sum.splits)
    from transform_columns [OF t(2)] have "t'\<lparr>tbl_Transforms := []\<rparr> = t\<lparr>tbl_Transforms := []\<rparr>" by auto
    moreover have m: "map_of (cat_Tables s') k = (if k = qualify x then Some t' else map_of (cat_Tables s) k)" for k
      by (simp add: t(3) gm_set_def update_conv)
    moreover have "qualify x \<in> qualify ` set (gm_keys tr)" using x by simp
    ultimately show "?P s'" using P t(1) by (metis (no_types, lifting) option.map(2))
  qed simp
  with children_applyTransforms [OF assms] show ?thesis by blast
qed

definition ex_tr :: "(string, (string, string) gomap) gomap" where
  "ex_tr = [(''u'', [(''id'', ''0'')])]"

lemma ex_apply: "\<exists>c'. applyTransforms ex_tr ex_cat = Inr c'"
proof -
  have "(case applyTransforms ex_tr ex_cat of Inl _ \<Rightarrow> False | Inr _ \<Rightarrow> True)" by code_simp
  then show ?thesis by (auto split: sum.splits)
qed

theorem applyTransforms_frame_witness:
  "\<exists>c'. applyTransforms ex_tr ex_cat = Inr c' \<and> cat_Keys c' = cat_Keys ex_cat \<and> cat_FKs c' = cat_FKs ex_cat"
proof -
  obtain c' where c': "applyTransforms ex_tr ex_cat = Inr c'" using ex_apply by blast
  from applyTransforms_frame [OF c'] show ?thesis using c' by blast
qed

end
