(* ===== verification/Props_Dump_Output.thy ===== *)
theory Props_Dump_Output
  imports Dump_Example
begin

text \<open>The properties of the SQL text, of the script and of the files a dump writes.\<close>

subsection \<open>Quoting\<close>

text \<open>
  Claim C27. Every identifier and every literal survives quoting: a reader of SQL gets back exactly the
  name or the text, whatever quotes it contains, and continues exactly after the token. No table,
  column or sequence name can inject SQL into the script.
\<close>

theorem quoting_reads_back:
  assumes "rest = [] \<or> (hd rest \<noteq> dq \<and> hd rest \<noteq> sq)"
  shows "hd (quoteIdent name) = dq \<and> scan_quoted dq (tl (quoteIdent name @ rest)) = Some (name, rest) \<and>
    hd (quoteLiteral name) = sq \<and> scan_quoted sq (tl (quoteLiteral name @ rest)) = Some (name, rest)"
  using assms ident.quote_reads_back [of rest name] lit.quote_reads_back [of rest name] by blast

theorem quoting_reads_back_witness:
  "hd (quoteIdent ''a'') = dq \<and> scan_quoted dq (tl (quoteIdent ''a'' @ '' FROM x'')) = Some (''a'', '' FROM x'') \<and>
    hd (quoteLiteral ''a'') = sq \<and> scan_quoted sq (tl (quoteLiteral ''a'' @ '' FROM x'')) = Some (''a'', '' FROM x'')"
  by (rule quoting_reads_back) (simp add: dq_def sq_def)

text \<open>
  The column list of a COPY header determines the columns: two tables whose lists read the
  same have the same columns in the same order.
\<close>

theorem columnList_injective: "columnList [] xs = columnList [] ys \<longleftrightarrow> xs = ys"
  using join_quoted_inject [of xs ys] by (auto simp: columnList_def)

subsection \<open>The buffered writer\<close>

text \<open>
  The buffered writer loses nothing silently: after any sequence of writes and a final flush
  that report no error, the destination has received exactly the bytes written, in order, however
  the buffer cut them and whatever the size of each write.
\<close>

theorem bufio_delivers:
  assumes "bw_err (bw_flush wr (foldl (bw_write wr) newBufw ps)) = None"
  shows "bw_out (bw_flush wr (foldl (bw_write wr) newBufw ps)) = concat ps"
proof -
  have gen: "bw_err b = None \<and> bw_all (foldl (bw_write wr) b qs) = bw_all b @ concat qs"
    if "bw_err (foldl (bw_write wr) b qs) = None" for b qs
    using that
  proof (induction qs arbitrary: b)
    case (Cons q qs)
    from Cons.IH [of "bw_write wr b q"] Cons.prems have
      "bw_err (bw_write wr b q) = None" "bw_all (foldl (bw_write wr) b (q # qs)) = bw_all (bw_write wr b q) @ concat qs"
      by auto
    with bw_write_ok [of wr b q] show ?case by (simp add: bw_all_def)
  qed simp
  let ?b = "foldl (bw_write wr) newBufw ps"
  from bw_flush_ok [OF assms] have "bw_err ?b = None" "bw_out (bw_flush wr ?b) = bw_all ?b"
    by (simp_all add: bw_all_def)
  with gen [of newBufw ps] show ?thesis by (simp add: bw_all_def newBufw_def)
qed

theorem bufio_delivers_witness:
  "bw_out (bw_flush (\<lambda>_ _. None) (foldl (bw_write (\<lambda>_ _. None)) newBufw [''COPY'', ''x''])) = concat [''COPY'', ''x'']"
  by (rule bufio_delivers) (simp add: bw_flush_def bw_write.simps newBufw_def bufSize_def)

subsection \<open>The script\<close>

text \<open>
  Claim C5. A dump that reports success delivered the complete script for the rows the walk selected:
  the header, one COPY block per table with selected rows in the order of the catalog's keys with
  exactly the data the server sent, a setval per used sequence, and the final COMMIT. It ran inside
  the snapshot transaction, which was rolled back.
\<close>

theorem Dump_complete:
  assumes "Dump cn wr cfg = Some (None, (out, summary), stmts)"
  shows "\<exists>cat0 cat rows. loadCatalog (dc_tables cn) (dc_fks cn) (dc_seqs cn) = Inr cat0 \<and>
    applyTransforms (cfg_Transform cfg) cat0 = Inr cat \<and> walk (conn.truncate cn) cat cfg = Some (Inr rows) \<and>
    out = header_text (cfg_Source cfg) @ concat (map (table_text cn cat rows) (cat_Keys cat))
      @ concat (map (setval_text cat rows) (cat_Sequences cat)) @ nl @ ''COMMIT;'' @ nl \<and>
    stmts = [BeginSnapshotStmt, RollbackStmt]"
proof -
  from assms have b: "dump_body cn wr cfg = Some (None, out, summary)" and s: "stmts = [BeginSnapshotStmt, RollbackStmt]"
    by (auto simp: Dump_def withSnapshot_def split: option.splits)
  from dump_body_ok [OF b] s show ?thesis unfolding script_text_def by blast
qed

definition ex_dconn :: dconn where
  "ex_dconn = \<lparr>conn_query = (\<lambda>q args. if args = [] then Rows [Inr ''(0,1)''] None else Rows [] None),
     conn_fields = (\<lambda>_. [TIDOID]), conn_typeName = (\<lambda>_. None), dc_begin = None,
     dc_tables = Rows [Inr (''public'', ''o'', [''id''], [''bigint''], [''id''])] None, dc_fks = Rows [] None, dc_seqs = Rows [] None,
     dc_copy = (\<lambda>_. ([''7'' @ nl], None))\<rparr>"

definition ex_cfg1 :: Config where
  "ex_cfg1 = ex_cfg\<lparr>cfg_Attach := [], cfg_Exclude := []\<rparr>"

definition dumped :: "(dump_err option \<times> dump_out \<times> stmt list) option \<Rightarrow> bool" where
  "dumped r = (case r of Some (None, _) \<Rightarrow> True | _ \<Rightarrow> False)"

lemma ex_dumped: "dumped (Dump ex_dconn (\<lambda>_ _. None) ex_cfg1)"
  by code_simp

theorem Dump_complete_witness:
  "\<exists>out summary stmts. Dump ex_dconn (\<lambda>_ _. None) ex_cfg1 = Some (None, (out, summary), stmts) \<and>
    stmts = [BeginSnapshotStmt, RollbackStmt]"
proof -
  from ex_dumped obtain out summary stmts where d: "Dump ex_dconn (\<lambda>_ _. None) ex_cfg1 = Some (None, (out, summary), stmts)"
    by (auto simp: dumped_def split: option.splits prod.splits)
  with Dump_complete [OF d] show ?thesis by blast
qed

subsection \<open>The output file\<close>

text \<open>
  Claim C3. \<open>Run\<close> with an output path never damages it: when it fails, at any step, the output is what
  it was before and the temporary file is gone (if it could be removed); when it succeeds, the only
  change to the file system is that the output holds the script of a dump that succeeded, with mode
  0644. Standard output is not written in either case.
\<close>

theorem Run_atomic:
  assumes "Run env opts st = Some (r, st')" and "opt_Output opts \<noteq> []"
    and "fresh_temp env opts (rst_fs st)"
  shows "(\<forall>e. r = Some e \<longrightarrow> rst_fs st' (opt_Output opts) = rst_fs st (opt_Output opts) \<and>
            (re_removeOk env \<longrightarrow> rst_fs st' = rst_fs st)) \<and>
    (r = None \<longrightarrow> (\<exists>cfg cn out summary tr. re_connect env (opt_URL opts) = Inr cn \<and>
        Dump cn (re_file env) cfg = Some (None, (out, summary), tr) \<and> cfg_Source cfg = opt_Config opts \<and>
        rst_fs st' = (rst_fs st)(opt_Output opts \<mapsto> (out, scriptMode)))) \<and>
    rst_stdout st' = rst_stdout st"
  by (rule Run_output [OF assms])

definition ex_env :: run_env where
  "ex_env = \<lparr>re_open = None, re_decode = (\<lambda>_. YamlOk ex_cfg1), re_connect = (\<lambda>_. Inr ex_dconn),
     re_createTemp = (\<lambda>_ _. Inr ''out/.seed.sql.1.tmp''), re_stdout = (\<lambda>_ _. None), re_file = (\<lambda>_ _. None),
     re_close = None, re_chmod = Some ''operation not permitted'', re_rename = None, re_removeOk = True\<rparr>"

definition ex_opts :: Options where
  "ex_opts = \<lparr>opt_URL = ''postgres://'', opt_Config = ''dump.yaml'', opt_Output = ''out/seed.sql''\<rparr>"

definition ex_state :: run_state where
  "ex_state = \<lparr>rst_fs = [''dump.yaml'' \<mapsto> (''seeds:'', scriptMode), ''out/seed.sql'' \<mapsto> (''old'', scriptMode)],
     rst_stdout = [], rst_stderr = []\<rparr>"

definition run_failed :: "(run_err option \<times> run_state) option \<Rightarrow> bool" where
  "run_failed r = (case r of Some (Some (ChmodFailed _), _) \<Rightarrow> True | _ \<Rightarrow> False)"

lemma ex_run: "run_failed (Run ex_env ex_opts ex_state)"
  by code_simp

theorem Run_atomic_witness:
  "\<exists>e st'. Run ex_env ex_opts ex_state = Some (Some e, st') \<and> rst_fs st' = rst_fs ex_state"
proof -
  from ex_run obtain e st' where d: "Run ex_env ex_opts ex_state = Some (Some e, st')"
    by (auto simp: run_failed_def split: option.splits prod.splits)
  have "opt_Output ex_opts \<noteq> []" "fresh_temp ex_env ex_opts (rst_fs ex_state)" "re_removeOk ex_env"
    by (simp_all add: ex_opts_def fresh_temp_def ex_env_def ex_state_def)
  with Run_atomic [OF d] d show ?thesis by blast
qed

end
