(* ===== verification/Go_Errors.thy ===== *)
theory Go_Errors
  imports Go_Strings
begin

text \<open>
  Errors as values: sentinels (compared by identity, that is by the package and text they are
  declared with) and errors that wrap another with a message,
  as \<open>fmt.Errorf("...: %w", err)\<close> and \<open>eris.Wrap\<close> build them; \<open>errors.Is\<close> and \<open>Error()\<close> follow the
  chain. A nil error is \<open>None\<close>, and \<open>eris.Wrap(nil, msg)\<close> is nil.
\<close>

datatype go_error =
    Sentinel string string
  | Opaque string
  | Wrap string go_error
  | DomainError int string

fun error_text :: "go_error \<Rightarrow> string" where
  "error_text (Sentinel pkg s) = s"
| "error_text (Opaque s) = s"
| "error_text (Wrap msg e) = msg @ '': '' @ error_text e"
| "error_text (DomainError code msg) = msg"

fun errors_is :: "go_error \<Rightarrow> go_error \<Rightarrow> bool" where
  "errors_is (Wrap msg e) target = (Wrap msg e = target \<or> errors_is e target)"
| "errors_is e target = (e = target)"

text \<open>\<open>errors.AsType[*platform.DomainError]\<close>: the first domain error of the chain.\<close>

fun as_domain_error :: "go_error \<Rightarrow> (int \<times> string) option" where
  "as_domain_error (DomainError code msg) = Some (code, msg)"
| "as_domain_error (Wrap msg e) = as_domain_error e"
| "as_domain_error _ = None"

definition eris_wrap :: "go_error option \<Rightarrow> string \<Rightarrow> go_error option" where
  "eris_wrap e msg = map_option (Wrap msg) e"

lemma eris_wrap_None [simp]: "eris_wrap e msg = None \<longleftrightarrow> e = None"
  by (simp add: eris_wrap_def)

lemma errors_is_Wrap [simp]: "errors_is (Wrap msg e) (Sentinel pkg s) = errors_is e (Sentinel pkg s)"
  by simp

text \<open>An error chain ends in at most one sentinel.\<close>

lemma errors_is_unique:
  "errors_is e (Sentinel p a) \<Longrightarrow> errors_is e (Sentinel q b) \<Longrightarrow> Sentinel p a = Sentinel q b"
  by (induction e) auto

end
