(* ===== verification/Unit_Of_Work.thy ===== *)
theory Unit_Of_Work
  imports Go_Errors
begin

text \<open>
  \<open>pkg/platform/pg/uow/uow.go\<close> and \<open>pkg/platform/authctx\<close>. A store is the committed database and the
  stack of the open transaction's versions, innermost first: \<open>Begin\<close> on the pool pushes a version
  of the committed database, \<open>Begin\<close> on a transaction a savepoint, \<open>Commit\<close> and \<open>Rollback\<close> pop. A
  context carries the authenticated user and the transaction (its depth), if any. The deferred
  \<open>Rollback\<close> of a transaction already committed does nothing in pgx.
\<close>

subsection \<open>Contexts and executors\<close>

type_synonym uuid = string

record ctx =
  ctx_user :: "uuid option"
  ctx_tx :: "nat option"

definition ErrUnauthenticated :: go_error where
  "ErrUnauthenticated = Sentinel ''authctx'' ''unauthenticated''"

definition WithUserID :: "uuid \<Rightarrow> ctx \<Rightarrow> ctx" where
  "WithUserID u c = c\<lparr>ctx_user := Some u\<rparr>"

definition UserIDFromContext :: "ctx \<Rightarrow> go_error + uuid" where
  "UserIDFromContext c = (case ctx_user c of None \<Rightarrow> Inl ErrUnauthenticated | Some u \<Rightarrow> Inr u)"

record 'd store =
  st_committed :: 'd
  st_txs :: "'d list"

datatype executor = OnPool | OnTx nat

definition getExecutor :: "ctx \<Rightarrow> executor" where
  "getExecutor c = (case ctx_tx c of Some n \<Rightarrow> OnTx n | None \<Rightarrow> OnPool)"

text \<open>A statement on the pool commits at once; one on a transaction works on its current version
  (a context only ever carries an open transaction).\<close>

definition exec_read :: "executor \<Rightarrow> 'd store \<Rightarrow> 'd" where
  "exec_read ex st = (case ex of OnPool \<Rightarrow> st_committed st
     | OnTx _ \<Rightarrow> (case st_txs st of [] \<Rightarrow> st_committed st | d # _ \<Rightarrow> d))"

definition exec_write :: "executor \<Rightarrow> ('d \<Rightarrow> 'd) \<Rightarrow> 'd store \<Rightarrow> 'd store" where
  "exec_write ex f st = (case ex of OnPool \<Rightarrow> st\<lparr>st_committed := f (st_committed st)\<rparr>
     | OnTx _ \<Rightarrow> (case st_txs st of [] \<Rightarrow> st\<lparr>st_committed := f (st_committed st)\<rparr>
                 | d # ds \<Rightarrow> st\<lparr>st_txs := f d # ds\<rparr>))"

lemma exec_read_write [simp]: "exec_read ex (exec_write ex f st) = f (exec_read ex st)"
  by (simp add: exec_read_def exec_write_def split: executor.splits list.splits)

subsection \<open>Transactions\<close>

definition begin_root :: "'d store \<Rightarrow> 'd store" where
  "begin_root st = st\<lparr>st_txs := st_committed st # st_txs st\<rparr>"

definition begin_nested :: "'d store \<Rightarrow> 'd store" where
  "begin_nested st = (case st_txs st of [] \<Rightarrow> st | d # ds \<Rightarrow> st\<lparr>st_txs := d # d # ds\<rparr>)"

definition rollback :: "'d store \<Rightarrow> 'd store" where
  "rollback st = st\<lparr>st_txs := tl (st_txs st)\<rparr>"

definition commit_root :: "'d store \<Rightarrow> 'd store" where
  "commit_root st = (case st_txs st of [] \<Rightarrow> st | d # ds \<Rightarrow> st\<lparr>st_committed := d, st_txs := ds\<rparr>)"

definition release_nested :: "'d store \<Rightarrow> 'd store" where
  "release_nested st = (case st_txs st of d # _ # ds \<Rightarrow> st\<lparr>st_txs := d # ds\<rparr> | _ \<Rightarrow> st)"

record tx_faults =
  tf_begin :: "string option"
  tf_commit :: "string option"

type_synonym 'd body = "ctx \<Rightarrow> 'd store \<Rightarrow> go_error option \<times> 'd store"

definition WithTransaction :: "tx_faults \<Rightarrow> ctx \<Rightarrow> 'd body \<Rightarrow> 'd store \<Rightarrow> go_error option \<times> 'd store" where
  "WithTransaction flt c fn st =
     (case ctx_tx c of
        Some n \<Rightarrow>
          (case tf_begin flt of
             Some e \<Rightarrow> (Some (Wrap ''cannot start nested transaction (savepoint)'' (Opaque e)), st)
           | None \<Rightarrow>
              (case fn (c\<lparr>ctx_tx := Some (Suc n)\<rparr>) (begin_nested st) of
                 (Some e, st') \<Rightarrow> (Some e, rollback st')
               | (None, st') \<Rightarrow>
                  (case tf_commit flt of
                     Some e \<Rightarrow> (Some (Wrap ''cannot release savepoint'' (Opaque e)), rollback st')
                   | None \<Rightarrow> (None, release_nested st'))))
      | None \<Rightarrow>
          (case tf_begin flt of
             Some e \<Rightarrow> (Some (Wrap ''cannot start root transaction'' (Opaque e)), st)
           | None \<Rightarrow>
              (case fn (c\<lparr>ctx_tx := Some 0\<rparr>) (begin_root st) of
                 (Some e, st') \<Rightarrow> (Some e, rollback st')
               | (None, st') \<Rightarrow>
                  (case tf_commit flt of
                     Some e \<Rightarrow> (Some (Wrap ''cannot commit root transaction'' (Opaque e)), rollback st')
                   | None \<Rightarrow> (None, commit_root st')))))"

subsection \<open>The contract of a transaction body\<close>

text \<open>A body that runs its statements on the executor of its context only touches the current
  version of the transaction.\<close>

definition in_tx :: "ctx \<Rightarrow> 'd store \<Rightarrow> bool" where
  "in_tx c st \<longleftrightarrow> ctx_tx c \<noteq> None \<and> st_txs st \<noteq> []"

definition confined :: "'d store \<Rightarrow> 'd store \<Rightarrow> bool" where
  "confined st st' \<longleftrightarrow> st_committed st' = st_committed st \<and> st_txs st' \<noteq> [] \<and> tl (st_txs st') = tl (st_txs st)"

lemma confined_refl: "st_txs st \<noteq> [] \<Longrightarrow> confined st st"
  by (simp add: confined_def)

lemma confined_trans: "confined a b \<Longrightarrow> confined b c \<Longrightarrow> confined a c"
  by (simp add: confined_def)

lemma exec_write_confined: "in_tx c st \<Longrightarrow> confined st (exec_write (getExecutor c) f st)"
  by (auto simp: in_tx_def confined_def exec_write_def getExecutor_def split: option.splits list.splits)

locale tx_body =
  fixes fn :: "'d body"
  assumes body_confined: "in_tx c st \<Longrightarrow> confined st (snd (fn c st))"
begin

lemma nested:
  assumes "in_tx c st"
  shows "WithTransaction flt c fn st = (Some e, st') \<Longrightarrow> st' = st"
    and "WithTransaction flt c fn st = (None, st') \<Longrightarrow>
      confined st st' \<and> (\<exists>n. ctx_tx c = Some n \<and>
        (\<exists>st1. fn (c\<lparr>ctx_tx := Some (Suc n)\<rparr>) (begin_nested st) = (None, st1) \<and> hd (st_txs st') = hd (st_txs st1)))"
proof -
  obtain n d ds where n: "ctx_tx c = Some n" "st_txs st = d # ds"
    using assms by (cases "st_txs st") (auto simp: in_tx_def)
  let ?c = "c\<lparr>ctx_tx := Some (Suc n)\<rparr>" and ?st = "begin_nested st"
  have b: "st_txs ?st = d # d # ds" "st_committed ?st = st_committed st"
    using n(2) by (simp_all add: begin_nested_def)
  have conf: "confined ?st (snd (fn ?c ?st))" by (rule body_confined) (simp add: in_tx_def b)
  then obtain d' where d': "st_txs (snd (fn ?c ?st)) = d' # d # ds" "st_committed (snd (fn ?c ?st)) = st_committed st"
    using b by (cases "st_txs (snd (fn ?c ?st))") (auto simp: confined_def)
  have undo: "rollback (snd (fn ?c ?st)) = st" using d' n(2) by (simp add: rollback_def)
  show "WithTransaction flt c fn st = (Some e, st') \<Longrightarrow> st' = st"
    using n undo by (auto simp: WithTransaction_def split: option.splits prod.splits)
  assume "WithTransaction flt c fn st = (None, st')"
  then have f: "fst (fn ?c ?st) = None" and st': "st' = release_nested (snd (fn ?c ?st))"
    using n by (auto simp: WithTransaction_def split: option.splits prod.splits)
  have "confined st st'" "hd (st_txs st') = d'" using st' d' n(2) by (simp_all add: release_nested_def confined_def)
  moreover have "fn ?c ?st = (None, snd (fn ?c ?st))" using f by (metis prod.collapse)
  ultimately show "confined st st' \<and> (\<exists>n. ctx_tx c = Some n \<and>
      (\<exists>st1. fn (c\<lparr>ctx_tx := Some (Suc n)\<rparr>) (begin_nested st) = (None, st1) \<and> hd (st_txs st') = hd (st_txs st1)))"
    using n(1) d'(1) by (intro conjI exI [of _ n] exI [of _ "snd (fn ?c ?st)"]) simp_all
qed

lemma root:
  assumes "ctx_tx c = None"
  shows "WithTransaction flt c fn st = (Some e, st') \<Longrightarrow> st' = st"
    and "WithTransaction flt c fn st = (None, st') \<Longrightarrow>
      \<exists>st1. fn (c\<lparr>ctx_tx := Some 0\<rparr>) (begin_root st) = (None, st1) \<and>
        st' = \<lparr>st_committed = hd (st_txs st1), st_txs = st_txs st\<rparr>"
proof -
  let ?c = "c\<lparr>ctx_tx := Some 0\<rparr>" and ?st = "begin_root st"
  have b: "st_txs ?st = st_committed st # st_txs st" "st_committed ?st = st_committed st"
    by (simp_all add: begin_root_def)
  have conf: "confined ?st (snd (fn ?c ?st))" by (rule body_confined) (simp add: in_tx_def b)
  then obtain d' where d': "st_txs (snd (fn ?c ?st)) = d' # st_txs st" "st_committed (snd (fn ?c ?st)) = st_committed st"
    using b by (cases "st_txs (snd (fn ?c ?st))") (auto simp: confined_def)
  have undo: "rollback (snd (fn ?c ?st)) = st" using d' by (simp add: rollback_def)
  show "WithTransaction flt c fn st = (Some e, st') \<Longrightarrow> st' = st"
    using assms undo by (auto simp: WithTransaction_def split: option.splits prod.splits)
  assume "WithTransaction flt c fn st = (None, st')"
  then have f: "fst (fn ?c ?st) = None" and st': "st' = commit_root (snd (fn ?c ?st))"
    using assms by (auto simp: WithTransaction_def split: option.splits prod.splits)
  have "fn ?c ?st = (None, snd (fn ?c ?st))" using f by (metis prod.collapse)
  moreover have "st' = \<lparr>st_committed = hd (st_txs (snd (fn ?c ?st))), st_txs = st_txs st\<rparr>"
    using st' d' by (simp add: commit_root_def)
  ultimately show "\<exists>st1. fn (c\<lparr>ctx_tx := Some 0\<rparr>) (begin_root st) = (None, st1) \<and>
      st' = \<lparr>st_committed = hd (st_txs st1), st_txs = st_txs st\<rparr>" by blast
qed

text \<open>A unit of work around a body is a body again: transactions nest to any depth.\<close>

lemma with_transaction_body: "tx_body (\<lambda>c. WithTransaction flt c fn)"
proof unfold_locales
  fix c :: ctx and st :: "'d store"
  assume tx: "in_tx c st"
  obtain r st' where w: "WithTransaction flt c fn st = (r, st')" by (cases "WithTransaction flt c fn st")
  show "confined st (snd (WithTransaction flt c fn st))"
  proof (cases r)
    case None
    then show ?thesis using nested(2) [OF tx] w by simp
  next
    case (Some e)
    then have "st' = st" using nested(1) [OF tx] w by simp
    then show ?thesis using w tx by (simp add: confined_refl in_tx_def)
  qed
qed

end

end
