(* ===== verification/Slice_Domain.thy ===== *)
theory Slice_Domain
  imports Unit_Of_Work
begin

text \<open>
  The domain of a generated slice (\<open>_templates/slice/.../internal/domain\<close> and the module's
  \<open>internal/domain/event.go\<close>): identifiers, labels, the aggregate with its pending events, its
  memento, and the message of a gateway slice. The template's \<open>[[.Entity]]\<close> is the parameter
  \<open>entity\<close>; time is the number the clock gives.
\<close>

type_synonym time = nat

subsection \<open>Errors\<close>

definition ErrInvalidID :: "string \<Rightarrow> go_error" where
  "ErrInvalidID entity = Sentinel entity (''invalid '' @ entity @ '' ID'')"

definition ErrNotFound :: "string \<Rightarrow> go_error" where
  "ErrNotFound entity = Sentinel entity (entity @ '' not found'')"

definition ErrInvalidLabel :: "string \<Rightarrow> go_error" where
  "ErrInvalidLabel entity = Sentinel entity ''label must be between 1 and 200 characters''"

definition ErrGatewayUnavailable :: "string \<Rightarrow> go_error" where
  "ErrGatewayUnavailable entity = Sentinel entity (entity @ '' gateway unavailable'')"

subsection \<open>Value objects\<close>

definition ParseID :: "string \<Rightarrow> int \<Rightarrow> go_error + int" where
  "ParseID entity i = (if i \<le> 0 then Inl (ErrInvalidID entity) else Inr i)"

definition ID_String :: "int \<Rightarrow> string" where
  "ID_String i = itoa i"

record Label =
  lbl_value :: string

definition LabelMaxLen :: nat where
  "LabelMaxLen = 200"

definition NewLabel :: "string \<Rightarrow> string \<Rightarrow> go_error + Label" where
  "NewLabel entity s = (if s = [] \<or> LabelMaxLen < runeCount s then Inl (ErrInvalidLabel entity) else Inr \<lparr>lbl_value = s\<rparr>)"

definition ReconstituteLabel :: "string \<Rightarrow> Label" where
  "ReconstituteLabel s = \<lparr>lbl_value = s\<rparr>"

subsection \<open>Events\<close>

record BaseEvent =
  be_AggregateID :: string
  be_UserID :: uuid
  be_OccurredAt :: time

datatype event = Deleted BaseEvent string | Sent BaseEvent string

definition EventTypeDeleted :: "string \<Rightarrow> string" where
  [simp]: "EventTypeDeleted entity = entity @ ''.deleted''"

definition EventTypeSent :: "string \<Rightarrow> string" where
  [simp]: "EventTypeSent entity = entity @ ''.sent''"

fun EventType :: "string \<Rightarrow> event \<Rightarrow> string" where
  "EventType entity (Deleted _ _) = EventTypeDeleted entity"
| "EventType entity (Sent _ _) = EventTypeSent entity"

fun event_base :: "event \<Rightarrow> BaseEvent" where
  "event_base (Deleted b _) = b"
| "event_base (Sent b _) = b"

definition GetAggregateID :: "event \<Rightarrow> string" where
  "GetAggregateID e = be_AggregateID (event_base e)"

definition GetUserID :: "event \<Rightarrow> uuid" where
  "GetUserID e = be_UserID (event_base e)"

definition GetOccurredAt :: "event \<Rightarrow> time" where
  "GetOccurredAt e = be_OccurredAt (event_base e)"

subsection \<open>The aggregate\<close>

record aggregate =
  ag_id :: int
  ag_label :: Label
  ag_createdAt :: time
  ag_updatedAt :: time
  ag_events :: "event list"

record Snapshot =
  sn_ID :: int
  sn_Label :: string
  sn_CreatedAt :: time
  sn_UpdatedAt :: time

definition newDeletedEvent :: "time \<Rightarrow> uuid \<Rightarrow> aggregate \<Rightarrow> event" where
  "newDeletedEvent now userID a =
     Deleted \<lparr>be_AggregateID = ID_String (ag_id a), be_UserID = userID, be_OccurredAt = now\<rparr> (lbl_value (ag_label a))"

definition addEvent :: "event \<Rightarrow> aggregate \<Rightarrow> aggregate" where
  "addEvent e a = a\<lparr>ag_events := ag_events a @ [e]\<rparr>"

definition Delete :: "time \<Rightarrow> uuid \<Rightarrow> aggregate \<Rightarrow> aggregate" where
  "Delete now userID a = addEvent (newDeletedEvent now userID a) a"

definition ClearEvents :: "aggregate \<Rightarrow> aggregate" where
  "ClearEvents a = a\<lparr>ag_events := []\<rparr>"

definition toSnapshot :: "aggregate \<Rightarrow> Snapshot" where
  "toSnapshot a = \<lparr>sn_ID = ag_id a, sn_Label = lbl_value (ag_label a), sn_CreatedAt = ag_createdAt a,
     sn_UpdatedAt = ag_updatedAt a\<rparr>"

definition Reconstitute :: "Snapshot \<Rightarrow> aggregate" where
  "Reconstitute s = \<lparr>ag_id = sn_ID s, ag_label = ReconstituteLabel (sn_Label s), ag_createdAt = sn_CreatedAt s,
     ag_updatedAt = sn_UpdatedAt s, ag_events = []\<rparr>"

subsection \<open>The message of a gateway slice\<close>

record gmessage =
  gm_label :: Label
  gm_events :: "event list"

definition NewMessage :: "Label \<Rightarrow> gmessage" where
  "NewMessage l = \<lparr>gm_label = l, gm_events = []\<rparr>"

definition ClearEvents_message :: "gmessage \<Rightarrow> gmessage" where
  "ClearEvents_message a = a\<lparr>gm_events := []\<rparr>"

definition newSentEvent :: "time \<Rightarrow> uuid \<Rightarrow> gmessage \<Rightarrow> event" where
  "newSentEvent now userID a =
     Sent \<lparr>be_AggregateID = lbl_value (gm_label a), be_UserID = userID, be_OccurredAt = now\<rparr> (lbl_value (gm_label a))"

definition MarkSent :: "time \<Rightarrow> uuid \<Rightarrow> gmessage \<Rightarrow> gmessage" where
  "MarkSent now userID a = a\<lparr>gm_events := gm_events a @ [newSentEvent now userID a]\<rparr>"

subsection \<open>Facts\<close>

lemma ParseID_Inr: "ParseID entity i = Inr j \<longleftrightarrow> j = i \<and> 0 < i"
  by (auto simp: ParseID_def)

lemma NewLabel_Inr: "NewLabel entity s = Inr l \<longleftrightarrow> l = \<lparr>lbl_value = s\<rparr> \<and> s \<noteq> [] \<and> runeCount s \<le> LabelMaxLen"
  by (auto simp: NewLabel_def)

lemma snapshot_roundtrip: "toSnapshot (Reconstitute s) = s"
  by (simp add: toSnapshot_def Reconstitute_def ReconstituteLabel_def)

lemma reconstitute_roundtrip: "Reconstitute (toSnapshot a) = ClearEvents a"
  by (simp add: toSnapshot_def Reconstitute_def ReconstituteLabel_def ClearEvents_def)

text \<open>The sentinels of a slice are different errors.\<close>

lemma sentinels_distinct:
  "ErrNotFound entity \<noteq> ErrInvalidID entity'" "ErrNotFound entity \<noteq> ErrInvalidLabel entity'"
  "ErrInvalidID entity \<noteq> ErrInvalidLabel entity'" "ErrGatewayUnavailable entity \<noteq> ErrInvalidLabel entity'"
proof -
  have l: "last a \<noteq> last b \<Longrightarrow> a \<noteq> b" for a b :: string by blast
  show "ErrNotFound entity \<noteq> ErrInvalidID entity'"
    unfolding ErrNotFound_def ErrInvalidID_def using l [of "entity @ '' not found''" "''invalid '' @ entity' @ '' ID''"]
    by simp
  show "ErrNotFound entity \<noteq> ErrInvalidLabel entity'"
    unfolding ErrNotFound_def ErrInvalidLabel_def
    using l [of "entity @ '' not found''" "''label must be between 1 and 200 characters''"] by simp
  show "ErrInvalidID entity \<noteq> ErrInvalidLabel entity'"
    by (simp add: ErrInvalidID_def ErrInvalidLabel_def)
  show "ErrGatewayUnavailable entity \<noteq> ErrInvalidLabel entity'"
    unfolding ErrGatewayUnavailable_def ErrInvalidLabel_def
    using l [of "entity @ '' gateway unavailable''" "''label must be between 1 and 200 characters''"] by simp
qed

end
