(* ===== verification/Outbox_Relay.thy ===== *)
theory Outbox_Relay
  imports Go_Strings
begin

text \<open>
  \<open>pkg/platform/db/outbox/relay.go\<close> and the bus adapter \<open>pkg/platform/events/watermill.go\<close>: the
  worker that moves rows of the outbox table to the bus. The table is the list of its rows, the
  bus the list of the messages it accepted; everything that can fail in a batch (opening the
  transaction, the query, a row, a publication, the update, the commit) is a field of
  \<open>batch_env\<close>, together with the rows other workers hold locked. The worker of \<open>Start\<close> is a step
  relation interleaved with the application's inserts.
\<close>

subsection \<open>The table name\<close>

definition name_char :: "char \<Rightarrow> bool" where
  "name_char c \<longleftrightarrow> (97 \<le> (of_char c :: nat) \<and> (of_char c :: nat) \<le> 122) \<or> c = CHR ''_'' \<or> is_digit c"

text \<open>\<open>tableNameRegex\<close>: \<open>(^[a-z_0-9]+\.?[a-z_0-9]+$)|(^[a-z_0-9]+$)\<close>; \<open>plus\<close> is \<open>[a-z_0-9]+\<close> on a
  whole string, and the first alternative tries every split, with and without the dot.\<close>

definition re_plus :: "string \<Rightarrow> bool" where
  "re_plus s = (s \<noteq> [] \<and> list_all name_char s)"

definition re_opt_dot_plus :: "string \<Rightarrow> bool" where
  "re_opt_dot_plus s = (re_plus s \<or> (s \<noteq> [] \<and> hd s = CHR ''.'' \<and> re_plus (tl s)))"

definition matchTableName :: "string \<Rightarrow> bool" where
  "matchTableName s =
     (list_ex (\<lambda>i. re_plus (take i s) \<and> re_opt_dot_plus (drop i s)) [0..<Suc (length s)] \<or> re_plus s)"

record EventsRelay =
  er_interval :: int
  er_tableName :: string

definition NewEventsRelay :: "string \<Rightarrow> string + EventsRelay" where
  "NewEventsRelay tableName =
     (if \<not> matchTableName tableName
      then Inl (''table name '' @ [CHR 0x22] @ tableName @ [CHR 0x22] @ '' is not allowed'')
      else Inr \<lparr>er_interval = 2 * 1000000000, er_tableName = tableName\<rparr>)"

lemma matchTableName_iff:
  "matchTableName s \<longleftrightarrow> re_plus s \<or> (\<exists>a b. s = a @ ''.'' @ b \<and> re_plus a \<and> re_plus b)"
proof
  assume "matchTableName s"
  then consider "re_plus s" | i where "re_plus (take i s)" "re_opt_dot_plus (drop i s)"
    by (auto simp: matchTableName_def list_ex_iff)
  then show "re_plus s \<or> (\<exists>a b. s = a @ ''.'' @ b \<and> re_plus a \<and> re_plus b)"
  proof cases
    case 2
    then consider "re_plus (drop i s)" | "drop i s \<noteq> []" "hd (drop i s) = CHR ''.''" "re_plus (tl (drop i s))"
      by (auto simp: re_opt_dot_plus_def)
    then show ?thesis
    proof cases
      case 1
      have "list_all name_char (take i s @ drop i s)" using 1 2(1) by (simp only: re_plus_def list_all_append)
      then show ?thesis using 1 by (auto simp: re_plus_def)
    next
      case 2
      then have "s = take i s @ ''.'' @ tl (drop i s)"
        by (metis append_Cons append_Nil append_take_drop_id list.collapse)
      with \<open>re_plus (take i s)\<close> 2(3) show ?thesis by blast
    qed
  qed simp
next
  assume "re_plus s \<or> (\<exists>a b. s = a @ ''.'' @ b \<and> re_plus a \<and> re_plus b)"
  then show "matchTableName s"
  proof (elim disjE exE conjE)
    fix a b assume s: "s = a @ ''.'' @ b" "re_plus a" "re_plus b"
    then have "re_plus (take (length a) s) \<and> re_opt_dot_plus (drop (length a) s)"
      by (simp add: re_opt_dot_plus_def)
    then show ?thesis unfolding matchTableName_def list_ex_iff using s
      by (intro disjI1 bexI [of _ "length a"]) auto
  qed (simp add: matchTableName_def)
qed

subsection \<open>One batch\<close>

record oevent =
  oe_id :: int
  oe_type :: string
  oe_payload :: string
  oe_occurred :: nat
  oe_published :: bool

type_synonym message = "string \<times> string"

record outbox =
  ob_table :: "oevent list"
  ob_bus :: "message list"

record batch_env =
  be_begin :: "string option"
  be_query :: "string option"
  be_scan :: "nat \<Rightarrow> string option"
  be_end :: "nat option"
  be_publish :: "nat \<Rightarrow> string option"
  be_exec :: "string option"
  be_commit :: "string option"
  be_locked :: "int list"

datatype relay_err =
    OpenTx string | FetchEvents string | ScanEvent string | PublishEvent string | MarkPublished string | CommitTx string

definition message_of :: "oevent \<Rightarrow> message" where
  "message_of e = (oe_type e, oe_payload e)"

text \<open>\<open>WHERE published_at IS NULL ORDER BY occurred_at ASC LIMIT 100 FOR UPDATE SKIP LOCKED\<close>.\<close>

definition batchLimit :: nat where
  "batchLimit = 100"

definition select_pending :: "int list \<Rightarrow> oevent list \<Rightarrow> oevent list" where
  "select_pending locked t =
     take batchLimit (filter (\<lambda>e. oe_id e \<notin> set locked) (sort_key oe_occurred (filter (\<lambda>e. \<not> oe_published e) t)))"

text \<open>\<open>publisher.Publish(eventType, msg)\<close>: accepted messages reach the topic's log. The loop over
  the rows: its results are the identifiers published, or the error, and the bus.\<close>

fun publish_rows ::
    "batch_env \<Rightarrow> nat \<Rightarrow> oevent list \<Rightarrow> message list \<Rightarrow> int list \<Rightarrow> (relay_err + int list) \<times> message list" where
  "publish_rows env i [] bus ids = (Inr ids, bus)"
| "publish_rows env i (e # es) bus ids =
     (if be_end env = Some i then (Inr ids, bus)
      else (case be_scan env i of Some x \<Rightarrow> (Inl (ScanEvent x), bus)
        | None \<Rightarrow> (case be_publish env i of Some x \<Rightarrow> (Inl (PublishEvent x), bus)
           | None \<Rightarrow> publish_rows env (Suc i) es (bus @ [message_of e]) (ids @ [oe_id e]))))"

definition mark_published :: "int list \<Rightarrow> oevent list \<Rightarrow> oevent list" where
  "mark_published ids t = map (\<lambda>e. if oe_id e \<in> set ids then e\<lparr>oe_published := True\<rparr> else e) t"

definition processBatch :: "batch_env \<Rightarrow> outbox \<Rightarrow> relay_err option \<times> outbox" where
  "processBatch env st =
     (case be_begin env of Some x \<Rightarrow> (Some (OpenTx x), st)
      | None \<Rightarrow> (case be_query env of Some x \<Rightarrow> (Some (FetchEvents x), st)
      | None \<Rightarrow>
         (case publish_rows env 0 (select_pending (be_locked env) (ob_table st)) (ob_bus st) [] of
            (Inl e, bus) \<Rightarrow> (Some e, st\<lparr>ob_bus := bus\<rparr>)
          | (Inr ids, bus) \<Rightarrow>
             (if ids \<noteq> [] \<and> be_exec env \<noteq> None then (map_option MarkPublished (be_exec env), st\<lparr>ob_bus := bus\<rparr>)
              else (case be_commit env of Some x \<Rightarrow> (Some (CommitTx x), st\<lparr>ob_bus := bus\<rparr>)
                | None \<Rightarrow> (None, \<lparr>ob_table = (if ids = [] then ob_table st else mark_published ids (ob_table st)), ob_bus = bus\<rparr>))))))"

subsection \<open>The worker\<close>

datatype worker = Running | Stopped

definition insert_event :: "oevent \<Rightarrow> outbox \<Rightarrow> outbox" where
  "insert_event e st = st\<lparr>ob_table := ob_table st @ [e]\<rparr>"

text \<open>\<open>Start\<close> waits for the tick or for the end of its context; the application inserts unpublished
  rows with new identifiers at any time.\<close>

inductive relay_step :: "worker \<times> outbox \<Rightarrow> worker \<times> outbox \<Rightarrow> bool" where
  tick: "relay_step (Running, st) (Running, snd (processBatch env st))"
| cancel: "relay_step (Running, st) (Stopped, st)"
| insert: "\<not> oe_published e \<Longrightarrow> oe_id e \<notin> oe_id ` set (ob_table st) \<Longrightarrow>
           relay_step (w, st) (w, insert_event e st)"

inductive_cases relay_stepE: "relay_step s s'"

abbreviation relay_steps :: "worker \<times> outbox \<Rightarrow> worker \<times> outbox \<Rightarrow> bool" where
  "relay_steps \<equiv> relay_step\<^sup>*\<^sup>*"

subsection \<open>What a batch does\<close>

lemma publish_rows_bus: "\<exists>ms. snd (publish_rows env i es bus ids) = bus @ ms"
  by (induction env i es bus ids rule: publish_rows.induct) (auto split: option.splits)

lemma publish_rows_ids:
  "fst (publish_rows env i es bus ids) = Inr ids' \<Longrightarrow>
   \<exists>n. ids' = ids @ map oe_id (take n es) \<and> snd (publish_rows env i es bus ids) = bus @ map message_of (take n es)"
proof (induction env i es bus ids rule: publish_rows.induct)
  case (2 env i e es bus ids)
  show ?case
  proof (cases "be_end env = Some i")
    case True
    with 2 show ?thesis by (intro exI [of _ 0]) simp
  next
    case False
    with "2.prems" have ok: "be_scan env i = None" "be_publish env i = None" by (auto split: option.splits)
    with False 2 obtain n where "ids' = (ids @ [oe_id e]) @ map oe_id (take n es)"
      "snd (publish_rows env i (e # es) bus ids) = (bus @ [message_of e]) @ map message_of (take n es)"
      by auto
    then show ?thesis by (intro exI [of _ "Suc n"]) simp
  qed
qed simp

lemma select_pending_sub: "set (select_pending locked t) \<subseteq> {e \<in> set t. \<not> oe_published e}"
  unfolding select_pending_def by (auto dest!: in_set_takeD)

text \<open>A batch either leaves the table as it was, or marks some of the selected rows, a first part
  of them, all of whose messages it has sent, in their order.\<close>

lemma processBatch_cases:
  obtains (kept) ms where "snd (processBatch env st) = st\<lparr>ob_bus := ob_bus st @ ms\<rparr>"
  | (marked) sel n where "fst (processBatch env st) = None"
      "sel = take n (select_pending (be_locked env) (ob_table st))"
      "snd (processBatch env st) = \<lparr>ob_table = mark_published (map oe_id sel) (ob_table st),
         ob_bus = ob_bus st @ map message_of sel\<rparr>"
proof -
  let ?es = "select_pending (be_locked env) (ob_table st)"
  let ?p = "publish_rows env 0 ?es (ob_bus st) []"
  have st: "st = st\<lparr>ob_bus := ob_bus st @ []\<rparr>" by simp
  show thesis
  proof (cases "be_begin env = None \<and> be_query env = None \<and> (\<exists>ids. fst ?p = Inr ids \<and> (ids = [] \<or> be_exec env = None)) \<and> be_commit env = None")
    case False
    have "\<exists>ms. snd (processBatch env st) = st\<lparr>ob_bus := ob_bus st @ ms\<rparr>"
    proof (cases "be_begin env = None \<and> be_query env = None")
      case True
      obtain r bus where p: "?p = (r, bus)" by (cases ?p)
      then obtain ms where "bus = ob_bus st @ ms" using publish_rows_bus [of env 0 ?es "ob_bus st" "[]"] by auto
      with True False p show ?thesis by (cases r) (auto simp: processBatch_def split: option.splits)
    next
      case False
      then have "snd (processBatch env st) = st" by (auto simp: processBatch_def split: option.splits)
      with st show ?thesis by metis
    qed
    then show ?thesis using kept by blast
  next
    case True
    then obtain ids where ids: "fst ?p = Inr ids" "ids = [] \<or> be_exec env = None" by blast
    from publish_rows_ids [OF ids(1)] obtain n where n: "ids = map oe_id (take n ?es)"
      "snd ?p = ob_bus st @ map message_of (take n ?es)" by auto
    have p: "?p = (Inr ids, ob_bus st @ map message_of (take n ?es))" using ids(1) n(2) by (metis prod.collapse)
    have "processBatch env st = (None, \<lparr>ob_table = (if ids = [] then ob_table st else mark_published ids (ob_table st)),
        ob_bus = ob_bus st @ map message_of (take n ?es)\<rparr>)"
      using True ids(2) p by (auto simp: processBatch_def)
    moreover have "ids = [] \<Longrightarrow> mark_published ids (ob_table st) = ob_table st" by (simp add: mark_published_def)
    ultimately show ?thesis using marked [of "take n ?es" n] n(1) by (auto split: if_splits)
  qed
qed

subsection \<open>Reachable states\<close>

definition sent :: "outbox \<Rightarrow> bool" where
  "sent st \<longleftrightarrow> distinct (map oe_id (ob_table st)) \<and>
     (\<forall>e \<in> set (ob_table st). oe_published e \<longrightarrow> message_of e \<in> set (ob_bus st))"

definition same_event :: "oevent \<Rightarrow> oevent \<Rightarrow> bool" where
  "same_event e e' \<longleftrightarrow> oe_id e = oe_id e' \<and> message_of e = message_of e' \<and> oe_occurred e = oe_occurred e' \<and>
     (oe_published e \<longrightarrow> oe_published e')"

lemma map_id_mark [simp]: "map oe_id (mark_published ids t) = map oe_id t"
  by (simp add: mark_published_def)

lemma mark_published_in:
  "e' \<in> set (mark_published ids t) \<longleftrightarrow>
   (\<exists>e \<in> set t. e' = (if oe_id e \<in> set ids then e\<lparr>oe_published := True\<rparr> else e))"
  by (auto simp: mark_published_def)

lemma message_of_published [simp]: "message_of (e\<lparr>oe_published := b\<rparr>) = message_of e"
  by (simp add: message_of_def)

lemma same_id: "distinct (map oe_id t) \<Longrightarrow> e \<in> set t \<Longrightarrow> e' \<in> set t \<Longrightarrow> oe_id e = oe_id e' \<Longrightarrow> e = e'"
  by (metis distinct_map inj_onD)

lemma processBatch_sent: "sent st \<Longrightarrow> sent (snd (processBatch env st))"
proof (cases rule: processBatch_cases [of env st])
  case (kept ms)
  assume "sent st"
  with kept show ?thesis by (auto simp: sent_def)
next
  case (marked sel n)
  assume s: "sent st"
  have sub: "set sel \<subseteq> set (ob_table st)"
    using select_pending_sub [of "be_locked env" "ob_table st"] in_set_takeD unfolding marked(2) by fastforce
  have "message_of e \<in> set (ob_bus st @ map message_of sel)"
    if "e \<in> set (mark_published (map oe_id sel) (ob_table st))" "oe_published e" for e
  proof -
    from that(1) obtain e0 where e0: "e0 \<in> set (ob_table st)"
      "e = (if oe_id e0 \<in> oe_id ` set sel then e0\<lparr>oe_published := True\<rparr> else e0)"
      by (auto simp: mark_published_in)
    show ?thesis
    proof (cases "oe_id e0 \<in> oe_id ` set sel")
      case True
      then obtain x where "x \<in> set sel" "oe_id x = oe_id e0" by auto
      then have "x = e0" using s sub e0(1) same_id by (fastforce simp: sent_def)
      with \<open>x \<in> set sel\<close> True e0(2) show ?thesis by simp
    next
      case False
      with e0 that(2) s show ?thesis by (auto simp: sent_def)
    qed
  qed
  then show ?thesis using s marked(3) by (simp add: sent_def)
qed

lemma relay_step_sent: "relay_step s s' \<Longrightarrow> sent (snd s) \<Longrightarrow> sent (snd s')"
  by (erule relay_stepE) (auto simp: processBatch_sent, auto simp: sent_def insert_event_def)

lemma relay_steps_sent: "relay_steps s s' \<Longrightarrow> sent (snd s) \<Longrightarrow> sent (snd s')"
  by (induction rule: rtranclp_induct) (auto dest: relay_step_sent)

definition keeps :: "outbox \<Rightarrow> outbox \<Rightarrow> bool" where
  "keeps st st' \<longleftrightarrow> (\<exists>new. list_all2 same_event (ob_table st) (take (length (ob_table st)) (ob_table st'))
      \<and> length (ob_table st') = length (ob_table st) + new) \<and> (\<exists>ms. ob_bus st' = ob_bus st @ ms)"

lemma same_event_refl [simp]: "same_event e e"
  by (simp add: same_event_def)

lemma same_event_mark: "list_all2 same_event t (mark_published ids t)"
  by (simp add: mark_published_def list_all2_map2 list_all2_same same_event_def)

lemma relay_step_keeps: "relay_step s s' \<Longrightarrow> keeps (snd s) (snd s')"
proof (erule relay_stepE)
  fix st env
  assume "s = (Running, st)" "s' = (Running, snd (processBatch env st))"
  then show ?thesis
    by (cases rule: processBatch_cases [of env st])
       (auto simp: keeps_def list_all2_same same_event_mark list_all2_lengthD [OF same_event_mark, symmetric])
qed (auto simp: keeps_def list_all2_same insert_event_def)

lemma keeps_refl: "keeps st st"
  by (simp add: keeps_def list_all2_same)

lemma same_event_trans: "same_event a b \<Longrightarrow> same_event b c \<Longrightarrow> same_event a c"
  by (simp add: same_event_def)

lemma keeps_trans:
  assumes "keeps a b" and "keeps b c"
  shows "keeps a c"
proof -
  let ?n = "length (ob_table a)"
  from assms have l: "list_all2 same_event (ob_table a) (take ?n (ob_table b))"
    "list_all2 same_event (ob_table b) (take (length (ob_table b)) (ob_table c))"
    "?n \<le> length (ob_table b)" "length (ob_table b) \<le> length (ob_table c)" by (auto simp: keeps_def)
  have "list_all2 same_event (take ?n (ob_table b)) (take ?n (take (length (ob_table b)) (ob_table c)))"
    using l(2) by (rule list_all2_takeI)
  then have "list_all2 same_event (take ?n (ob_table b)) (take ?n (ob_table c))"
    using l(3) by (simp add: min_def)
  with l(1) have "list_all2 same_event (ob_table a) (take ?n (ob_table c))"
    using list_all2_trans [of same_event same_event same_event] same_event_trans by blast
  moreover have "\<exists>ms. ob_bus c = ob_bus a @ ms" using assms by (auto simp: keeps_def)
  ultimately show ?thesis using l(3,4) unfolding keeps_def
    by (metis le_add_diff_inverse le_trans)
qed

lemma relay_steps_keeps: "relay_steps s s' \<Longrightarrow> keeps (snd s) (snd s')"
  by (induction rule: rtranclp_induct) (auto intro: keeps_refl keeps_trans relay_step_keeps)

subsection \<open>Draining\<close>

definition no_faults :: batch_env where
  "no_faults = \<lparr>be_begin = None, be_query = None, be_scan = \<lambda>_. None, be_end = None, be_publish = \<lambda>_. None,
     be_exec = None, be_commit = None, be_locked = []\<rparr>"

definition pending :: "outbox \<Rightarrow> oevent list" where
  "pending st = filter (\<lambda>e. \<not> oe_published e) (ob_table st)"

lemma publish_rows_no_faults:
  "publish_rows no_faults i es bus ids = (Inr (ids @ map oe_id es), bus @ map message_of es)"
  by (induction es arbitrary: i bus ids) (simp_all add: no_faults_def)

lemma processBatch_no_faults:
  "processBatch no_faults st = (None, \<lparr>ob_table = mark_published (map oe_id (take batchLimit (sort_key oe_occurred (pending st)))) (ob_table st),
     ob_bus = ob_bus st @ map message_of (take batchLimit (sort_key oe_occurred (pending st)))\<rparr>)"
proof -
  let ?s = "take batchLimit (sort_key oe_occurred (pending st))"
  have sel: "select_pending (be_locked no_faults) (ob_table st) = ?s"
    by (simp add: select_pending_def pending_def no_faults_def)
  have "processBatch no_faults st = (None, \<lparr>ob_table = (if map oe_id ?s = [] then ob_table st else mark_published (map oe_id ?s) (ob_table st)),
      ob_bus = ob_bus st @ map message_of ?s\<rparr>)"
    unfolding processBatch_def sel publish_rows_no_faults by (simp add: no_faults_def)
  moreover have "(if ids = [] then t else mark_published ids t) = mark_published ids t" for ids t
    by (simp add: mark_published_def)
  ultimately show ?thesis by (simp only:)
qed

lemma length_pending_mark:
  assumes d: "distinct (map oe_id t)" and s: "set sel \<subseteq> set t" "\<forall>e \<in> set sel. \<not> oe_published e" "distinct (map oe_id sel)"
  shows "length (filter (\<lambda>e. \<not> oe_published e) (mark_published (map oe_id sel) t)) + length sel
     = length (filter (\<lambda>e. \<not> oe_published e) t)"
proof -
  have filt: "filter (\<lambda>e. \<not> oe_published e) (mark_published ids t') = filter (\<lambda>e. \<not> oe_published e \<and> oe_id e \<notin> set ids) t'" for ids t'
    by (induction t') (auto simp: mark_published_def)
  have dt: "distinct t" "distinct sel" using d s(3) by (auto simp: distinct_map)
  let ?P = "\<lambda>e. \<not> oe_published e"
  have eq: "{e \<in> set t. ?P e} = {e \<in> set t. ?P e \<and> oe_id e \<notin> set (map oe_id sel)} \<union> set sel"
  proof (intro equalityI subsetI)
    fix e assume e: "e \<in> {e \<in> set t. ?P e}"
    show "e \<in> {e \<in> set t. ?P e \<and> oe_id e \<notin> set (map oe_id sel)} \<union> set sel"
    proof (cases "oe_id e \<in> set (map oe_id sel)")
      case True
      then obtain x where x: "x \<in> set sel" "oe_id e = oe_id x" by auto
      with e s(1) have "e = x" by (intro same_id [OF d]) auto
      with x show ?thesis by simp
    qed (use e in simp)
  next
    fix e assume "e \<in> {e \<in> set t. ?P e \<and> oe_id e \<notin> set (map oe_id sel)} \<union> set sel"
    with s(1,2) show "e \<in> {e \<in> set t. ?P e}" by blast
  qed
  have disj: "{e \<in> set t. ?P e \<and> oe_id e \<notin> set (map oe_id sel)} \<inter> set sel = {}" by auto
  have len: "length (filter Q t) = card {e \<in> set t. Q e}" for Q
    using dt(1) by (metis distinct_card distinct_filter set_filter)
  show ?thesis unfolding filt len eq
    by (subst card_Un_disjoint) (use disj dt(2) in \<open>auto simp: distinct_card\<close>)
qed

fun ticks :: "nat \<Rightarrow> outbox \<Rightarrow> outbox" where
  "ticks 0 st = st"
| "ticks (Suc n) st = ticks n (snd (processBatch no_faults st))"

lemma tick_pending:
  assumes "distinct (map oe_id (ob_table st))"
  shows "length (pending (snd (processBatch no_faults st))) = length (pending st) - batchLimit"
    and "distinct (map oe_id (ob_table (snd (processBatch no_faults st))))"
proof -
  let ?s = "take batchLimit (sort_key oe_occurred (pending st))"
  have "distinct (map oe_id (pending st))" using assms by (simp add: pending_def distinct_map_filter)
  then have "distinct (map oe_id (sort_key oe_occurred (pending st)))" by (simp add: distinct_map)
  then have "distinct (map oe_id ?s)" by (simp add: take_map [symmetric])
  moreover have sub: "set ?s \<subseteq> set (pending st)" by (auto dest: in_set_takeD)
  moreover have "set (pending st) \<subseteq> set (ob_table st)" "\<forall>e \<in> set (pending st). \<not> oe_published e"
    by (auto simp: pending_def)
  ultimately have m: "length (filter (\<lambda>e. \<not> oe_published e) (mark_published (map oe_id ?s) (ob_table st))) + length ?s
      = length (filter (\<lambda>e. \<not> oe_published e) (ob_table st))"
    by (intro length_pending_mark [OF assms]) (blast, blast, assumption)
  have "ob_table (snd (processBatch no_faults st)) = mark_published (map oe_id ?s) (ob_table st)"
    by (simp add: processBatch_no_faults)
  then have "length (pending (snd (processBatch no_faults st))) + length ?s = length (pending st)"
    using m by (simp only: pending_def)
  then show "length (pending (snd (processBatch no_faults st))) = length (pending st) - batchLimit"
    by (simp add: min_def split: if_splits)
  show "distinct (map oe_id (ob_table (snd (processBatch no_faults st))))"
    using assms by (simp add: processBatch_no_faults)
qed

lemma ticks_pending:
  "distinct (map oe_id (ob_table st)) \<Longrightarrow> length (pending (ticks n st)) = length (pending st) - n * batchLimit"
  by (induction n arbitrary: st) (simp_all add: tick_pending diff_diff_eq)

lemma ticks_reachable: "relay_steps (Running, st) (Running, ticks n st)"
proof (induction n arbitrary: st)
  case (Suc n)
  have "relay_step (Running, st) (Running, snd (processBatch no_faults st))" by (rule relay_step.tick)
  with Suc.IH [of "snd (processBatch no_faults st)"] show ?case by (auto intro: converse_rtranclp_into_rtranclp)
qed simp

end
