(* ===== verification/Slice_Ports.thy ===== *)
theory Slice_Ports
  imports Slice_Domain Outbox_Relay
begin

text \<open>
  The application layer of a generated slice and its adapters: the secondary ports, the delete,
  send and get use cases over them, the Postgres adapters (repository, outbox dispatcher, bus
  publisher, HTTP gateway) and the in-memory fakes of \<open>testhelpers\<close>. The repository's contract is
  the locale \<open>repository\<close>, which both the Postgres repository and the in-memory one provide.
\<close>

subsection \<open>Ports\<close>

record 's delete_ports =
  p_find :: "ctx \<Rightarrow> int \<Rightarrow> 's \<Rightarrow> go_error + aggregate"
  p_delete :: "ctx \<Rightarrow> int \<Rightarrow> 's \<Rightarrow> go_error option \<times> 's"
  p_uow :: "ctx \<Rightarrow> (ctx \<Rightarrow> 's \<Rightarrow> go_error option \<times> 's) \<Rightarrow> 's \<Rightarrow> go_error option \<times> 's"
  p_dispatch :: "ctx \<Rightarrow> event list \<Rightarrow> 's \<Rightarrow> go_error option \<times> 's"

subsection \<open>Use cases\<close>

definition delete_body ::
    "string \<Rightarrow> time \<Rightarrow> uuid \<Rightarrow> int \<Rightarrow> 's delete_ports \<Rightarrow> ctx \<Rightarrow> 's \<Rightarrow> go_error option \<times> 's" where
  "delete_body entity now userID i ps txCtx s =
     (case p_find ps txCtx i s of
        Inl e \<Rightarrow> (Some (Wrap (''finding '' @ entity @ '' to delete'') e), s)
      | Inr a0 \<Rightarrow>
         (let a = Delete now userID a0 in
          case p_delete ps txCtx i s of
            (Some e, s1) \<Rightarrow> (Some (Wrap (''deleting '' @ entity) e), s1)
          | (None, s1) \<Rightarrow>
             (case p_dispatch ps txCtx (ag_events a) s1 of
                (Some e, s2) \<Rightarrow> (Some (Wrap ''dispatching events'' e), s2)
              | (None, s2) \<Rightarrow> (None, s2))))"

definition DeleteExecute ::
    "string \<Rightarrow> time \<Rightarrow> 's delete_ports \<Rightarrow> ctx \<Rightarrow> int \<Rightarrow> 's \<Rightarrow> go_error option \<times> 's" where
  "DeleteExecute entity now ps c i s =
     (case UserIDFromContext c of Inl e \<Rightarrow> (Some (Wrap (''delete '' @ entity) e), s)
      | Inr userID \<Rightarrow>
         (case ParseID entity i of Inl e \<Rightarrow> (Some (Wrap (''invalid '' @ entity @ '' ID'') e), s)
          | Inr j \<Rightarrow>
             (case p_uow ps c (delete_body entity now userID j ps) s of
                (err, s') \<Rightarrow> (eris_wrap err ''uow execution failed'', s'))))"

definition GetExecute :: "string \<Rightarrow> 's delete_ports \<Rightarrow> ctx \<Rightarrow> int \<Rightarrow> 's \<Rightarrow> go_error + aggregate" where
  "GetExecute entity ps c i s =
     (case ParseID entity i of Inl e \<Rightarrow> Inl (Wrap (''invalid '' @ entity @ '' ID'') e)
      | Inr j \<Rightarrow> (case p_find ps c j s of Inl e \<Rightarrow> Inl (Wrap (''finding '' @ entity) e) | Inr a \<Rightarrow> Inr a))"

text \<open>The application service adds its own wrapping.\<close>

definition svc_Get :: "string \<Rightarrow> 's delete_ports \<Rightarrow> ctx \<Rightarrow> int \<Rightarrow> 's \<Rightarrow> go_error + aggregate" where
  "svc_Get entity ps c i s = (case GetExecute entity ps c i s of Inl e \<Rightarrow> Inl (Wrap (''get '' @ entity) e) | Inr a \<Rightarrow> Inr a)"

definition svc_Delete ::
    "string \<Rightarrow> time \<Rightarrow> 's delete_ports \<Rightarrow> ctx \<Rightarrow> int \<Rightarrow> 's \<Rightarrow> go_error option \<times> 's" where
  "svc_Delete entity now ps c i s =
     (case DeleteExecute entity now ps c i s of (err, s') \<Rightarrow> (eris_wrap err (''delete '' @ entity), s'))"

text \<open>The send command of a gateway slice, over a gateway and an event publisher.\<close>

record 's send_ports =
  p_send :: "ctx \<Rightarrow> gmessage \<Rightarrow> 's \<Rightarrow> go_error option \<times> 's"
  p_publish :: "ctx \<Rightarrow> event list \<Rightarrow> 's \<Rightarrow> go_error option \<times> 's"

definition SendExecute ::
    "string \<Rightarrow> time \<Rightarrow> 's send_ports \<Rightarrow> ctx \<Rightarrow> string \<Rightarrow> 's \<Rightarrow> go_error option \<times> 's" where
  "SendExecute entity now ps c label s =
     (case UserIDFromContext c of Inl e \<Rightarrow> (Some (Wrap (''send '' @ entity) e), s)
      | Inr userID \<Rightarrow>
         (case NewLabel entity label of Inl e \<Rightarrow> (Some (Wrap ''invalid label'' e), s)
          | Inr lbl \<Rightarrow>
             (let a = NewMessage lbl in
              case p_send ps c a s of
                (Some e, s1) \<Rightarrow> (Some (Wrap (''sending '' @ entity) e), s1)
              | (None, s1) \<Rightarrow>
                 (case p_publish ps c (gm_events (MarkSent now userID a)) s1 of
                    (Some e, s2) \<Rightarrow> (Some (Wrap ''publishing events'' e), s2)
                  | (None, s2) \<Rightarrow> (None, s2)))))"

subsection \<open>Postgres adapters\<close>

record slice_db =
  db_rows :: "int \<rightharpoonup> Snapshot"
  db_outbox :: "oevent list"
  db_nextEvent :: int

text \<open>What can fail, what the encoders return, and the topics of the contract.\<close>

record db_env =
  dv_select :: "string option"
  dv_delete :: "string option"
  dv_insert :: "string option"
  dv_topics :: "(string, string) gomap"
  dv_toProto :: "event \<Rightarrow> string option"
  dv_protojson :: "string \<Rightarrow> go_error + string"
  dv_json :: "event \<Rightarrow> go_error + string"

definition fromModel :: "Snapshot \<Rightarrow> Snapshot" where
  "fromModel m = \<lparr>sn_ID = sn_ID m, sn_Label = sn_Label m, sn_CreatedAt = sn_CreatedAt m, sn_UpdatedAt = sn_UpdatedAt m\<rparr>"

definition pg_FindByID :: "string \<Rightarrow> db_env \<Rightarrow> ctx \<Rightarrow> int \<Rightarrow> slice_db store \<Rightarrow> go_error + aggregate" where
  "pg_FindByID entity env c i st =
     (case dv_select env of Some e \<Rightarrow> Inl (Wrap (''querying '' @ entity) (Opaque e))
      | None \<Rightarrow>
         (case db_rows (exec_read (getExecutor c) st) i of None \<Rightarrow> Inl (ErrNotFound entity)
          | Some m \<Rightarrow> Inr (Reconstitute (fromModel m))))"

definition pg_Delete :: "string \<Rightarrow> db_env \<Rightarrow> ctx \<Rightarrow> int \<Rightarrow> slice_db store \<Rightarrow> go_error option \<times> slice_db store" where
  "pg_Delete entity env c i st =
     (case dv_delete env of Some e \<Rightarrow> (Some (Wrap (''deleting '' @ entity) (Opaque e)), st)
      | None \<Rightarrow>
         (let affected = (if db_rows (exec_read (getExecutor c) st) i = None then 0 else 1 :: nat);
              st' = exec_write (getExecutor c) (\<lambda>d. d\<lparr>db_rows := (db_rows d)(i := None)\<rparr>) st in
          if affected = 0 then (Some (ErrNotFound entity), st') else (None, st')))"

definition encode_event :: "string \<Rightarrow> db_env \<Rightarrow> event \<Rightarrow> go_error + string \<times> string" where
  "encode_event entity env e =
     (case map_of (dv_topics env) (EventType entity e) of
        None \<Rightarrow> Inl (Opaque (''no routing key for domain event type '' @ EventType entity e))
      | Some topic \<Rightarrow>
         (case (case dv_toProto env e of Some m \<Rightarrow> dv_protojson env m | None \<Rightarrow> dv_json env e) of
            Inl x \<Rightarrow> Inl (Wrap (''failed to marshal event '' @ EventType entity e) x)
          | Inr payload \<Rightarrow> Inr (topic, payload)))"

text \<open>The multi-row insert: identifiers come from the table's sequence.\<close>

fun outbox_rows :: "int \<Rightarrow> (string \<times> string \<times> time) list \<Rightarrow> oevent list" where
  "outbox_rows n [] = []"
| "outbox_rows n ((topic, payload, at) # ms) =
     \<lparr>oe_id = n, oe_type = topic, oe_payload = payload, oe_occurred = at, oe_published = False\<rparr> # outbox_rows (n + 1) ms"

definition insert_rows :: "(string \<times> string \<times> time) list \<Rightarrow> slice_db \<Rightarrow> slice_db" where
  "insert_rows ms d = d\<lparr>db_outbox := db_outbox d @ outbox_rows (db_nextEvent d) ms,
     db_nextEvent := db_nextEvent d + int (length ms)\<rparr>"

definition build_models :: "string \<Rightarrow> db_env \<Rightarrow> event list \<Rightarrow> go_error + (string \<times> string \<times> time) list" where
  "build_models entity env events =
     foldM (\<lambda>models e. case encode_event entity env e of Inl x \<Rightarrow> Inl x
        | Inr (topic, payload) \<Rightarrow> Inr (models @ [(topic, payload, GetOccurredAt e)])) [] events"

definition pg_Dispatch :: "string \<Rightarrow> db_env \<Rightarrow> ctx \<Rightarrow> event list \<Rightarrow> slice_db store \<Rightarrow> go_error option \<times> slice_db store" where
  "pg_Dispatch entity env c events st =
     (if events = [] then (None, st)
      else (case build_models entity env events of Inl e \<Rightarrow> (Some e, st)
        | Inr models \<Rightarrow>
           (case dv_insert env of Some e \<Rightarrow> (Some (Wrap ''failed to insert outbox events'' (Opaque e)), st)
            | None \<Rightarrow> (None, exec_write (getExecutor c) (insert_rows models) st))))"

text \<open>\<open>BusPublisher.Publish\<close>: the messages accepted before a failure stay published.\<close>

fun bus_Publish :: "string \<Rightarrow> db_env \<Rightarrow> (message \<Rightarrow> go_error option) \<Rightarrow> event list \<Rightarrow> message list \<Rightarrow> go_error option \<times> message list" where
  "bus_Publish entity env bus [] log = (None, log)"
| "bus_Publish entity env bus (e # es) log =
     (case encode_event entity env e of Inl x \<Rightarrow> (Some x, log)
      | Inr (topic, payload) \<Rightarrow>
         (case bus (topic, payload) of
            Some x \<Rightarrow> (Some (Wrap (''failed to publish event '' @ EventType entity e) x), log)
          | None \<Rightarrow> bus_Publish entity env bus es (log @ [(topic, payload)])))"

definition pg_ports :: "string \<Rightarrow> db_env \<Rightarrow> tx_faults \<Rightarrow> slice_db store delete_ports" where
  "pg_ports entity env flt = \<lparr>p_find = pg_FindByID entity env, p_delete = pg_Delete entity env,
     p_uow = WithTransaction flt, p_dispatch = pg_Dispatch entity env\<rparr>"

subsection \<open>In-memory fakes\<close>

record mem =
  mem_items :: "int \<rightharpoonup> aggregate"
  mem_events :: "event list"

definition mem_Seed :: "aggregate \<Rightarrow> mem \<Rightarrow> mem" where
  "mem_Seed a m = m\<lparr>mem_items := (mem_items m)(ag_id a \<mapsto> a)\<rparr>"

definition mem_FindByID :: "string \<Rightarrow> ctx \<Rightarrow> int \<Rightarrow> mem \<Rightarrow> go_error + aggregate" where
  "mem_FindByID entity c i m = (case mem_items m i of None \<Rightarrow> Inl (ErrNotFound entity) | Some a \<Rightarrow> Inr a)"

definition mem_Delete :: "string \<Rightarrow> ctx \<Rightarrow> int \<Rightarrow> mem \<Rightarrow> go_error option \<times> mem" where
  "mem_Delete entity c i m =
     (if mem_items m i = None then (Some (ErrNotFound entity), m)
      else (None, m\<lparr>mem_items := (mem_items m)(i := None)\<rparr>))"

definition PassthroughUoW :: "ctx \<Rightarrow> (ctx \<Rightarrow> 's \<Rightarrow> go_error option \<times> 's) \<Rightarrow> 's \<Rightarrow> go_error option \<times> 's" where
  "PassthroughUoW c fn = fn c"

definition RecordingDispatch :: "ctx \<Rightarrow> event list \<Rightarrow> mem \<Rightarrow> go_error option \<times> mem" where
  "RecordingDispatch c es m = (None, m\<lparr>mem_events := mem_events m @ es\<rparr>)"

definition mem_ports :: "string \<Rightarrow> mem delete_ports" where
  "mem_ports entity = \<lparr>p_find = mem_FindByID entity, p_delete = mem_Delete entity, p_uow = PassthroughUoW,
     p_dispatch = RecordingDispatch\<rparr>"

end
