(* ===== verification/Slice_Delete.thy ===== *)
theory Slice_Delete
  imports Slice_Ports
begin

text \<open>
  What the ports promise and what the use cases make of it: the repository contract and its two
  implementations, the atomicity of the delete command, and the way its event reaches the bus.
\<close>

subsection \<open>The repository contract\<close>

locale repository =
  fixes entity :: string
    and find_row :: "ctx \<Rightarrow> int \<Rightarrow> 's \<Rightarrow> go_error + aggregate"
    and delete_row :: "ctx \<Rightarrow> int \<Rightarrow> 's \<Rightarrow> go_error option \<times> 's"
    and view :: "ctx \<Rightarrow> 's \<Rightarrow> int \<rightharpoonup> Snapshot"
  assumes find_Inr: "find_row c i s = Inr a \<Longrightarrow> view c s i = Some (toSnapshot a)"
    and find_absent: "view c s i = None \<Longrightarrow> \<exists>e. find_row c i s = Inl e"
    and find_not_found: "find_row c i s = Inl e \<Longrightarrow> errors_is e (ErrNotFound entity) \<Longrightarrow> view c s i = None"
    and delete_ok: "delete_row c i s = (None, s') \<Longrightarrow> view c s i \<noteq> None \<and> view c s' = (view c s)(i := None)"
    and delete_failed: "delete_row c i s = (Some e, s') \<Longrightarrow> view c s' = view c s"
begin

lemma find_after_delete: "delete_row c i s = (None, s') \<Longrightarrow> \<exists>e. find_row c i s' = Inl e"
  using delete_ok find_absent by (metis fun_upd_same)

lemma delete_once: "delete_row c i s = (None, s') \<Longrightarrow> fst (delete_row c i s') \<noteq> None"
proof
  assume d: "delete_row c i s = (None, s')" and "fst (delete_row c i s') = None"
  then obtain s'' where "delete_row c i s' = (None, s'')" by (cases "delete_row c i s'") auto
  from delete_ok [OF this] delete_ok [OF d] show False by simp
qed

lemma delete_others: "delete_row c i s = (r, s') \<Longrightarrow> j \<noteq> i \<Longrightarrow> view c s' j = view c s j"
  using delete_ok delete_failed by (cases r) fastforce+

lemma found_unchanged: "find_row c i s = Inr a \<Longrightarrow> find_row c i s = Inr b \<Longrightarrow> toSnapshot a = toSnapshot b"
  using find_Inr by fastforce

end

definition pg_view :: "ctx \<Rightarrow> slice_db store \<Rightarrow> int \<rightharpoonup> Snapshot" where
  "pg_view c st = db_rows (exec_read (getExecutor c) st)"

lemma fromModel_id [simp]: "fromModel m = m"
  by (simp add: fromModel_def)

interpretation pg: repository entity "pg_FindByID entity env" "pg_Delete entity env" pg_view
  for entity env
proof unfold_locales
  fix c i and s :: "slice_db store" and a e s'
  show "pg_FindByID entity env c i s = Inr a \<Longrightarrow> pg_view c s i = Some (toSnapshot a)"
    by (auto simp: pg_FindByID_def pg_view_def snapshot_roundtrip split: option.splits)
  show "pg_view c s i = None \<Longrightarrow> \<exists>e. pg_FindByID entity env c i s = Inl e"
    by (auto simp: pg_FindByID_def pg_view_def split: option.splits)
  show "pg_FindByID entity env c i s = Inl e \<Longrightarrow> errors_is e (ErrNotFound entity) \<Longrightarrow> pg_view c s i = None"
    by (auto simp: pg_FindByID_def pg_view_def ErrNotFound_def split: option.splits)
  show "pg_Delete entity env c i s = (None, s') \<Longrightarrow> pg_view c s i \<noteq> None \<and> pg_view c s' = (pg_view c s)(i := None)"
    by (auto simp: pg_Delete_def pg_view_def Let_def split: option.splits if_splits)
  show "pg_Delete entity env c i s = (Some e, s') \<Longrightarrow> pg_view c s' = pg_view c s"
    by (auto simp: pg_Delete_def pg_view_def Let_def split: option.splits if_splits)
qed

definition mem_view :: "ctx \<Rightarrow> mem \<Rightarrow> int \<rightharpoonup> Snapshot" where
  "mem_view c m i = map_option toSnapshot (mem_items m i)"

interpretation memory: repository entity "mem_FindByID entity" "mem_Delete entity" mem_view
  for entity
  by unfold_locales
    (auto simp: mem_FindByID_def mem_Delete_def mem_view_def fun_eq_iff split: option.splits if_splits)

subsection \<open>Atomicity of the delete command\<close>

lemma pg_Delete_confined: "in_tx c st \<Longrightarrow> confined st (snd (pg_Delete entity env c i st))"
  by (auto simp: pg_Delete_def Let_def confined_refl in_tx_def intro: exec_write_confined split: option.splits)

lemma pg_Dispatch_confined: "in_tx c st \<Longrightarrow> confined st (snd (pg_Dispatch entity env c es st))"
  by (auto simp: pg_Dispatch_def confined_refl in_tx_def split: option.splits sum.splits)
     (auto simp: in_tx_def intro: exec_write_confined)

lemma confined_in_tx: "in_tx c st \<Longrightarrow> confined st st' \<Longrightarrow> in_tx c st'"
  by (simp add: in_tx_def confined_def)

lemma pg_ports_simps [simp]:
  "p_find (pg_ports entity env flt) = pg_FindByID entity env"
  "p_delete (pg_ports entity env flt) = pg_Delete entity env"
  "p_uow (pg_ports entity env flt) = WithTransaction flt"
  "p_dispatch (pg_ports entity env flt) = pg_Dispatch entity env"
  by (simp_all add: pg_ports_def)

interpretation pg_delete: tx_body "delete_body entity now u i (pg_ports entity env flt)"
  for entity now u i env flt
proof
  fix c and st :: "slice_db store"
  assume tx: "in_tx c st"
  obtain r1 st1 where d: "pg_Delete entity env c i st = (r1, st1)" by (cases "pg_Delete entity env c i st")
  have c1: "confined st st1" using pg_Delete_confined [OF tx, of entity env i] d by simp
  have c2: "confined st st2" if "pg_Dispatch entity env c es st1 = (r2, st2)" for es r2 st2
    using confined_trans [OF c1] pg_Dispatch_confined [OF confined_in_tx [OF tx c1], of entity env es] that by simp
  show "confined st (snd (delete_body entity now u i (pg_ports entity env flt) c st))"
    using tx c1 c2 d
    by (auto simp: delete_body_def Let_def confined_refl in_tx_def split: sum.splits option.splits prod.splits)
qed

lemma build_models_single:
  "build_models entity env [e] = (case encode_event entity env e of Inl x \<Rightarrow> Inl x
     | Inr (topic, payload) \<Rightarrow> Inr [(topic, payload, GetOccurredAt e)])"
  by (simp add: build_models_def split: sum.splits prod.splits)

text \<open>What a body that succeeds leaves in the transaction's current version.\<close>

lemma delete_body_ok:
  assumes tx: "in_tx c st"
    and ok: "delete_body entity now u i (pg_ports entity env flt) c st = (None, st')"
  obtains row topic payload where "db_rows (hd (st_txs st)) i = Some row"
    "encode_event entity env (newDeletedEvent now u (Reconstitute row)) = Inr (topic, payload)"
    "hd (st_txs st') = insert_rows [(topic, payload, now)] ((hd (st_txs st))\<lparr>db_rows := (db_rows (hd (st_txs st)))(i := None)\<rparr>)"
proof -
  obtain n where n: "ctx_tx c = Some n" using tx by (auto simp: in_tx_def)
  obtain d ds where ds: "st_txs st = d # ds" using tx by (cases "st_txs st") (auto simp: in_tx_def)
  have ex: "getExecutor c = OnTx n" "exec_read (OnTx n) st = d" by (simp_all add: getExecutor_def n exec_read_def ds)
  from ok obtain a st1 where f: "pg_FindByID entity env c i st = Inr a"
    and del: "pg_Delete entity env c i st = (None, st1)"
    and disp: "pg_Dispatch entity env c (ag_events (Delete now u a)) st1 = (None, st')"
    by (auto simp: delete_body_def Let_def split: sum.splits prod.splits option.splits)
  obtain row where row: "db_rows d i = Some row" "a = Reconstitute row"
    using f ex by (auto simp: pg_FindByID_def split: option.splits)
  have st1: "st1 = exec_write (OnTx n) (\<lambda>d. d\<lparr>db_rows := (db_rows d)(i := None)\<rparr>) st"
    using del ex by (auto simp: pg_Delete_def Let_def split: option.splits if_splits)
  have ev: "ag_events (Delete now u a) = [newDeletedEvent now u (Reconstitute row)]"
    by (simp add: Delete_def addEvent_def row(2) Reconstitute_def)
  have at: "GetOccurredAt (newDeletedEvent now u (Reconstitute row)) = now"
    by (simp add: GetOccurredAt_def newDeletedEvent_def)
  from disp [unfolded ev] obtain topic payload where
    enc: "encode_event entity env (newDeletedEvent now u (Reconstitute row)) = Inr (topic, payload)"
    and st': "st' = exec_write (OnTx n) (insert_rows [(topic, payload, now)]) st1"
    by (auto simp: pg_Dispatch_def build_models_single ex at split: sum.splits option.splits prod.splits)
  show thesis
    by (rule that [of row topic payload]) (use row enc st' st1 ds in \<open>simp_all add: exec_write_def\<close>)
qed

lemma DeleteExecute_root:
  assumes c: "ctx_tx c = None"
    and d: "DeleteExecute entity now (pg_ports entity env flt) c i st = (r, st')"
  shows "case r of
      Some e \<Rightarrow> st' = st
    | None \<Rightarrow> \<exists>u row topic payload. ctx_user c = Some u \<and> 0 < i \<and> db_rows (st_committed st) i = Some row \<and>
        encode_event entity env (newDeletedEvent now u (Reconstitute row)) = Inr (topic, payload) \<and>
        st' = st\<lparr>st_committed := insert_rows [(topic, payload, now)]
                 ((st_committed st)\<lparr>db_rows := (db_rows (st_committed st))(i := None)\<rparr>)\<rparr>"
proof (cases "ctx_user c")
  case None
  then show ?thesis using d by (auto simp: DeleteExecute_def UserIDFromContext_def)
next
  case (Some u)
  show ?thesis
  proof (cases "0 < i")
    case False
    then show ?thesis using d Some by (auto simp: DeleteExecute_def UserIDFromContext_def ParseID_def)
  next
    case True
    let ?fn = "delete_body entity now u i (pg_ports entity env flt)"
    from d Some True obtain err where w: "WithTransaction flt c ?fn st = (err, st')"
      and r: "r = eris_wrap err ''uow execution failed''"
      by (auto simp: DeleteExecute_def UserIDFromContext_def ParseID_def split: prod.splits)
    show ?thesis
    proof (cases err)
      case (Some e)
      then show ?thesis using pg_delete.root(1) [OF c] w r by (auto simp: eris_wrap_def)
    next
      case None
      from pg_delete.root(2) [OF c w [unfolded None]] obtain st1 where
        fn: "?fn (c\<lparr>ctx_tx := Some 0\<rparr>) (begin_root st) = (None, st1)"
        and st': "st' = \<lparr>st_committed = hd (st_txs st1), st_txs = st_txs st\<rparr>" by blast
      have tx: "in_tx (c\<lparr>ctx_tx := Some 0\<rparr>) (begin_root st)" by (simp add: in_tx_def begin_root_def)
      have hd: "hd (st_txs (begin_root st)) = st_committed st" by (simp add: begin_root_def)
      show ?thesis
        by (rule delete_body_ok [OF tx fn]) (use None r Some True st' hd in \<open>auto simp: eris_wrap_def\<close>)
    qed
  qed
qed

end
