(* ===== verification/Slice_Inbound.thy ===== *)
theory Slice_Inbound
  imports Slice_Delete
begin

text \<open>
  The inbound adapters of a generated module (\<open>adapters/inbound/mapper\<close>, \<open>connect\<close>, \<open>inproc\<close>), the
  HTTP gateway of a gateway slice, and the delivery of a deleted row's event: from the committed
  outbox row to the bus.
\<close>

subsection \<open>Domain errors and Connect codes\<close>

text \<open>The error codes of the module's contract (generated from its proto files).\<close>

record error_codes =
  ec_NotFound :: int
  ec_InvalidID :: int
  ec_InvalidLabel :: int
  ec_GatewayUnavailable :: int

datatype shape = Aggregate | ReadModel | Gateway

definition errorCodes :: "error_codes \<Rightarrow> string \<Rightarrow> shape \<Rightarrow> (go_error, int) gomap" where
  "errorCodes ec entity sh =
     (if sh \<noteq> Gateway
      then [(ErrNotFound entity, ec_NotFound ec), (ErrInvalidID entity, ec_InvalidID ec)]
      else [(ErrGatewayUnavailable entity, ec_GatewayUnavailable ec)])
     @ [(ErrInvalidLabel entity, ec_InvalidLabel ec)]"

definition domainErrorFrom :: "go_error \<Rightarrow> (go_error, int) gomap \<Rightarrow> go_error option" where
  "domainErrorFrom err codes =
     map_option (\<lambda>(_, code). DomainError code (error_text err)) (find (\<lambda>(sentinel, _). errors_is err sentinel) codes)"

text \<open>\<open>DomainErrorFor\<close> once the slices have registered their tables before the marker.\<close>

fun DomainErrorFor :: "(go_error, int) gomap list \<Rightarrow> go_error \<Rightarrow> go_error" where
  "DomainErrorFor [] err = err"
| "DomainErrorFor (codes # rest) err =
     (case domainErrorFrom err codes of Some d \<Rightarrow> d | None \<Rightarrow> DomainErrorFor rest err)"

datatype code = CodeNotFound | CodeInvalidArgument | CodeUnavailable | CodeInternal

definition domainConnectCodeMap :: "error_codes \<Rightarrow> (int, code) gomap" where
  "domainConnectCodeMap ec = [(ec_NotFound ec, CodeNotFound), (ec_InvalidID ec, CodeInvalidArgument),
     (ec_InvalidLabel ec, CodeInvalidArgument), (ec_GatewayUnavailable ec, CodeUnavailable)]"

record connect_error =
  ce_code :: code
  ce_message :: string
  ce_detail :: "(int \<times> string) option"

definition connectErrorFrom ::
    "error_codes \<Rightarrow> (go_error, int) gomap list \<Rightarrow> (int \<times> string \<Rightarrow> bool) \<Rightarrow> go_error \<Rightarrow> connect_error" where
  "connectErrorFrom ec tables detailOk err =
     (case as_domain_error (DomainErrorFor tables err) of
        None \<Rightarrow> \<lparr>ce_code = CodeInternal, ce_message = error_text err, ce_detail = None\<rparr>
      | Some (dcode, msg) \<Rightarrow>
         \<lparr>ce_code = gm_get CodeInternal dcode (domainConnectCodeMap ec), ce_message = msg,
          ce_detail = (if detailOk (dcode, msg) then Some (dcode, msg) else None)\<rparr>)"

text \<open>The Connect handler and the in-process adapter of the delete operation.\<close>

definition handler_Delete ::
    "error_codes \<Rightarrow> (go_error, int) gomap list \<Rightarrow> (int \<times> string \<Rightarrow> bool) \<Rightarrow> string \<Rightarrow> time \<Rightarrow> 's delete_ports \<Rightarrow>
     ctx \<Rightarrow> int \<Rightarrow> 's \<Rightarrow> connect_error option \<times> 's" where
  "handler_Delete ec tables detailOk entity now ps c i s =
     (case svc_Delete entity now ps c i s of (err, s') \<Rightarrow> (map_option (connectErrorFrom ec tables detailOk) err, s'))"

definition inproc_Delete ::
    "(go_error, int) gomap list \<Rightarrow> string \<Rightarrow> time \<Rightarrow> 's delete_ports \<Rightarrow> ctx \<Rightarrow> int \<Rightarrow> 's \<Rightarrow> go_error option \<times> 's" where
  "inproc_Delete tables entity now ps c i s =
     (case svc_Delete entity now ps c i s of
        (err, s') \<Rightarrow> (map_option (\<lambda>e. Wrap (''delete '' @ entity) (DomainErrorFor tables e)) err, s'))"

text \<open>\<open>[[.Entity]]ToProto\<close>: the proto message has the fields of the memento.\<close>

definition ToProto :: "aggregate \<Rightarrow> Snapshot" where
  "ToProto a = \<lparr>sn_ID = ag_id a, sn_Label = lbl_value (ag_label a), sn_CreatedAt = ag_createdAt a, sn_UpdatedAt = ag_updatedAt a\<rparr>"

definition handler_Get ::
    "error_codes \<Rightarrow> (go_error, int) gomap list \<Rightarrow> (int \<times> string \<Rightarrow> bool) \<Rightarrow> string \<Rightarrow> 's delete_ports \<Rightarrow>
     ctx \<Rightarrow> int \<Rightarrow> 's \<Rightarrow> connect_error + Snapshot" where
  "handler_Get ec tables detailOk entity ps c i s =
     (case svc_Get entity ps c i s of Inl e \<Rightarrow> Inl (connectErrorFrom ec tables detailOk e)
      | Inr a \<Rightarrow> Inr (ToProto a))"

definition slice_tables :: "error_codes \<Rightarrow> (string \<times> shape) list \<Rightarrow> (go_error, int) gomap list" where
  "slice_tables ec slices = map (\<lambda>(entity, sh). errorCodes ec entity sh) slices"

definition codes_distinct :: "error_codes \<Rightarrow> bool" where
  "codes_distinct ec \<longleftrightarrow>
     distinct [ec_NotFound ec, ec_InvalidID ec, ec_InvalidLabel ec, ec_GatewayUnavailable ec]"

text \<open>An error that wraps a sentinel some slice registers is translated to that sentinel's code,
  whatever the order of the slices and of their tables.\<close>

lemma sentinel_keys:
  "(k, v) \<in> set (errorCodes ec entity sh) \<Longrightarrow> \<exists>t. k = Sentinel entity t"
  by (auto simp: errorCodes_def ErrNotFound_def ErrInvalidID_def ErrInvalidLabel_def ErrGatewayUnavailable_def
      split: if_splits)

lemma errorCodes_wf: "gm_wf (errorCodes ec entity sh)"
  using sentinels_distinct sentinels_distinct [symmetric] by (auto simp: errorCodes_def gm_wf_def)

lemma domainErrorFrom_Some:
  assumes "(k, v) \<in> set (errorCodes ec entity sh)" and "errors_is err k"
  shows "domainErrorFrom err (errorCodes ec entity sh) = Some (DomainError v (error_text err))"
proof -
  let ?t = "errorCodes ec entity sh"
  obtain x where x: "find (\<lambda>(s, _). errors_is err s) ?t = Some x"
    using assms by (cases "find (\<lambda>(s, _). errors_is err s) ?t") (auto simp: find_None_iff)
  then have xs: "x \<in> set ?t" "errors_is err (fst x)" by (auto dest: find_SomeD split: prod.splits)
  obtain k' v' where kv: "x = (k', v')" by (cases x)
  have "k' = k" using assms xs sentinel_keys errors_is_unique kv by (metis fst_conv)
  then have "v' = v" using xs(1) assms(1) errorCodes_wf [of ec entity sh] gm_get_in kv by metis
  with x kv show ?thesis by (simp add: domainErrorFrom_def)
qed

lemma domainErrorFrom_other:
  assumes "errors_is err (Sentinel p t)" and "\<And>v. (Sentinel p t, v) \<notin> set (errorCodes ec entity sh)"
  shows "domainErrorFrom err (errorCodes ec entity sh) = None"
proof -
  have "find (\<lambda>(s, _). errors_is err s) (errorCodes ec entity sh) = None"
    unfolding find_None_iff using assms sentinel_keys errors_is_unique by (metis case_prodE)
  then show ?thesis by (simp add: domainErrorFrom_def)
qed

lemma DomainErrorFor_slice:
  assumes "(k, v) \<in> set (errorCodes ec entity sh)" and "errors_is err k" and "(entity, sh) \<in> set slices"
    and "distinct (map fst slices)"
  shows "DomainErrorFor (slice_tables ec slices) err = DomainError v (error_text err)"
  using assms(3,4)
proof (induction slices)
  case (Cons s slices)
  obtain e' sh' where s: "s = (e', sh')" by (cases s)
  obtain t where t: "k = Sentinel entity t" using sentinel_keys [OF assms(1)] by blast
  show ?case
  proof (cases "e' = entity")
    case True
    then have "sh' = sh" using Cons.prems s by (auto simp: rev_image_eqI)
    with True domainErrorFrom_Some [OF assms(1,2)] show ?thesis by (simp add: slice_tables_def s)
  next
    case False
    have "domainErrorFrom err (errorCodes ec e' sh') = None"
      by (rule domainErrorFrom_other [OF assms(2) [unfolded t]]) (use False sentinel_keys in blast)
    then show ?thesis using Cons s False by (auto simp: slice_tables_def)
  qed
qed simp

lemma connectErrorFrom_slice:
  assumes "(k, v) \<in> set (errorCodes ec entity sh)" and "errors_is err k" and "(entity, sh) \<in> set slices"
    and "distinct (map fst slices)"
  shows "ce_code (connectErrorFrom ec (slice_tables ec slices) ok err) = gm_get CodeInternal v (domainConnectCodeMap ec)
    \<and> ce_message (connectErrorFrom ec (slice_tables ec slices) ok err) = error_text err"
  by (simp add: connectErrorFrom_def DomainErrorFor_slice [OF assms])

subsection \<open>The HTTP gateway\<close>

text \<open>\<open>do\<close>: the request carries the bearer token only when there is one.\<close>

record http_request =
  hr_method :: string
  hr_url :: string
  hr_body :: string
  hr_auth :: "string option"

definition gw_request :: "string \<Rightarrow> string \<Rightarrow> string \<Rightarrow> string option \<Rightarrow> http_request" where
  "gw_request url token method payload =
     \<lparr>hr_method = method, hr_url = url, hr_body = (case payload of None \<Rightarrow> [] | Some p \<Rightarrow> p),
      hr_auth = (if token \<noteq> [] then Some (''Bearer '' @ token) else None)\<rparr>"

definition gw_do ::
    "string \<Rightarrow> (http_request \<Rightarrow> string + int) \<Rightarrow> string option \<Rightarrow> string \<Rightarrow> string \<Rightarrow> string \<Rightarrow> string option \<Rightarrow> go_error + int" where
  "gw_do entity client newReq url token method payload =
     (case newReq of Some e \<Rightarrow> Inl (Wrap ''building provider request'' (Opaque e))
      | None \<Rightarrow> (case client (gw_request url token method payload) of
           Inl e \<Rightarrow> Inl (Wrap (''calling provider: '' @ e) (ErrGatewayUnavailable entity))
         | Inr status \<Rightarrow> Inr status))"

definition gw_Send ::
    "string \<Rightarrow> (http_request \<Rightarrow> string + int) \<Rightarrow> string option \<Rightarrow> (string \<Rightarrow> go_error + string) \<Rightarrow> string \<Rightarrow> string \<Rightarrow>
     gmessage \<Rightarrow> go_error option" where
  "gw_Send entity client newReq marshal url token a =
     (case marshal (lbl_value (gm_label a)) of Inl e \<Rightarrow> Some (Wrap (''encoding '' @ entity) e)
      | Inr payload \<Rightarrow>
         (case gw_do entity client newReq url token ''POST'' (Some payload) of Inl e \<Rightarrow> Some e
          | Inr status \<Rightarrow>
             (if status < 200 \<or> 299 < status
              then Some (Wrap (''provider answered '' @ itoa status) (ErrGatewayUnavailable entity)) else None)))"

definition gw_Health ::
    "string \<Rightarrow> (http_request \<Rightarrow> string + int) \<Rightarrow> string option \<Rightarrow> string \<Rightarrow> string \<Rightarrow> go_error + int" where
  "gw_Health entity client newReq url token =
     (case gw_do entity client newReq url token ''GET'' None of Inl e \<Rightarrow> Inl e
      | Inr status \<Rightarrow>
         (if 500 \<le> status then Inl (Wrap (''provider answered '' @ itoa status) (ErrGatewayUnavailable entity))
          else Inr status))"

subsection \<open>Token validation\<close>

record token_response =
  tr_IsValid :: bool
  tr_UserId :: string
  tr_RenewedToken :: string

record TokenValidation =
  tv_UserID :: uuid
  tv_RenewedToken :: string

definition NewTokenValidator ::
    "(string \<Rightarrow> go_error + token_response) \<Rightarrow> (string \<Rightarrow> go_error + uuid) \<Rightarrow> string \<Rightarrow> go_error + TokenValidation" where
  "NewTokenValidator svc uuidParse token =
     (case svc token of Inl e \<Rightarrow> Inl e
      | Inr resp \<Rightarrow>
         (if \<not> tr_IsValid resp then Inl (Opaque ''token is invalid or expired'')
          else (case uuidParse (tr_UserId resp) of Inl e \<Rightarrow> Inl e
            | Inr u \<Rightarrow> Inr \<lparr>tv_UserID = u, tv_RenewedToken = tr_RenewedToken resp\<rparr>)))"

subsection \<open>From the deleted row to the bus\<close>

definition outbox_wf :: "slice_db \<Rightarrow> bool" where
  "outbox_wf d \<longleftrightarrow> distinct (map oe_id (db_outbox d)) \<and> (\<forall>e \<in> set (db_outbox d). oe_id e < db_nextEvent d)"

lemma outbox_wf_insert_one: "outbox_wf d \<Longrightarrow> outbox_wf (insert_rows [(t, p, a)] d)"
  by (auto simp: outbox_wf_def insert_rows_def)

lemma drained_sent:
  assumes "sent st" and "length (pending st) \<le> n * batchLimit" and "e \<in> set (ob_table st)"
  shows "message_of e \<in> set (ob_bus (ticks n st))"
proof -
  have steps: "relay_steps (Running, st) (Running, ticks n st)" by (rule ticks_reachable)
  have d: "distinct (map oe_id (ob_table st))" using assms(1) by (simp add: sent_def)
  have "length (pending (ticks n st)) = 0" using ticks_pending [OF d, of n] assms(2) by simp
  then have all: "\<forall>e \<in> set (ob_table (ticks n st)). oe_published e" by (simp add: pending_def filter_empty_conv)
  from relay_steps_keeps [OF steps] have
    k: "list_all2 same_event (ob_table st) (take (length (ob_table st)) (ob_table (ticks n st)))"
    by (auto simp: keeps_def)
  from assms(3) obtain i where i: "i < length (ob_table st)" "ob_table st ! i = e" by (auto simp: in_set_conv_nth)
  let ?e = "take (length (ob_table st)) (ob_table (ticks n st)) ! i"
  have same: "same_event e ?e" using k i by (auto simp: list_all2_conv_all_nth)
  have "?e \<in> set (ob_table (ticks n st))"
    using k i by (metis in_set_takeD list_all2_lengthD nth_mem)
  then have "message_of ?e \<in> set (ob_bus (ticks n st))"
    using all relay_steps_sent [OF steps] assms(1) by (simp add: sent_def)
  then show ?thesis using same by (simp add: same_event_def)
qed

end
