(* ===== verification/Props_Modules.thy ===== *)
theory Props_Modules
  imports Slice_Inbound
begin

text \<open>The properties of the outbox relay, the unit of work and the generated slices.\<close>

subsection \<open>The relay\<close>

text \<open>
  Claim C4. At-least-once delivery, for every interleaving of ticks (each with any failure at any
  point), inserts and the shutdown: a row of the outbox that is marked as published has its message
  on the bus, no row is lost or altered, a row once published stays so, and what the bus has
  received is never taken back.
\<close>

theorem relay_at_least_once:
  assumes "relay_steps (w, st) (w', st')" and "distinct (map oe_id (ob_table st))"
    and "\<forall>e \<in> set (ob_table st). oe_published e \<longrightarrow> message_of e \<in> set (ob_bus st)"
  shows "(\<forall>e \<in> set (ob_table st'). oe_published e \<longrightarrow> message_of e \<in> set (ob_bus st')) \<and>
    list_all2 same_event (ob_table st) (take (length (ob_table st)) (ob_table st')) \<and>
    (\<exists>ms. ob_bus st' = ob_bus st @ ms)"
  using relay_steps_sent [OF assms(1)] relay_steps_keeps [OF assms(1)] assms(2,3)
  by (auto simp: sent_def keeps_def)

definition ex_event :: "int \<Rightarrow> nat \<Rightarrow> oevent" where
  "ex_event i t = \<lparr>oe_id = i, oe_type = ''a.deleted'', oe_payload = show_nat t, oe_occurred = t, oe_published = False\<rparr>"

definition ex_outbox :: outbox where
  "ex_outbox = \<lparr>ob_table = [ex_event 1 7, ex_event 2 5], ob_bus = []\<rparr>"

theorem relay_at_least_once_witness:
  "\<exists>st' e. relay_steps (Running, ex_outbox) (Running, st') \<and> e \<in> set (ob_table st') \<and> oe_published e \<and>
    message_of e \<in> set (ob_bus st')"
proof -
  have s: "relay_steps (Running, ex_outbox) (Running, ticks 1 ex_outbox)" by (rule ticks_reachable)
  have "\<forall>e \<in> set (ob_table (ticks 1 ex_outbox)). oe_published e \<longrightarrow> message_of e \<in> set (ob_bus (ticks 1 ex_outbox))"
    using relay_at_least_once [OF s] by (simp add: ex_outbox_def ex_event_def)
  moreover have "list_ex oe_published (ob_table (ticks 1 ex_outbox))" by code_simp
  ultimately show ?thesis using s by (auto simp: list_ex_iff)
qed

text \<open>
  Claim C31. What one batch does when nothing fails and no other worker holds rows: it publishes the
  pending events in the order they occurred, at most one hundred, marks exactly those, and reports
  success.
\<close>

theorem batch_in_order:
  "let sel = take 100 (sort_key oe_occurred (filter (\<lambda>e. \<not> oe_published e) (ob_table st))) in
   processBatch no_faults st =
     (None, \<lparr>ob_table = map (\<lambda>e. if oe_id e \<in> oe_id ` set sel then e\<lparr>oe_published := True\<rparr> else e) (ob_table st),
            ob_bus = ob_bus st @ map message_of sel\<rparr>)"
  by (simp add: Let_def processBatch_no_faults pending_def batchLimit_def mark_published_def)

text \<open>
  A failing batch changes no row: whatever fails (opening the transaction, the query, a row,
  a publication, the update or the commit), the table is what it was, so every row stays pending and
  the next tick retries it.
\<close>

theorem failed_batch_keeps_rows:
  assumes "processBatch env st = (Some e, st')"
  shows "ob_table st' = ob_table st \<and> (\<exists>ms. ob_bus st' = ob_bus st @ ms)"
  by (cases rule: processBatch_cases [of env st]) (use assms in auto)

definition ex_fault :: batch_env where
  "ex_fault = no_faults\<lparr>be_publish := (\<lambda>i. if i = 1 then Some ''bus down'' else None)\<rparr>"

lemma ex_failed: "processBatch ex_fault ex_outbox = (Some (PublishEvent ''bus down''), ex_outbox\<lparr>ob_bus := [(''a.deleted'', ''5'')]\<rparr>)"
  by code_simp

theorem failed_batch_keeps_rows_witness:
  "ob_table (ex_outbox\<lparr>ob_bus := [(''a.deleted'', ''5'')]\<rparr>) = ob_table ex_outbox \<and>
    (\<exists>ms. ob_bus (ex_outbox\<lparr>ob_bus := [(''a.deleted'', ''5'')]\<rparr>) = ob_bus ex_outbox @ ms)"
  by (rule failed_batch_keeps_rows [OF ex_failed])

text \<open>
  Claim C30. The relay drains: with n pending rows and no failure, after \<open>\<lceil>n / 100\<rceil>\<close> ticks, a state the
  worker does reach, no row is pending.
\<close>

theorem relay_drains:
  assumes "distinct (map oe_id (ob_table st))" and "length (pending st) \<le> n * 100"
  shows "relay_steps (Running, st) (Running, ticks n st) \<and> pending (ticks n st) = []"
  using ticks_pending [OF assms(1), of n] assms(2) ticks_reachable by (simp add: batchLimit_def)

theorem relay_drains_witness:
  "relay_steps (Running, ex_outbox) (Running, ticks 1 ex_outbox) \<and> pending (ticks 1 ex_outbox) = []"
  by (rule relay_drains) (simp_all add: ex_outbox_def ex_event_def pending_def)

text \<open>
  The table name the relay splices into its SQL is one or two plain names: exactly the
  non-empty strings of lower-case letters, digits and underscores, with at most one dot inside. No
  quote, blank or semicolon can reach the query.
\<close>

theorem relay_table_name:
  "(\<exists>r. NewEventsRelay t = Inr r) \<longleftrightarrow>
   (t \<noteq> [] \<and> list_all name_char t) \<or>
   (\<exists>a b. t = a @ ''.'' @ b \<and> a \<noteq> [] \<and> b \<noteq> [] \<and> list_all name_char a \<and> list_all name_char b)"
proof -
  have "(\<exists>r. NewEventsRelay t = Inr r) \<longleftrightarrow> matchTableName t" by (simp add: NewEventsRelay_def)
  then show ?thesis unfolding matchTableName_iff re_plus_def by blast
qed

subsection \<open>The unit of work\<close>


definition ex_topics :: "(string, string) gomap" where
  "ex_topics = [(''account.deleted'', ''crm.account.deleted'')]"

definition ex_dbenv :: db_env where
  "ex_dbenv = \<lparr>dv_select = None, dv_delete = None, dv_insert = None, dv_topics = ex_topics,
     dv_toProto = (\<lambda>_. None), dv_protojson = Inr, dv_json = (\<lambda>e. Inr (GetAggregateID e))\<rparr>"

definition ex_flt :: tx_faults where
  "ex_flt = \<lparr>tf_begin = None, tf_commit = None\<rparr>"

definition ex_ctx :: ctx where
  "ex_ctx = \<lparr>ctx_user = Some ''u1'', ctx_tx = None\<rparr>"

definition ex_row :: Snapshot where
  "ex_row = \<lparr>sn_ID = 3, sn_Label = ''acme'', sn_CreatedAt = 1, sn_UpdatedAt = 2\<rparr>"

definition ex_db :: slice_db where
  "ex_db = \<lparr>db_rows = [3 \<mapsto> ex_row], db_outbox = [], db_nextEvent = 1\<rparr>"

definition ex_store :: "slice_db store" where
  "ex_store = \<lparr>st_committed = ex_db, st_txs = []\<rparr>"


subsection \<open>The delete use case\<close>

text \<open>
  Claim C2. Deleting is atomic with its event: the command either fails and changes nothing at all,
  or it has removed exactly the row with that identifier, which existed, and appended exactly one
  unpublished row to the outbox, with the topic and the payload of the Deleted event of that row for
  the authenticated user. The event is published if and only if the row is gone.
\<close>

theorem delete_atomic:
  assumes "ctx_tx c = None"
    and "DeleteExecute entity now (pg_ports entity env flt) c i st = (r, st')"
  shows "case r of
      Some e \<Rightarrow> st' = st
    | None \<Rightarrow> \<exists>u row topic payload. ctx_user c = Some u \<and> 0 < i \<and> db_rows (st_committed st) i = Some row \<and>
        encode_event entity env (newDeletedEvent now u (Reconstitute row)) = Inr (topic, payload) \<and>
        db_rows (st_committed st') = (db_rows (st_committed st))(i := None) \<and>
        db_outbox (st_committed st') = db_outbox (st_committed st) @
          [\<lparr>oe_id = db_nextEvent (st_committed st), oe_type = topic, oe_payload = payload, oe_occurred = now, oe_published = False\<rparr>] \<and>
        st_txs st' = st_txs st"
  using DeleteExecute_root [OF assms] by (cases r) (fastforce simp: insert_rows_def)+

lemma ex_delete: "fst (DeleteExecute ''account'' 9 (pg_ports ''account'' ex_dbenv ex_flt) ex_ctx 3 ex_store) = None"
  by code_simp

theorem delete_atomic_witness:
  "\<exists>st'. DeleteExecute ''account'' 9 (pg_ports ''account'' ex_dbenv ex_flt) ex_ctx 3 ex_store = (None, st') \<and>
    db_rows (st_committed st') = (db_rows ex_db)(3 := None) \<and> length (db_outbox (st_committed st')) = 1"
proof -
  obtain st' where d: "DeleteExecute ''account'' 9 (pg_ports ''account'' ex_dbenv ex_flt) ex_ctx 3 ex_store = (None, st')"
    using ex_delete by (metis prod.collapse)
  from delete_atomic [OF _ d] d show ?thesis by (auto simp: ex_ctx_def ex_store_def ex_db_def)
qed

text \<open>
  Both implementations of the repository port, the Postgres one and the in-memory one the
  tests use, keep the same contract: after a successful delete the row cannot be found, deleting it
  again fails, and no other row changes, whether the delete succeeded or not.
\<close>

theorem repositories_agree:
  assumes "pg_Delete entity env c i st = (r, st')" and "mem_Delete entity c i m = (r2, m')" and "j \<noteq> i"
  shows "(r = None \<longrightarrow> (\<exists>e. pg_FindByID entity env c i st' = Inl e) \<and> fst (pg_Delete entity env c i st') \<noteq> None) \<and>
    pg_view c st' j = pg_view c st j \<and>
    (r2 = None \<longrightarrow> (\<exists>e. mem_FindByID entity c i m' = Inl e) \<and> fst (mem_Delete entity c i m') \<noteq> None) \<and>
    mem_view c m' j = mem_view c m j"
proof (intro conjI impI)
  show "\<exists>e. pg_FindByID entity env c i st' = Inl e" "fst (pg_Delete entity env c i st') \<noteq> None" if "r = None"
    using pg.find_after_delete [OF assms(1) [unfolded that]] pg.delete_once [OF assms(1) [unfolded that]] .
  show "\<exists>e. mem_FindByID entity c i m' = Inl e" "fst (mem_Delete entity c i m') \<noteq> None" if "r2 = None"
    using memory.find_after_delete [OF assms(2) [unfolded that]] memory.delete_once [OF assms(2) [unfolded that]] .
  show "pg_view c st' j = pg_view c st j" by (rule pg.delete_others [OF assms(1,3)])
  show "mem_view c m' j = mem_view c m j" by (rule memory.delete_others [OF assms(2,3)])
qed

definition ex_mem :: mem where
  "ex_mem = mem_Seed (Reconstitute ex_row) \<lparr>mem_items = Map.empty, mem_events = []\<rparr>"

theorem repositories_agree_witness:
  "\<exists>st' m'. pg_Delete ''account'' ex_dbenv ex_ctx 3 ex_store = (None, st') \<and> mem_Delete ''account'' ex_ctx 3 ex_mem = (None, m') \<and>
    pg_view ex_ctx st' 4 = pg_view ex_ctx ex_store 4 \<and> mem_view ex_ctx m' 4 = mem_view ex_ctx ex_mem 4"
proof -
  have "fst (pg_Delete ''account'' ex_dbenv ex_ctx 3 ex_store) = None" "fst (mem_Delete ''account'' ex_ctx 3 ex_mem) = None"
    by code_simp+
  then obtain st' m' where "pg_Delete ''account'' ex_dbenv ex_ctx 3 ex_store = (None, st')"
    "mem_Delete ''account'' ex_ctx 3 ex_mem = (None, m')" by (metis prod.collapse)
  with repositories_agree [OF this, of 4] show ?thesis by auto
qed

text \<open>
  The aggregate and its memento lose nothing: a snapshot rebuilt and taken again is the same
  snapshot, and an aggregate stored and rebuilt differs only in its pending events, which are empty.
\<close>

theorem snapshot_lossless:
  "toSnapshot (Reconstitute s) = s \<and> Reconstitute (toSnapshot a) = a\<lparr>ag_events := []\<rparr>"
  by (simp add: snapshot_roundtrip reconstitute_roundtrip ClearEvents_def)

subsection \<open>The send use case\<close>

text \<open>
  Claim C32. A message is announced only after the provider accepted it: when the send command
  succeeds, the user was authenticated, the label has between 1 and 200 characters, the gateway
  accepted the message, and the publisher was then given exactly one Sent event; when the gateway
  refuses, nothing is published.
\<close>

theorem send_after_acceptance:
  assumes "SendExecute entity now ps c label s = (r, s')"
  shows "(r = None \<longrightarrow> (\<exists>u s1. ctx_user c = Some u \<and> label \<noteq> [] \<and> runeCount label \<le> 200 \<and>
      p_send ps c \<lparr>gm_label = \<lparr>lbl_value = label\<rparr>, gm_events = []\<rparr> s = (None, s1) \<and>
      p_publish ps c [Sent \<lparr>be_AggregateID = label, be_UserID = u, be_OccurredAt = now\<rparr> label] s1 = (None, s'))) \<and>
    (\<forall>e s1. p_send ps c \<lparr>gm_label = \<lparr>lbl_value = label\<rparr>, gm_events = []\<rparr> s = (Some e, s1) \<longrightarrow> r \<noteq> None \<and> s' \<in> {s, s1})"
  using assms
  by (auto simp: SendExecute_def UserIDFromContext_def NewLabel_def NewMessage_def MarkSent_def newSentEvent_def
      LabelMaxLen_def Let_def split: option.splits sum.splits if_splits prod.splits)

theorem send_after_acceptance_witness:
  "let ps = \<lparr>p_send = (\<lambda>_ a s. (None, s @ [lbl_value (gm_label a)])), p_publish = (\<lambda>_ es s. (None, s @ map GetAggregateID es))\<rparr> in
   SendExecute ''mail'' 9 ps ex_ctx ''hi'' [] = (None, [''hi'', ''hi'']) \<and> runeCount ''hi'' \<le> 200"
proof -
  let ?ps = "\<lparr>p_send = (\<lambda>_ a s. (None, s @ [lbl_value (gm_label a)])), p_publish = (\<lambda>_ es s. (None, s @ map GetAggregateID es))\<rparr>"
  have d: "SendExecute ''mail'' 9 ?ps ex_ctx ''hi'' [] = (None, [''hi'', ''hi''])" by code_simp
  from send_after_acceptance [OF d] d show ?thesis by auto
qed

subsection \<open>Errors at the boundary\<close>

text \<open>
  Claim C29. Every domain error of a slice reaches the client as its Connect status, however many times
  it was wrapped on the way and in whatever order the slices registered: not found as not_found, a
  bad identifier or label as invalid_argument, an unavailable gateway as unavailable; and any error
  that wraps none of the registered sentinels is internal.
\<close>

theorem connect_status:
  assumes "distinct (map fst slices)" and "(entity, sh) \<in> set slices" and "codes_distinct ec"
  shows "(sh \<noteq> Gateway \<longrightarrow> errors_is err (ErrNotFound entity) \<longrightarrow>
       ce_code (connectErrorFrom ec (slice_tables ec slices) ok err) = CodeNotFound) \<and>
    (sh \<noteq> Gateway \<longrightarrow> errors_is err (ErrInvalidID entity) \<longrightarrow>
       ce_code (connectErrorFrom ec (slice_tables ec slices) ok err) = CodeInvalidArgument) \<and>
    (errors_is err (ErrInvalidLabel entity) \<longrightarrow>
       ce_code (connectErrorFrom ec (slice_tables ec slices) ok err) = CodeInvalidArgument) \<and>
    (sh = Gateway \<longrightarrow> errors_is err (ErrGatewayUnavailable entity) \<longrightarrow>
       ce_code (connectErrorFrom ec (slice_tables ec slices) ok err) = CodeUnavailable) \<and>
    (as_domain_error err = None \<longrightarrow> (\<forall>t \<in> set (slice_tables ec slices). \<forall>(k, _) \<in> set t. \<not> errors_is err k) \<longrightarrow>
       ce_code (connectErrorFrom ec (slice_tables ec slices) ok err) = CodeInternal)"
proof -
  let ?code = "\<lambda>err. ce_code (connectErrorFrom ec (slice_tables ec slices) ok err)"
  have code: "?code err = gm_get CodeInternal v (domainConnectCodeMap ec)"
    if "(k, v) \<in> set (errorCodes ec entity sh)" "errors_is err k" for k v
    using connectErrorFrom_slice [OF that assms(2,1), of ok] by blast
  have get: "gm_get CodeInternal (ec_NotFound ec) (domainConnectCodeMap ec) = CodeNotFound"
    "gm_get CodeInternal (ec_InvalidID ec) (domainConnectCodeMap ec) = CodeInvalidArgument"
    "gm_get CodeInternal (ec_InvalidLabel ec) (domainConnectCodeMap ec) = CodeInvalidArgument"
    "gm_get CodeInternal (ec_GatewayUnavailable ec) (domainConnectCodeMap ec) = CodeUnavailable"
    using assms(3) by (auto simp: gm_get_def domainConnectCodeMap_def codes_distinct_def)
  have none: "DomainErrorFor ts err = err" if "\<forall>t \<in> set ts. \<forall>(k, _) \<in> set t. \<not> errors_is err k" for ts
    using that by (induction ts) (auto simp: domainErrorFrom_def split: option.splits dest!: find_SomeD)
  show ?thesis
  proof (intro conjI impI)
    show "?code err = CodeNotFound" if "sh \<noteq> Gateway" "errors_is err (ErrNotFound entity)"
      using code [OF _ that(2), of "ec_NotFound ec"] that(1) get by (simp add: errorCodes_def)
    show "?code err = CodeInvalidArgument" if "sh \<noteq> Gateway" "errors_is err (ErrInvalidID entity)"
      using code [OF _ that(2), of "ec_InvalidID ec"] that(1) get by (simp add: errorCodes_def)
    show "?code err = CodeInvalidArgument" if "errors_is err (ErrInvalidLabel entity)"
      using code [OF _ that, of "ec_InvalidLabel ec"] get by (simp add: errorCodes_def)
    show "?code err = CodeUnavailable" if "sh = Gateway" "errors_is err (ErrGatewayUnavailable entity)"
      using code [OF _ that(2), of "ec_GatewayUnavailable ec"] that(1) get by (simp add: errorCodes_def)
    show "?code err = CodeInternal"
      if "as_domain_error err = None" "\<forall>t \<in> set (slice_tables ec slices). \<forall>(k, _) \<in> set t. \<not> errors_is err k"
      using that none [OF that(2)] by (simp add: connectErrorFrom_def)
  qed
qed

definition ex_ec :: error_codes where
  "ex_ec = \<lparr>ec_NotFound = 1, ec_InvalidID = 2, ec_InvalidLabel = 3, ec_GatewayUnavailable = 4\<rparr>"

theorem connect_status_witness:
  "ce_code (connectErrorFrom ex_ec (slice_tables ex_ec [(''mail'', Gateway), (''account'', Aggregate)]) (\<lambda>_. True)
     (Wrap ''get account'' (Wrap ''finding account'' (ErrNotFound ''account'')))) = CodeNotFound"
proof -
  have "errors_is (Wrap ''get account'' (Wrap ''finding account'' (ErrNotFound ''account''))) (ErrNotFound ''account'')"
    by (simp add: ErrNotFound_def)
  then show ?thesis
    using connect_status [of "[(''mail'', Gateway), (''account'', Aggregate)]" "''account''" Aggregate ex_ec
        "Wrap ''get account'' (Wrap ''finding account'' (ErrNotFound ''account''))" "\<lambda>_. True"]
    by (simp add: codes_distinct_def ex_ec_def)
qed

end
