(* ===== verification/Checks_Files.thy ===== *)
theory Checks_Files
  imports Go_Path
begin

text \<open>
  \<open>internal/pkg/checks\<close>: \<open>checker.go\<close>, \<open>files.go\<close> and \<open>generated.go\<close>. \<open>bufio.Scanner\<close> with its line
  splitter is modelled with the line length its buffer can hold; the file system is a function
  from paths to nodes. The interface between a check and its fix is the locale \<open>fixer\<close>.
\<close>

subsection \<open>Results\<close>

record Violation =
  v_File :: string
  v_Line :: nat
  v_Message :: string

record Result =
  res_CheckerName :: string
  res_Violations :: "Violation list"
  res_failed :: bool

definition HasViolations :: "Result \<Rightarrow> bool" where
  "HasViolations r = (res_Violations r \<noteq> [] \<or> res_failed r)"

definition withFailed :: "Result \<Rightarrow> Result" where
  "withFailed r = r\<lparr>res_failed := True\<rparr>"

subsection \<open>Lines\<close>

definition LF :: char where
  "LF = CHR 0x0A"

definition CR :: char where
  "CR = CHR 0x0D"

definition maxLineBufBytes :: nat where
  "maxLineBufBytes = 1024 * 1024"

definition dropCR :: "string \<Rightarrow> string" where
  "dropCR l = (if l \<noteq> [] \<and> last l = CR then butlast l else l)"

text \<open>The lines of a text: what follows the last newline is a line only when it is not empty.\<close>

definition raw_lines :: "string \<Rightarrow> string list" where
  "raw_lines s = (let ls = split_on LF s in if last ls = [] then butlast ls else ls)"

definition line_fits :: "string \<Rightarrow> bool" where
  "line_fits l = (length l < maxLineBufBytes)"

text \<open>The tokens the scanner returns, and whether it stopped at a line its buffer cannot hold.\<close>

definition scan_lines :: "string \<Rightarrow> string list \<times> bool" where
  "scan_lines s = (map dropCR (takeWhile line_fits (raw_lines s)), \<not> list_all line_fits (raw_lines s))"

subsection \<open>files.go\<close>

definition maxFileSize :: nat where
  "maxFileSize = 512000"

definition sizeExemptNames :: "string list" where
  "sizeExemptNames =
     [''package-lock.json'', ''npm-shrinkwrap.json'', ''pnpm-lock.yaml'', ''yarn.lock'', ''bun.lock'', ''go.sum'',
      ''Cargo.lock'', ''Gemfile.lock'', ''poetry.lock'', ''uv.lock'', ''composer.lock'']"

definition isSizeExempt :: "string \<Rightarrow> bool" where
  "isSizeExempt path = (path_base path \<in> set sizeExemptNames)"

definition binarySniffLen :: nat where
  "binarySniffLen = 8000"

definition isBinary :: "string \<Rightarrow> bool" where
  "isBinary data = (CHR 0x00 \<in> set (take (min (length data) binarySniffLen) data))"

text \<open>What a path is: missing, a directory, a file with its permission bits, or a file that
  \<open>Stat\<close> sees (with its size) and \<open>ReadFile\<close> cannot read.\<close>

datatype node = Missing string | Directory | File string nat | Unreadable nat string

type_synonym fsys = "string \<Rightarrow> node"

datatype file_err = StatErr string string | ReadErr string string | ScanErr string | WriteErr string string

definition blanks :: string where
  "blanks = [CHR '' '', CHR 0x09]"

definition line_violations :: "string \<Rightarrow> string list \<Rightarrow> Violation list" where
  "line_violations path ls =
     map (\<lambda>(i, l). \<lparr>v_File = path, v_Line = Suc i, v_Message = ''trailing whitespace''\<rparr>)
       (filter (\<lambda>(i, l). trimRight l blanks \<noteq> l) (indexed ls))"

definition eof_violation :: "string \<Rightarrow> string \<Rightarrow> Violation list" where
  "eof_violation path data =
     (if data \<noteq> [] \<and> last data \<noteq> LF
      then [\<lparr>v_File = path, v_Line = 0, v_Message = ''missing newline at end of file''\<rparr>] else [])"

definition size_violation :: "string \<Rightarrow> nat \<Rightarrow> Violation" where
  "size_violation path n = \<lparr>v_File = path, v_Line = 0,
     v_Message = ''file size '' @ show_nat n @ '' bytes exceeds 500 KB limit''\<rparr>"

definition too_big :: "string \<Rightarrow> nat \<Rightarrow> bool" where
  "too_big path n = (maxFileSize < n \<and> \<not> isSizeExempt path)"

definition check_data :: "string \<Rightarrow> string \<Rightarrow> file_err + Violation list" where
  "check_data path data =
     (if too_big path (length data) then Inr [size_violation path (length data)]
      else if isBinary data then Inr []
      else (case scan_lines data of (ls, tooLong) \<Rightarrow>
        if tooLong then Inl (ScanErr path) else Inr (line_violations path ls @ eof_violation path data)))"

definition checkFileContent :: "fsys \<Rightarrow> string \<Rightarrow> file_err + Violation list" where
  "checkFileContent fs path =
     (case fs path of Missing e \<Rightarrow> Inl (StatErr path e)
      | Directory \<Rightarrow> Inr []
      | Unreadable n e \<Rightarrow> (if too_big path n then Inr [size_violation path n] else Inl (ReadErr path e))
      | File data _ \<Rightarrow> check_data path data)"

definition fix_text :: "string list \<Rightarrow> string" where
  "fix_text ls = concat (map (\<lambda>l. trimRight l blanks @ [LF]) ls)"

text \<open>\<open>writeErr\<close>: whether writing the file fails.\<close>

definition fixFileContent :: "(string \<Rightarrow> string option) \<Rightarrow> fsys \<Rightarrow> string \<Rightarrow> file_err + fsys" where
  "fixFileContent writeErr fs path =
     (case fs path of Missing e \<Rightarrow> Inl (StatErr path e)
      | Directory \<Rightarrow> Inr fs
      | Unreadable n e \<Rightarrow> (if too_big path n then Inr fs else Inl (ReadErr path e))
      | File data mode \<Rightarrow>
         (if too_big path (length data) then Inr fs
          else if isBinary data then Inr fs
          else (case scan_lines data of (ls, tooLong) \<Rightarrow>
            if tooLong then Inl (ScanErr path)
            else (case writeErr path of Some e \<Rightarrow> Inl (WriteErr path e)
              | None \<Rightarrow> Inr (fs(path := File (fix_text ls) mode))))))"

text \<open>The checker and its fixer over the files selected.\<close>

definition files_Check :: "fsys \<Rightarrow> string list \<Rightarrow> file_err + Result" where
  "files_Check fs files =
     (case foldM (\<lambda>vs path. case checkFileContent fs path of Inl e \<Rightarrow> Inl e | Inr ws \<Rightarrow> Inr (vs @ ws)) [] files of
        Inl e \<Rightarrow> Inl e
      | Inr vs \<Rightarrow> Inr \<lparr>res_CheckerName = ''files'', res_Violations = vs, res_failed = False\<rparr>)"

definition files_Fix :: "(string \<Rightarrow> string option) \<Rightarrow> fsys \<Rightarrow> string list \<Rightarrow> file_err + fsys" where
  "files_Fix writeErr fs files = foldM (fixFileContent writeErr) fs files"

text \<open>Evaluation compares the large bounds in binary.\<close>

lemma line_fits_code [code]: "line_fits l = (int (length l) < 1048576)"
  by (simp add: line_fits_def maxLineBufBytes_def)

lemma too_big_code [code]: "too_big path n = (512000 < int n \<and> \<not> isSizeExempt path)"
  by (simp add: too_big_def maxFileSize_def)

lemma isBinary_code [code]:
  "isBinary data = (CHR 0x00 \<in> set (if int (length data) \<le> 8000 then data else take 8000 data))"
  by (auto simp: isBinary_def binarySniffLen_def min_def)

subsection \<open>The contract of a fix\<close>

locale fixer =
  fixes fixable :: "'f \<Rightarrow> bool" and clean :: "'f \<Rightarrow> bool" and fix_one :: "'f \<Rightarrow> 'f"
  assumes fix_clean: "fixable x \<Longrightarrow> clean (fix_one x)"
    and fix_fixable: "fixable x \<Longrightarrow> fixable (fix_one x)"
    and clean_fix: "fixable x \<Longrightarrow> clean x \<Longrightarrow> fix_one x = x"
begin

lemma fix_idem: "fixable x \<Longrightarrow> fix_one (fix_one x) = fix_one x"
  by (simp add: fix_clean fix_fixable clean_fix)

lemma clean_iff: "fixable x \<Longrightarrow> clean x \<longleftrightarrow> fix_one x = x"
  using fix_clean [of x] clean_fix [of x] by auto

end

subsection \<open>Lines of a fixed text\<close>

lemma concat_lines: "concat (map (\<lambda>l. l @ [LF]) ls) = (if ls = [] then [] else join [LF] (ls @ [[]]))"
  by (induction ls) (auto simp: join_Cons)

lemma raw_lines_concat:
  assumes "\<And>l. l \<in> set ls \<Longrightarrow> LF \<notin> set l"
  shows "raw_lines (concat (map (\<lambda>l. l @ [LF]) ls)) = ls"
proof (cases "ls = []")
  case True
  then show ?thesis by (simp add: raw_lines_def)
next
  case False
  have "split_on LF (join [LF] (ls @ [[]])) = ls @ [[]]"
    by (rule split_on_join) (use assms in auto)
  with False show ?thesis by (simp add: raw_lines_def concat_lines)
qed

lemma raw_lines_no_LF: "l \<in> set (raw_lines s) \<Longrightarrow> LF \<notin> set l"
  by (auto simp: raw_lines_def Let_def split: if_splits dest: in_set_butlastD split_on_parts)

lemma raw_lines_sub: "l \<in> set (raw_lines d) \<Longrightarrow> set l \<subseteq> set d"
  by (rule split_on_sub [of l LF]) (auto simp: raw_lines_def Let_def split: if_splits dest: in_set_butlastD)

lemma raw_lines_text: "s \<noteq> [] \<Longrightarrow> last s = LF \<Longrightarrow> concat (map (\<lambda>l. l @ [LF]) (raw_lines s)) = s"
proof -
  assume s: "s \<noteq> []" "last s = LF"
  let ?ls = "split_on LF s"
  have j: "join [LF] ?ls = s" by (rule join_split_on)
  have "last ?ls = []"
  proof (rule ccontr)
    assume n: "last ?ls \<noteq> []"
    have "?ls = butlast ?ls @ [last ?ls]" by simp
    then have "last s = last (last ?ls)"
      using j n by (metis append_Nil append_is_Nil_conv join_Cons join_append last_appendR list.distinct(1))
    moreover have "LF \<notin> set (last ?ls)" using split_on_parts [of "last ?ls" LF s] by simp
    ultimately show False using s(2) n by (metis last_in_set)
  qed
  then have r: "raw_lines s = butlast ?ls" and e: "?ls = butlast ?ls @ [[]]"
    by (simp_all add: raw_lines_def Let_def) (metis append_butlast_last_id split_on_neq_Nil)
  show ?thesis
  proof (cases "butlast ?ls = []")
    case True
    with e j s(1) show ?thesis by (metis append_Nil join.simps(2))
  next
    case False
    with r e j show ?thesis unfolding concat_lines by simp
  qed
qed

subsection \<open>Checking what was fixed\<close>

text \<open>A text file with LF or CRLF line ends: a CR only as the last character of a line.\<close>

definition text_file :: "string \<Rightarrow> bool" where
  "text_file data \<longleftrightarrow> CHR 0x00 \<notin> set data \<and> list_all line_fits (raw_lines data) \<and>
     (\<forall>l \<in> set (raw_lines data). CR \<notin> set (dropCR l))"

definition fix_data :: "string \<Rightarrow> string" where
  "fix_data data = fix_text (fst (scan_lines data))"

lemma text_file_scan:
  "text_file data \<Longrightarrow> scan_lines data = (map dropCR (raw_lines data), False)"
proof -
  assume t: "text_file data"
  then have tw: "takeWhile line_fits (raw_lines data) = raw_lines data"
    unfolding takeWhile_eq_all_conv by (simp add: text_file_def list_all_iff)
  show ?thesis using t unfolding scan_lines_def tw by (simp add: text_file_def)
qed

lemma text_file_not_binary: "text_file data \<Longrightarrow> \<not> isBinary data"
  by (auto simp: text_file_def isBinary_def dest: in_set_takeD)

lemma dropCR_id: "CR \<notin> set l \<Longrightarrow> dropCR l = l"
  using last_in_set by (fastforce simp: dropCR_def)

lemma set_dropCR: "set (dropCR l) \<subseteq> set l"
  by (auto simp: dropCR_def dest: in_set_butlastD)

lemma length_trimRight: "length (trimRight l cs) \<le> length l"
  using trimRight_prefix prefix_length_le by blast

lemma length_dropCR: "length (dropCR l) \<le> length l"
  by (simp add: dropCR_def)

lemma fix_data_lines:
  assumes "text_file data"
  shows "raw_lines (fix_data data) = map (\<lambda>l. trimRight (dropCR l) blanks) (raw_lines data)"
proof -
  have "LF \<notin> set (trimRight (dropCR l) blanks)" if "l \<in> set (raw_lines data)" for l
    using raw_lines_no_LF [OF that] set_dropCR set_trimRight by blast
  then have "raw_lines (concat (map (\<lambda>l. l @ [LF]) (map (\<lambda>l. trimRight (dropCR l) blanks) (raw_lines data))))
      = map (\<lambda>l. trimRight (dropCR l) blanks) (raw_lines data)"
    by (intro raw_lines_concat) auto
  then show ?thesis by (simp add: fix_data_def fix_text_def text_file_scan [OF assms] comp_def)
qed

lemma set_fix_data: "set (fix_data data) \<subseteq> insert LF (set data)"
proof
  fix c assume c: "c \<in> set (fix_data data)"
  show "c \<in> insert LF (set data)"
  proof (cases "c = LF")
    case False
    with c obtain l where l: "l \<in> set (takeWhile line_fits (raw_lines data))" "c \<in> set (trimRight (dropCR l) blanks)"
      by (auto simp: fix_data_def fix_text_def scan_lines_def split: if_splits)
    have "set (trimRight (dropCR l) blanks) \<subseteq> set data"
      using set_trimRight [of "dropCR l" blanks] set_dropCR [of l] raw_lines_sub [of l data] set_takeWhileD [OF l(1)]
      by blast
    with l(2) show ?thesis by blast
  qed simp
qed

lemma fix_data_text:
  assumes "text_file data"
  shows "text_file (fix_data data)" and "\<And>l. l \<in> set (raw_lines (fix_data data)) \<Longrightarrow> CR \<notin> set l"
proof -
  have cr: "CR \<notin> set l" if "l \<in> set (raw_lines (fix_data data))" for l
    using that assms set_trimRight unfolding fix_data_lines [OF assms] text_file_def by fastforce
  have "line_fits l" if "l \<in> set (raw_lines (fix_data data))" for l
  proof -
    from that obtain l0 where l0: "l0 \<in> set (raw_lines data)" "l = trimRight (dropCR l0) blanks"
      unfolding fix_data_lines [OF assms] by auto
    have "length l \<le> length l0"
      using length_trimRight [of "dropCR l0" blanks] length_dropCR [of l0] l0(2) by simp
    then show ?thesis using assms l0(1) by (auto simp: text_file_def line_fits_def list_all_iff)
  qed
  moreover have "CHR 0x00 \<notin> set (fix_data data)"
    using assms set_fix_data [of data] by (auto simp: text_file_def LF_def)
  ultimately show "text_file (fix_data data)"
    using cr dropCR_id by (simp add: text_file_def list_all_iff)
  show "\<And>l. l \<in> set (raw_lines (fix_data data)) \<Longrightarrow> CR \<notin> set l" by (rule cr)
qed

lemma length_lines: "length (concat (map (\<lambda>l. l @ [LF]) (raw_lines data))) \<le> length data + 1"
proof -
  let ?ls = "split_on LF data" and ?len = "\<lambda>ls. length (concat (map (\<lambda>l. l @ [LF]) ls))"
  have "?len ls = length (join [LF] ls) + 1" if "ls \<noteq> []" for ls :: "string list"
    using that by (induction ls) (auto simp: join_Cons split: if_splits)
  then have all: "?len ?ls = length data + 1" by (simp add: join_split_on)
  have "?ls = butlast ?ls @ [last ?ls]" by simp
  then have "?len (butlast ?ls) \<le> ?len ?ls" by (metis concat_append le_add1 length_append map_append)
  with all show ?thesis by (simp add: raw_lines_def Let_def)
qed

lemma length_fix_data:
  assumes "text_file data"
  shows "length (fix_data data) \<le> length data + 1"
proof -
  have "length (concat (map (\<lambda>l. trimRight (dropCR l) blanks @ [LF]) ls)) \<le> length (concat (map (\<lambda>l. l @ [LF]) ls))" for ls
  proof (induction ls)
    case (Cons l ls)
    have "length (trimRight (dropCR l) blanks) \<le> length l"
      using length_trimRight [of "dropCR l" blanks] length_dropCR [of l] by simp
    with Cons show ?case by simp
  qed simp
  from this [of "raw_lines data"] length_lines [of data] show ?thesis
    by (simp add: fix_data_def fix_text_def text_file_scan [OF assms] comp_def)
qed

lemma line_violations_Nil: "line_violations path ls = [] \<longleftrightarrow> (\<forall>l \<in> set ls. trimRight l blanks = l)"
proof -
  have "line_violations path ls = [] \<longleftrightarrow> (\<forall>il \<in> set (indexed ls). trimRight (snd il) blanks = snd il)"
    by (auto simp: line_violations_def filter_empty_conv)
  then show ?thesis using indexed_Ball [of ls "\<lambda>l. trimRight l blanks = l"] by simp
qed

lemma eof_fix_data: "eof_violation path (fix_data data) = []"
proof -
  have "fix_text ls \<noteq> [] \<Longrightarrow> last (fix_text ls) = LF" for ls
    by (cases ls rule: rev_cases) (auto simp: fix_text_def)
  then show ?thesis unfolding eof_violation_def fix_data_def by (metis (full_types))
qed

lemma check_text:
  "text_file data \<Longrightarrow> \<not> too_big path (length data) \<Longrightarrow>
   check_data path data = Inr (line_violations path (map dropCR (raw_lines data)) @ eof_violation path data)"
  by (simp add: check_data_def text_file_not_binary text_file_scan)

lemma fix_data_clean: "text_file data \<Longrightarrow> line_violations path (map dropCR (raw_lines (fix_data data))) = []"
proof -
  assume t: "text_file data"
  have "trimRight (dropCR l) blanks = dropCR l" if l: "l \<in> set (raw_lines (fix_data data))" for l
  proof -
    from l obtain l' where "l = trimRight (dropCR l') blanks" unfolding fix_data_lines [OF t] by auto
    moreover have "dropCR l = l" by (rule dropCR_id [OF fix_data_text(2) [OF t l]])
    ultimately show ?thesis by simp
  qed
  then show ?thesis unfolding line_violations_Nil by simp
qed

lemma check_fixed:
  assumes "text_file data" and "\<not> too_big path (length (fix_data data))"
  shows "check_data path (fix_data data) = Inr []"
  using check_text [OF fix_data_text(1) [OF assms(1)] assms(2)] fix_data_clean [OF assms(1)] eof_fix_data by simp

definition lf_text :: "string \<Rightarrow> bool" where
  "lf_text data \<longleftrightarrow> CR \<notin> set data \<and> CHR 0x00 \<notin> set data \<and> list_all line_fits (raw_lines data)"

definition text_clean :: "string \<Rightarrow> bool" where
  "text_clean data \<longleftrightarrow> line_violations [] (map dropCR (raw_lines data)) = [] \<and> eof_violation [] data = []"

lemma lf_text_file: "lf_text data \<Longrightarrow> text_file data"
  using raw_lines_sub set_dropCR by (fastforce simp: lf_text_def text_file_def)

lemma lf_text_clean_fix:
  assumes "lf_text data" and "text_clean data"
  shows "fix_data data = data"
proof -
  have cr: "dropCR l = l" if "l \<in> set (raw_lines data)" for l
    using raw_lines_sub [OF that] assms(1) by (intro dropCR_id) (auto simp: lf_text_def)
  have trim: "trimRight (dropCR l) blanks = l" if "l \<in> set (raw_lines data)" for l
    using assms(2) that cr [OF that] unfolding text_clean_def line_violations_Nil by force
  have "fix_data data = concat (map (\<lambda>l. l @ [LF]) (map (\<lambda>l. trimRight (dropCR l) blanks) (raw_lines data)))"
    by (simp add: fix_data_def fix_text_def text_file_scan [OF lf_text_file [OF assms(1)]] comp_def)
  also have "map (\<lambda>l. trimRight (dropCR l) blanks) (raw_lines data) = raw_lines data"
    using trim by (simp add: map_idI)
  also have "concat (map (\<lambda>l. l @ [LF]) (raw_lines data)) = data"
  proof (cases "data = []")
    case True
    then show ?thesis by (simp add: raw_lines_def)
  next
    case False
    then show ?thesis using assms(2) by (intro raw_lines_text) (auto simp: text_clean_def eof_violation_def split: if_splits)
  qed
  finally show ?thesis .
qed

interpretation files: fixer lf_text text_clean fix_data
proof
  fix data assume lf: "lf_text data"
  then show "text_clean (fix_data data)"
    using fix_data_clean [OF lf_text_file] eof_fix_data by (simp add: text_clean_def)
  show "lf_text (fix_data data)"
    using lf fix_data_text(1) [OF lf_text_file [OF lf]] set_fix_data [of data]
    by (auto simp: lf_text_def text_file_def LF_def CR_def)
qed (rule lf_text_clean_fix)

end
