(* ===== verification/Go_OS.thy ===== *)
theory Go_OS
  imports Checks_Files
begin

text \<open>
  What the commands use of Go's \<open>os\<close>, \<open>bufio\<close> and \<open>os/exec\<close>: reading, writing and probing a file
  of the file system of \<open>Checks_Files\<close>, \<open>bufio.Scanner\<close> with its default buffer, and programs
  run with an effect on the file system. A program is not code of this repository: what it does is a
  parameter. The facts on texts made of lines serve the edits of \<open>go.work\<close> and of module files.
\<close>

subsection \<open>Files\<close>

definition enoent :: string where
  "enoent = ''no such file or directory''"

text \<open>\<open>errors.Is(err, fs.ErrNotExist)\<close> on the error of a file operation, given by its text.\<close>

definition isNotExist :: "string \<Rightarrow> bool" where
  "isNotExist e = (e = enoent)"

definition os_ReadFile :: "fsys \<Rightarrow> string \<Rightarrow> string + string" where
  "os_ReadFile fs path = (case fs path of Missing e \<Rightarrow> Inl e | Directory \<Rightarrow> Inl ''is a directory''
     | Unreadable _ e \<Rightarrow> Inl e | File data _ \<Rightarrow> Inr data)"

text \<open>\<open>os.Stat\<close>: its error, if any.\<close>

definition os_Stat :: "fsys \<Rightarrow> string \<Rightarrow> string option" where
  "os_Stat fs path = (case fs path of Missing e \<Rightarrow> Some e | _ \<Rightarrow> None)"

definition exists_path :: "fsys \<Rightarrow> string \<Rightarrow> bool" where
  "exists_path fs path = (os_Stat fs path = None)"

text \<open>\<open>os.WriteFile\<close> with mode 0600: an existing file keeps its mode.\<close>

definition node_mode :: "node \<Rightarrow> nat" where
  "node_mode n = (case n of File _ m \<Rightarrow> m | _ \<Rightarrow> 384)"

definition os_WriteFile :: "(string \<Rightarrow> string option) \<Rightarrow> fsys \<Rightarrow> string \<Rightarrow> string \<Rightarrow> string + fsys" where
  "os_WriteFile writeErr fs path data = (case writeErr path of Some e \<Rightarrow> Inl e
     | None \<Rightarrow> Inr (fs(path := File data (node_mode (fs path)))))"

lemma os_ReadFile_written [simp]: "os_ReadFile (fs(path := File data m)) path = Inr data"
  by (simp add: os_ReadFile_def)

lemma os_ReadFile_other: "q \<noteq> path \<Longrightarrow> os_ReadFile (fs(path := n)) q = os_ReadFile fs q"
  by (simp add: os_ReadFile_def)

lemma os_ReadFile_Inr: "os_ReadFile fs path = Inr data \<longleftrightarrow> (\<exists>m. fs path = File data m)"
  by (auto simp: os_ReadFile_def split: node.splits)

subsection \<open>Lines read with the default buffer\<close>

definition maxScanTokenSize :: nat where
  "maxScanTokenSize = 64 * 1024"

definition token_fits :: "string \<Rightarrow> bool" where
  "token_fits l = (length l < maxScanTokenSize)"

lemma token_fits_code [code]: "token_fits l = (int (length l) < 65536)"
  by (simp add: token_fits_def maxScanTokenSize_def)

definition scan_default :: "string \<Rightarrow> string list \<times> bool" where
  "scan_default s = (map dropCR (takeWhile token_fits (raw_lines s)), \<not> list_all token_fits (raw_lines s))"

subsection \<open>Programs\<close>

text \<open>The visible effects of a command, in order: text it prints and programs it runs, each with
  its directory and arguments. \<open>runner\<close> is what running a program does: its error, if any, and the
  file system after it.\<close>

datatype effect = Printed string | Ran string "string list"

type_synonym runner = "string \<Rightarrow> string list \<Rightarrow> fsys \<Rightarrow> string option \<times> fsys"

record world =
  w_fs :: fsys
  w_log :: "effect list"

definition print_out :: "string \<Rightarrow> world \<Rightarrow> world" where
  "print_out s w = w\<lparr>w_log := w_log w @ [Printed s]\<rparr>"

definition exec_cmd :: "runner \<Rightarrow> string \<Rightarrow> string list \<Rightarrow> world \<Rightarrow> string option \<times> world" where
  "exec_cmd run dir args w =
     (case run dir args (w_fs w) of (err, fs) \<Rightarrow> (err, \<lparr>w_fs = fs, w_log = w_log w @ [Ran dir args]\<rparr>))"

text \<open>The programs a log shows, without the texts.\<close>

fun ran :: "effect list \<Rightarrow> (string \<times> string list) list" where
  "ran [] = []"
| "ran (Printed _ # es) = ran es"
| "ran (Ran d a # es) = (d, a) # ran es"

lemma ran_append [simp]: "ran (xs @ ys) = ran xs @ ran ys"
  by (induction xs rule: ran.induct) auto

lemma w_log_print_out [simp]: "w_log (print_out s w) = w_log w @ [Printed s]" "w_fs (print_out s w) = w_fs w"
  by (simp_all add: print_out_def)

lemma w_log_exec_cmd: "exec_cmd run dir args w = (err, w') \<Longrightarrow> w_log w' = w_log w @ [Ran dir args]"
  by (auto simp: exec_cmd_def split: prod.splits)

subsection \<open>Texts made of lines\<close>

lemma split_on_append_sep: "split_on c (a @ c # b) = split_on c a @ split_on c b"
  by (induction a) (auto split: list.splits)

lemma split_on_append_last:
  "c \<notin> set e \<Longrightarrow> split_on c (a @ e) = butlast (split_on c a) @ [last (split_on c a) @ e]"
proof (induction a)
  case Nil
  then show ?case by (simp add: split_on_no_sep)
next
  case (Cons x a)
  obtain l ls where l: "split_on c a = l # ls" by (metis list.exhaust split_on_neq_Nil)
  with Cons show ?case by (cases ls) auto
qed

lemma join_snoc_Nil: "join [c] (ls @ [[]]) = concat (map (\<lambda>l. l @ [c]) ls)"
  by (induction ls) (auto simp: join_Cons)

lemma split_on_snoc: "split_on c (s @ [c]) = split_on c s @ [[]]"
  using split_on_append_sep [of c s "[]"] by simp

text \<open>A text ending in a newline contains \<open>e\<close> and a newline exactly when a line ends with \<open>e\<close>.\<close>

lemma contains_line_end:
  assumes e: "c \<notin> set e"
  shows "contains (s @ [c]) (e @ [c]) \<longleftrightarrow> list_ex (\<lambda>l. suffix e l) (split_on c s)"
proof
  assume "contains (s @ [c]) (e @ [c])"
  then obtain a b where "s @ [c] = (a @ e) @ c # b" by (auto simp: contains_iff)
  then have "split_on c s @ [[]] = split_on c (a @ e) @ split_on c b"
    by (metis split_on_append_sep split_on_snoc)
  then have "split_on c s @ [[]] = (butlast (split_on c a) @ [last (split_on c a) @ e]) @ split_on c b"
    by (simp add: split_on_append_last e)
  moreover obtain ys y where "split_on c b = ys @ [y]" by (metis append_butlast_last_id split_on_neq_Nil)
  ultimately have "split_on c s = (butlast (split_on c a) @ [last (split_on c a) @ e]) @ ys" by simp
  then show "list_ex (\<lambda>l. suffix e l) (split_on c s)" by (simp add: list_ex_iff suffixI)
next
  assume "list_ex (\<lambda>l. suffix e l) (split_on c s)"
  then obtain p where "p @ e \<in> set (split_on c s)" by (auto simp: list_ex_iff suffix_def)
  then obtain xs ys where "split_on c s = xs @ (p @ e) # ys" by (meson split_list)
  then have "s @ [c] = join [c] ((xs @ (p @ e) # ys) @ [[]])"
    by (metis join_split_on split_on_snoc)
  then have "s @ [c] = (concat (map (\<lambda>l. l @ [c]) xs) @ p) @ (e @ [c]) @ concat (map (\<lambda>l. l @ [c]) ys)"
    unfolding join_snoc_Nil by simp
  then show "contains (s @ [c]) (e @ [c])" by (metis contains_append)
qed

text \<open>Where a text without newline is found: in the first line that has it.\<close>

lemma str_index_skip_line:
  assumes "\<not> contains l sub" and "c \<notin> set sub" and "sub \<noteq> []"
  shows "str_index (l @ c # r) sub = map_option (\<lambda>i. Suc (length l + i)) (str_index r sub)"
  using assms(1)
proof (induction l)
  case Nil
  from assms(2,3) have "\<not> prefix sub (c # r)" by (cases sub) auto
  then show ?case by (simp add: option.map_ident)
next
  case (Cons x l)
  have "\<not> prefix sub (x # l @ c # r)"
  proof
    assume "prefix sub (x # l @ c # r)"
    then obtain t where t: "(x # l) @ c # r = sub @ t" by (auto simp: prefix_def)
    have "length sub \<le> length (x # l)"
    proof (rule ccontr)
      assume "\<not> length sub \<le> length (x # l)"
      then have "sub ! length (x # l) = c"
        using t by (metis append_eq_append_conv_if nth_append_length not_le nth_append)
      with assms(2) \<open>\<not> length sub \<le> length (x # l)\<close> show False by (metis not_le nth_mem)
    qed
    then have "x # l = sub @ drop (length sub) (x # l)"
      using t by (metis append_eq_append_conv_if append_take_drop_id)
    with Cons.prems show False using contains_append [of "[]" sub "drop (length sub) (x # l)"] by simp
  qed
  moreover have "\<not> contains l sub"
    using Cons.prems by (auto simp: contains_def split: if_splits)
  ultimately show ?case using Cons.IH by (simp add: option.map_comp comp_def)
qed

lemma str_index_lines:
  assumes "\<And>l. l \<in> set ls \<Longrightarrow> \<not> contains l sub" and "c \<notin> set sub" and "sub \<noteq> []" and "prefix sub r"
  shows "str_index (concat (map (\<lambda>l. l @ [c]) ls) @ r) sub = Some (length (concat (map (\<lambda>l. l @ [c]) ls)))"
  using assms(1)
proof (induction ls)
  case Nil
  from assms(3,4) show ?case by (cases r) auto
next
  case (Cons l ls)
  then show ?case
    using str_index_skip_line [OF _ assms(2,3), of l "concat (map (\<lambda>l. l @ [c]) ls) @ r"] by simp
qed

text \<open>Where a newline followed by \<open>x\<close> is found: before the first line that starts with \<open>x\<close>.\<close>

lemma str_index_line_start:
  assumes "c \<notin> set l"
  shows "str_index (l @ c # r) [c, x] =
     (if prefix [x] r then Some (length l) else map_option (\<lambda>i. Suc (length l + i)) (str_index r [c, x]))"
  using assms
proof (induction l)
  case Nil
  then show ?case by (auto simp: option.map_ident)
next
  case (Cons y l)
  then show ?case by (auto simp: option.map_comp comp_def)
qed

lemma str_index_first_start:
  assumes "\<And>l. l \<in> set ls \<Longrightarrow> c \<notin> set l" and "\<And>l. l \<in> set (tl ls) \<Longrightarrow> \<not> prefix [x] l"
    and "ls \<noteq> []" and "x \<noteq> c"
  shows "str_index (join [c] ls @ c # x # r) [c, x] = Some (length (join [c] ls))"
  using assms(1-3)
proof (induction ls)
  case Nil
  then show ?case by simp
next
  case (Cons l ls)
  show ?case
  proof (cases ls)
    case Nil
    with Cons.prems show ?thesis by (simp add: str_index_line_start)
  next
    case (Cons l' ls')
    with Cons.prems have "\<not> prefix [x] l'" "c \<notin> set l" by auto
    moreover from this have "\<not> prefix [x] (join [c] ls @ c # x # r)"
      using \<open>ls = _\<close> assms(4) by (cases l') (auto simp: join_Cons)
    moreover have "str_index (join [c] ls @ c # x # r) [c, x] = Some (length (join [c] ls))"
      using Cons.IH Cons.prems \<open>ls = _\<close> by auto
    ultimately show ?thesis
      using \<open>ls = _\<close> by (simp add: join_Cons str_index_line_start)
  qed
qed

subsection \<open>The contract of an edit that may be run again\<close>

text \<open>An edit of one file: it reads and writes that file only, and running it on its own result
  changes nothing.\<close>

locale file_edit =
  fixes edit :: "fsys \<Rightarrow> 'e + fsys" and target :: string
  assumes local_edit: "edit fs = Inr fs' \<Longrightarrow> gs target = fs target \<Longrightarrow> edit gs = Inr (gs(target := fs' target))"
    and stable: "edit fs = Inr fs' \<Longrightarrow> edit fs' = Inr fs'"
begin

lemma frame: "edit fs = Inr fs' \<Longrightarrow> q \<noteq> target \<Longrightarrow> fs' q = fs q"
  using local_edit [of fs fs' fs] by (metis fun_upd_other sum.inject(2))

text \<open>A later change of other files does not bring the edit back.\<close>

lemma stays_done:
  assumes "edit fs = Inr a" and "b target = a target"
  shows "edit b = Inr b"
  using local_edit [of a a b] stable [OF assms(1)] assms(2) by (simp add: fun_upd_idem)

lemma iterated: "xs \<noteq> [] \<Longrightarrow> foldM (\<lambda>fs _. edit fs) fs xs = Inr fs' \<Longrightarrow> edit fs = Inr fs'"
proof (induction xs arbitrary: fs)
  case (Cons x xs)
  then obtain a where a: "edit fs = Inr a" "foldM (\<lambda>fs _. edit fs) a xs = Inr fs'"
    by (auto split: sum.splits)
  show ?case
  proof (cases "xs = []")
    case True
    with a show ?thesis by simp
  next
    case False
    with Cons.IH [OF False a(2)] stable [OF a(1)] have "fs' = a" by simp
    with a(1) show ?thesis by simp
  qed
qed simp

end

subsection \<open>Files of one directory\<close>

definition path_name :: "string \<Rightarrow> bool" where
  "path_name b \<longleftrightarrow> slash \<notin> set b \<and> b \<noteq> [] \<and> b \<noteq> ''.'' \<and> b \<noteq> ''..''"

lemma path_join_name:
  assumes "path_name b"
  shows "path_join [r, b] = (if r = [] then b else
     (if hd r = slash then [slash] else []) @
       join [slash] (rev (foldl (clean_elem (hd r = slash)) [] (split_on slash r)) @ [b]))"
proof (cases "r = []")
  case True
  have "hd b \<noteq> slash" using assms by (auto simp: path_name_def dest: hd_in_set)
  then show ?thesis
    using assms True by (simp add: path_join_def path_clean_def path_name_def split_on_no_sep clean_elem_def)
next
  case False
  have "split_on slash (r @ slash # b) = split_on slash r @ [b]"
    using assms by (simp add: split_on_append_sep split_on_no_sep path_name_def)
  moreover have "join [slash] (xs @ [b]) \<noteq> []" for xs
    using assms by (cases xs) (auto simp: path_name_def join_append join_Cons)
  ultimately show ?thesis
    using assms False by (simp add: path_join_def path_clean_def path_name_def clean_elem_def Let_def)
qed

lemma join_snoc_inject: "join sep (xs @ [b]) = join sep (xs @ [c]) \<Longrightarrow> b = c"
  by (cases "xs = []") (simp_all add: join_append)

lemma path_join_inject:
  "path_name b \<Longrightarrow> path_name c \<Longrightarrow> path_join [r, b] = path_join [r, c] \<Longrightarrow> b = c"
  by (auto simp: path_join_name dest: join_snoc_inject split: if_splits)

end
