(* ===== verification/Scaffold_Vars.thy ===== *)
theory Scaffold_Vars
  imports Go_OS
begin

text \<open>
  The template variables of \<open>mmw new module\<close> and \<open>mmw new entity\<close>: \<open>pkg/scaffold/vars.go\<close>, the
  manifest merge of \<open>embed.go\<close>, and the parts of \<open>cmd/mmw/cmd/new\<close> that collect, order and check
  them. The template engine goplt is not code of this repository: its manifest is a record with the
  fields read here (and any others, kept by the record's extension), and its key normalisation and its
  prompt are parameters.
\<close>

subsection \<open>Variables\<close>

text \<open>A value of Go type \<open>any\<close>, as the variables hold it.\<close>

datatype any = AString string | ABool bool | AStrings "string list" | ANil

type_synonym vars = "(string, any) gomap"

text \<open>The type assertions \<open>s, _ := vars[k].(string)\<close> and \<open>b, ok := vars[k].(bool)\<close>.\<close>

definition get_string :: "vars \<Rightarrow> string \<Rightarrow> string" where
  "get_string vars k = (case gm_get ANil k vars of AString s \<Rightarrow> s | _ \<Rightarrow> [])"

definition as_bool :: "any \<Rightarrow> bool option" where
  "as_bool v = (case v of ABool b \<Rightarrow> Some b | _ \<Rightarrow> None)"

definition get_bool :: "vars \<Rightarrow> string \<Rightarrow> bool" where
  "get_bool vars k = (gm_get ANil k vars = ABool True)"

record Variable =
  var_Name :: string
  var_KindBool :: bool
  var_Value :: any
  var_Required :: bool

record Manifest =
  m_Variables :: "Variable list"

definition MergeManifests :: "'a Manifest_scheme \<Rightarrow> 'b Manifest_scheme \<Rightarrow> 'a Manifest_scheme" where
  "MergeManifests module slice =
     module\<lparr>m_Variables := m_Variables module @ filter (\<lambda>v. var_Name v \<noteq> ''Module'') (m_Variables slice)\<rparr>"

subsection \<open>Detecting the workspace\<close>

record Detected =
  det_OrgPrefix :: string
  det_ContractsPath :: string
  det_PlatformPath :: string

definition ShapeGateway :: string where
  "ShapeGateway = ''gateway''"

definition defaultPlatformPath :: string where
  "defaultPlatformPath = ''github.com/piprim/mmw''"

datatype scaffold_err =
    ReadFailed string string
  | NoModuleLine string
  | FewElements string
  | NotKeyValue string
  | UnknownVariable string string
  | NotABool string string
  | BadIdent string string
  | GoKeyword string string
  | ReservedSchema string
  | ReservedEntity string
  | ShapeNotAllowed string string bool
  | AlreadyExists string
  | PromptCancelled string
  | AbsFailed string string
  | NoUseBlock
  | UnclosedUseBlock
  | WriteFailed string string
  | FormatFailed string string
  | RenderFailed string
  | StepFailed string string "string list"

text \<open>The module path of a \<open>go.mod\<close>: the first line that starts with \<open>module \<close>, empty when there
  is none.\<close>

definition module_path :: "string \<Rightarrow> string" where
  "module_path data = (case List.find (\<lambda>l. prefix ''module '' l) (split_on LF data) of
     None \<Rightarrow> [] | Some l \<Rightarrow> trimSpace (drop (length ''module '') l))"

text \<open>\<open>buildPath\<close> is the main module path of the running binary's build info, if it has one.\<close>

definition Detect :: "fsys \<Rightarrow> string option \<Rightarrow> string \<Rightarrow> scaffold_err + Detected" where
  "Detect fs buildPath repoRoot =
     (case os_ReadFile fs (path_join [repoRoot, ''contracts'', ''go.mod'']) of
        Inl e \<Rightarrow> Inl (ReadFailed ''contracts/go.mod'' e)
      | Inr data \<Rightarrow>
         (let contractsPath = module_path data; parts = split_on slash contractsPath in
          if contractsPath = [] then Inl (NoModuleLine ''contracts/go.mod'')
          else if length parts < 2 then Inl (FewElements contractsPath)
          else Inr \<lparr>det_OrgPrefix = parts ! 0 @ ''/'' @ parts ! 1, det_ContractsPath = contractsPath,
                 det_PlatformPath = (case buildPath of None \<Rightarrow> defaultPlatformPath
                   | Some p \<Rightarrow> (if p \<noteq> [] then p else defaultPlatformPath))\<rparr>))"

definition Detected_Apply :: "Detected \<Rightarrow> vars \<Rightarrow> vars" where
  "Detected_Apply d vars =
     (let v = gm_set ''PlatformPath'' (AString (det_PlatformPath d))
            (gm_set ''ContractsPath'' (AString (det_ContractsPath d))
            (gm_set ''OrgPrefix'' (AString (det_OrgPrefix d)) vars)) in
      case gm_get ANil ''Name'' v of
        AString name \<Rightarrow> gm_set ''ModulePath'' (AString (det_OrgPrefix d @ ''/'' @ name)) v
      | _ \<Rightarrow> v)"

subsection \<open>Shapes\<close>

definition AllowedShapes :: "bool \<Rightarrow> string list" where
  "AllowedShapes database = (if database then [''aggregate'', ''read-model'', ShapeGateway] else [ShapeGateway])"

definition ApplyShapeDefault :: "vars \<Rightarrow> vars" where
  "ApplyShapeDefault vars =
     (if get_string vars ''Shape'' \<noteq> [] then vars
      else gm_set ''Shape'' (AString (if get_bool vars ''Database'' then ''aggregate'' else ShapeGateway)) vars)"

subsection \<open>Flags\<close>

definition parseBool :: "string \<Rightarrow> bool option" where
  "parseBool s =
     (if s \<in> set [''1'', ''t'', ''T'', ''TRUE'', ''true'', ''True''] then Some True
      else if s \<in> set [''0'', ''f'', ''F'', ''FALSE'', ''false'', ''False''] then Some False
      else None)"

definition var_flag ::
    "(string \<Rightarrow> string) \<Rightarrow> (string, bool) gomap \<Rightarrow> vars \<Rightarrow> string \<Rightarrow> scaffold_err + vars" where
  "var_flag normalizeKey kinds vars flag =
     (case str_cut flag ''='' of None \<Rightarrow> Inl (NotKeyValue flag)
      | Some (key, v) \<Rightarrow>
         (let name = normalizeKey key in
          case map_of kinds name of None \<Rightarrow> Inl (UnknownVariable flag key)
          | Some True \<Rightarrow> (case parseBool v of None \<Rightarrow> Inl (NotABool flag key)
              | Some b \<Rightarrow> Inr (gm_set name (ABool b) vars))
          | Some False \<Rightarrow> Inr (gm_set name (AString v) vars)))"

definition var_kinds :: "Variable list \<Rightarrow> (string, bool) gomap" where
  "var_kinds vs = foldl (\<lambda>m v. gm_set (var_Name v) (var_KindBool v) m) [] vs"

definition var_defaults :: "Variable list \<Rightarrow> vars" where
  "var_defaults vs = foldl (\<lambda>m v. gm_set (var_Name v) (var_Value v) m) [] vs"

definition ParseVarFlags ::
    "(string \<Rightarrow> string) \<Rightarrow> 'a Manifest_scheme \<Rightarrow> string list \<Rightarrow> scaffold_err + vars" where
  "ParseVarFlags normalizeKey m flags =
     foldM (var_flag normalizeKey (var_kinds (m_Variables m))) (var_defaults (m_Variables m)) flags"

definition MissingRequired :: "'a Manifest_scheme \<Rightarrow> vars \<Rightarrow> string list" where
  "MissingRequired m vars =
     map var_Name (filter (\<lambda>v. var_Required v \<and> get_string vars (var_Name v) = []) (m_Variables m))"

subsection \<open>Validation\<close>

text \<open>\<open>identRe\<close>: \<open>^[a-z][a-z0-9]*$\<close>.\<close>

definition lower_char :: "char \<Rightarrow> bool" where
  "lower_char c = (97 \<le> (of_char c :: nat) \<and> (of_char c :: nat) \<le> 122)"

definition identRe :: "string \<Rightarrow> bool" where
  "identRe s = (case s of [] \<Rightarrow> False | c # cs \<Rightarrow> lower_char c \<and> list_all (\<lambda>x. lower_char x \<or> is_digit x) cs)"

definition go_keywords :: "string list" where
  "go_keywords =
     [''break'', ''case'', ''chan'', ''const'', ''continue'', ''default'', ''defer'', ''else'', ''fallthrough'',
      ''for'', ''func'', ''go'', ''goto'', ''if'', ''import'', ''interface'', ''map'', ''package'', ''range'',
      ''return'', ''select'', ''struct'', ''switch'', ''type'', ''var'']"

text \<open>\<open>types.Universe\<close>: the predeclared identifiers.\<close>

definition go_universe :: "string list" where
  "go_universe =
     [''any'', ''bool'', ''byte'', ''comparable'', ''complex64'', ''complex128'', ''error'', ''float32'', ''float64'',
      ''int'', ''int8'', ''int16'', ''int32'', ''int64'', ''rune'', ''string'', ''uint'', ''uint8'', ''uint16'',
      ''uint32'', ''uint64'', ''uintptr'', ''true'', ''false'', ''iota'', ''nil'', ''append'', ''cap'', ''clear'',
      ''close'', ''complex'', ''copy'', ''delete'', ''imag'', ''len'', ''make'', ''max'', ''min'', ''new'', ''panic'',
      ''print'', ''println'', ''real'', ''recover'']"

definition reservedEntities :: "string list" where
  "reservedEntities =
     [''domain'', ''label'', ''snapshot'', ''deleted'', ''event'', ''events'', ''errors'',
      ''command'', ''query'', ''ports'', ''application'', ''mapper'', ''connect'', ''uuid'', ''time'', ''context'',
      ''testing'', ''testhelpers'', ''authctx'', ''boa'', ''eris'', ''pgx'', ''boamodel'', ''postgres'',
      ''gateway'', ''publisher'', ''sent'', ''http'', ''httptest'', ''json'', ''bytes'', ''io'', ''pfevents'', ''protojson'',
      ''wiring'', ''health'', ''names'', ''mount'', ''stub'', ''helpers'', ''platform'', ''fmt'', ''strings'', ''sync'',
      ''inproc'', ''migrations'', ''stdlib'', ''wait'', ''pgxpool'', ''protoreflect'', ''timestamppb'',
      ''relay'', ''server'', ''router'', ''logger'',
      ''a'', ''adapter'', ''c'', ''cases'', ''cmd'', ''created'', ''ctx'', ''dispatcher'', ''e'', ''err'', ''ev'', ''g'',
      ''got'', ''handler'', ''id'', ''in'', ''input'', ''item'', ''lbl'', ''m'', ''method'', ''name'', ''now'', ''ok'', ''p'',
      ''payload'', ''pool'', ''provider'', ''q'', ''r'', ''repo'', ''res'', ''result'', ''s'', ''send'', ''snap'', ''status'',
      ''svc'', ''t'', ''tests'', ''topic'', ''tt'', ''uow'', ''updated'', ''want'']"

definition reservedSchemas :: "string list" where
  "reservedSchemas =
     [''user'', ''order'', ''group'', ''table'', ''check'', ''select'', ''default'', ''primary'', ''references'',
      ''constraint'', ''grant'', ''session'', ''schema'', ''column'', ''index'', ''limit'', ''offset'', ''where'',
      ''from'', ''into'', ''union'']"

definition slice_paths :: "string \<Rightarrow> string \<Rightarrow> string list" where
  "slice_paths name entity =
     [path_join [''modules'', name, ''internal'', ''domain'', entity],
      path_join [''contracts'', ''proto'', name, ''v1'', entity @ ''.proto'']]"

definition module_paths :: "string \<Rightarrow> string list" where
  "module_paths name =
     [path_join [''modules'', name], path_join [''contracts'', ''proto'', name],
      path_join [''contracts'', ''buf.gen.'' @ name @ ''.yaml'']]"

text \<open>The first of the relative paths that exists already.\<close>

definition check_absent :: "fsys \<Rightarrow> string \<Rightarrow> string list \<Rightarrow> scaffold_err option" where
  "check_absent fs repoRoot rels =
     first_err (\<lambda>rel. if exists_path fs (path_join [repoRoot, rel]) then Some (AlreadyExists rel) else None) rels"

text \<open>\<open>ValidateSlice\<close> also sets the default shape in the variables it is given.\<close>

definition ValidateSlice :: "fsys \<Rightarrow> string \<Rightarrow> vars \<Rightarrow> scaffold_err option \<times> vars" where
  "ValidateSlice fs repoRoot vars =
     (let name = get_string vars ''Name''; entity = get_string vars ''Entity'' in
      if \<not> identRe entity then (Some (BadIdent ''entity'' entity), vars)
      else if entity \<in> set go_keywords then (Some (GoKeyword ''entity'' entity), vars)
      else if entity \<in> set reservedEntities \<or> entity \<in> set go_universe then (Some (ReservedEntity entity), vars)
      else let vars' = ApplyShapeDefault vars; database = get_bool vars' ''Database''; shape = get_string vars' ''Shape'' in
        if shape \<notin> set (AllowedShapes database) then (Some (ShapeNotAllowed shape name database), vars')
        else (check_absent fs repoRoot (slice_paths name entity), vars'))"

definition Validate :: "fsys \<Rightarrow> string \<Rightarrow> vars \<Rightarrow> scaffold_err option \<times> vars" where
  "Validate fs repoRoot vars =
     (let name = get_string vars ''Name'' in
      if \<not> identRe name then (Some (BadIdent ''name'' name), vars)
      else if name \<in> set go_keywords then (Some (GoKeyword ''name'' name), vars)
      else if name \<in> set reservedSchemas then (Some (ReservedSchema name), vars)
      else (case check_absent fs repoRoot (module_paths name) of
          Some e \<Rightarrow> (Some e, vars)
        | None \<Rightarrow> ValidateSlice fs repoRoot vars))"

subsection \<open>Collecting the variables\<close>

definition narrowShapes :: "'a Manifest_scheme \<Rightarrow> bool \<Rightarrow> 'a Manifest_scheme" where
  "narrowShapes m database =
     m\<lparr>m_Variables := map (\<lambda>v. if var_Name v = ''Shape'' then v\<lparr>var_Value := AStrings (AllowedShapes database)\<rparr> else v)
        (m_Variables m)\<rparr>"

definition forceGatewayWithoutDatabase :: "vars \<Rightarrow> vars" where
  "forceGatewayWithoutDatabase vars =
     (if as_bool (gm_get ANil ''Database'' vars) = Some False then gm_set ''Shape'' (AString ShapeGateway) vars else vars)"

definition promptOrder :: "string list" where
  "promptOrder = [''Module'', ''Name'', ''Entity'', ''Database'', ''Shape'', ''CreateTable'', ''Grpc'']"

definition var_rank :: "Variable \<Rightarrow> nat" where
  "var_rank v = length (takeWhile (\<lambda>n. n \<noteq> var_Name v) promptOrder)"

definition orderVars :: "'a Manifest_scheme \<Rightarrow> 'a Manifest_scheme" where
  "orderVars m = m\<lparr>m_Variables := sort_key var_rank (m_Variables m)\<rparr>"

text \<open>A variable of the prompt, filled in with the value given: a choice list puts it first.\<close>

definition prefill :: "vars \<Rightarrow> Variable \<Rightarrow> Variable" where
  "prefill given v =
     (case map_of given (var_Name v) of None \<Rightarrow> v
      | Some x \<Rightarrow>
         (case var_Value v of
            AStrings choices \<Rightarrow>
              (case x of AString pick \<Rightarrow>
                 (if pick \<in> set choices
                  then v\<lparr>var_Value := AStrings (pick # filter (\<lambda>c. c \<noteq> pick) choices)\<rparr> else v)
               | _ \<Rightarrow> v)
          | _ \<Rightarrow> v\<lparr>var_Value := x\<rparr>))"

definition collectVars ::
    "(string \<Rightarrow> string) \<Rightarrow> ('a Manifest_scheme \<Rightarrow> string + vars) \<Rightarrow> 'a Manifest_scheme \<Rightarrow> string list
       \<Rightarrow> scaffold_err + vars" where
  "collectVars normalizeKey tui m varFlags =
     (case ParseVarFlags normalizeKey m varFlags of Inl e \<Rightarrow> Inl e
      | Inr given \<Rightarrow>
         (let m' = (case as_bool (gm_get ANil ''Database'' given) of Some database \<Rightarrow> narrowShapes m database | None \<Rightarrow> m) in
          if MissingRequired m' given = [] then Inr given
          else (case tui (orderVars (m'\<lparr>m_Variables := map (prefill given) (m_Variables m')\<rparr>)) of
             Inl e \<Rightarrow> Inl (PromptCancelled e)
           | Inr vars \<Rightarrow> Inr (forceGatewayWithoutDatabase vars))))"

subsection \<open>The target module of \<open>new entity\<close>\<close>

definition moduleVar :: string where
  "moduleVar = ''Module''"

definition is_module_flag :: "(string \<Rightarrow> string) \<Rightarrow> string \<Rightarrow> string option" where
  "is_module_flag normalizeKey f = (case str_cut f ''='' of None \<Rightarrow> None
     | Some (k, v) \<Rightarrow> (if normalizeKey k = moduleVar then Some v else None))"

definition first_nonempty :: "string list \<Rightarrow> string" where
  "first_nonempty ss = (case List.find (\<lambda>s. s \<noteq> []) ss of None \<Rightarrow> [] | Some s \<Rightarrow> s)"

text \<open>\<open>filepath.Abs\<close>: \<open>cwd\<close> is the working directory or the error that hides it.\<close>

definition path_abs :: "string + string \<Rightarrow> string \<Rightarrow> string + string" where
  "path_abs cwd p = (if prefix [slash] p then Inr (path_clean p)
     else (case cwd of Inl e \<Rightarrow> Inl e | Inr d \<Rightarrow> Inr (path_join [d, p])))"

definition resolveModule ::
    "(string \<Rightarrow> string) \<Rightarrow> string + string \<Rightarrow> string \<Rightarrow> string \<Rightarrow> string list \<Rightarrow> scaffold_err + string \<times> string list" where
  "resolveModule normalizeKey cwd positional flag varFlags =
     (let fromVar = foldl (\<lambda>acc f. case is_module_flag normalizeKey f of Some v \<Rightarrow> v | None \<Rightarrow> acc) [] varFlags;
          rest = filter (\<lambda>f. is_module_flag normalizeKey f = None) varFlags;
          v = first_nonempty [flag, positional, fromVar] in
      if v = [] then Inr ([], rest)
      else (case path_abs cwd v of Inl e \<Rightarrow> Inl (AbsFailed v e)
        | Inr p \<Rightarrow> Inr (path_base p, rest)))"

text \<open>\<open>readDir\<close> lists a directory: the name of each entry and whether it is a directory.\<close>

definition listModules ::
    "fsys \<Rightarrow> (string \<Rightarrow> string + (string \<times> bool) list) \<Rightarrow> string \<Rightarrow> scaffold_err + string list" where
  "listModules fs readDir root =
     (case readDir (path_join [root, ''modules'']) of Inl e \<Rightarrow> Inl (ReadFailed ''modules'' e)
      | Inr entries \<Rightarrow>
         Inr (sort (map fst (filter (\<lambda>(n, isDir). isDir \<and> exists_path fs (path_join [root, ''modules'', n, n @ ''.go'']))
                entries))))"

subsection \<open>Facts about the variables\<close>

lemma get_string_set [simp]:
  "get_string (gm_set k v vars) k' = (if k' = k then (case v of AString s \<Rightarrow> s | _ \<Rightarrow> []) else get_string vars k')"
  by (simp add: get_string_def)

lemma get_bool_set [simp]:
  "get_bool (gm_set k v vars) k' = (if k' = k then v = ABool True else get_bool vars k')"
  by (simp add: get_bool_def)

text \<open>The default shape is one the module accepts.\<close>

lemma ApplyShapeDefault_frame [simp]:
  "get_bool (ApplyShapeDefault vars) ''Database'' = get_bool vars ''Database''"
  "k \<noteq> ''Shape'' \<Longrightarrow> get_string (ApplyShapeDefault vars) k = get_string vars k"
  by (simp_all add: ApplyShapeDefault_def)

lemma ApplyShapeDefault_idem [simp]: "ApplyShapeDefault (ApplyShapeDefault vars) = ApplyShapeDefault vars"
  by (simp add: ApplyShapeDefault_def ShapeGateway_def)

lemma ApplyShapeDefault_allowed:
  assumes "get_string vars ''Shape'' = []"
  shows "get_string (ApplyShapeDefault vars) ''Shape'' \<in> set (AllowedShapes (get_bool vars ''Database''))"
  using assms by (simp add: ApplyShapeDefault_def AllowedShapes_def)

lemma check_absent_None:
  "check_absent fs root rels = None \<longleftrightarrow> list_all (\<lambda>rel. \<not> exists_path fs (path_join [root, rel])) rels"
  by (auto simp: check_absent_def list_all_iff)

text \<open>What an accepted slice is.\<close>

definition entity_ok :: "string \<Rightarrow> bool" where
  "entity_ok e \<longleftrightarrow> identRe e \<and> e \<notin> set go_keywords \<and> e \<notin> set reservedEntities \<and> e \<notin> set go_universe"

definition name_ok :: "string \<Rightarrow> bool" where
  "name_ok n \<longleftrightarrow> identRe n \<and> n \<notin> set go_keywords \<and> n \<notin> set reservedSchemas"

lemma ValidateSlice_ok_iff:
  "ValidateSlice fs root vars = (None, vars') \<longleftrightarrow>
     entity_ok (get_string vars ''Entity'') \<and> vars' = ApplyShapeDefault vars \<and>
     get_string vars' ''Shape'' \<in> set (AllowedShapes (get_bool vars ''Database'')) \<and>
     list_all (\<lambda>rel. \<not> exists_path fs (path_join [root, rel]))
       (slice_paths (get_string vars ''Name'') (get_string vars ''Entity''))"
  by (auto simp: ValidateSlice_def Let_def entity_ok_def check_absent_None)

lemma Validate_ok_iff:
  "Validate fs root vars = (None, vars') \<longleftrightarrow>
     name_ok (get_string vars ''Name'') \<and>
     list_all (\<lambda>rel. \<not> exists_path fs (path_join [root, rel])) (module_paths (get_string vars ''Name'')) \<and>
     ValidateSlice fs root vars = (None, vars')"
proof (cases "check_absent fs root (module_paths (get_string vars ''Name''))")
  case None
  then have "list_all (\<lambda>rel. \<not> exists_path fs (path_join [root, rel])) (module_paths (get_string vars ''Name''))"
    by (simp add: check_absent_None)
  with None show ?thesis by (auto simp: Validate_def Let_def name_ok_def)
next
  case (Some e)
  then have "\<not> list_all (\<lambda>rel. \<not> exists_path fs (path_join [root, rel])) (module_paths (get_string vars ''Name''))"
    by (metis check_absent_None option.distinct(1))
  with Some show ?thesis by (auto simp: Validate_def Let_def name_ok_def)
qed

text \<open>An identifier is one path element without a byte that any of the edited files treats
  specially.\<close>

lemma identRe_chars: "identRe s \<Longrightarrow> c \<in> set s \<Longrightarrow> lower_char c \<or> is_digit c"
  by (auto simp: identRe_def list_all_iff split: list.splits)

lemma ident_char_range: "lower_char c \<or> is_digit c \<Longrightarrow> 48 \<le> (of_char c :: nat) \<and> (of_char c :: nat) \<le> 122"
  by (auto simp: lower_char_def is_digit_def)

lemma identRe_notin:
  assumes "identRe s" and "(of_char c :: nat) < 48 \<or> 122 < (of_char c :: nat)"
  shows "c \<notin> set s"
  using identRe_chars [OF assms(1), of c] ident_char_range [of c] assms(2) by linarith

lemma identRe_neq_Nil: "identRe s \<Longrightarrow> s \<noteq> []"
  by (auto simp: identRe_def)

lemma identRe_simps [simp]:
  assumes "identRe s"
  shows "slash \<notin> set s" "LF \<notin> set s" "CHR ''.'' \<notin> set s" "s \<noteq> ''.''" "s \<noteq> ''..''"
  using identRe_notin [OF assms, of slash] identRe_notin [OF assms, of LF] identRe_notin [OF assms, of "CHR ''.''"]
  by (auto simp: slash_def LF_def)

subsection \<open>Facts about the flags\<close>

lemma set_keys_foldl_gm_set:
  "set (gm_keys (foldl (\<lambda>m v. gm_set (f v) (g v) m) m vs)) = set (gm_keys m) \<union> f ` set vs"
  by (induction vs arbitrary: m) auto

lemma map_of_gm_keys: "map_of m k = None \<longleftrightarrow> k \<notin> set (gm_keys m)"
  by (simp add: gm_keys_def map_of_eq_None_iff)

text \<open>The variable a flag names, with the value it gives it.\<close>

definition flag_effect :: "(string \<Rightarrow> string) \<Rightarrow> (string, bool) gomap \<Rightarrow> string \<Rightarrow> (string \<times> any) option" where
  "flag_effect nk kinds flag =
     (case str_cut flag ''='' of None \<Rightarrow> None
      | Some (key, v) \<Rightarrow> (case map_of kinds (nk key) of None \<Rightarrow> None
         | Some True \<Rightarrow> map_option (\<lambda>b. (nk key, ABool b)) (parseBool v)
         | Some False \<Rightarrow> Some (nk key, AString v)))"

lemma var_flag_Inr:
  "var_flag nk kinds vars flag = Inr vars' \<longleftrightarrow>
     (\<exists>n x. flag_effect nk kinds flag = Some (n, x) \<and> vars' = gm_set n x vars)"
  by (auto simp: var_flag_def flag_effect_def Let_def split: option.splits bool.splits prod.splits)

lemma flag_effect_known: "flag_effect nk kinds flag = Some (n, x) \<Longrightarrow> n \<in> set (gm_keys kinds)"
proof -
  assume "flag_effect nk kinds flag = Some (n, x)"
  then have "map_of kinds n \<noteq> None"
    by (auto simp: flag_effect_def split: option.splits bool.splits prod.splits)
  then show ?thesis by (simp only: map_of_gm_keys not_not)
qed

text \<open>The flags' effects, applied in order.\<close>

lemma foldM_var_flag:
  "foldM (var_flag nk kinds) vars flags = Inr vars' \<longleftrightarrow>
     list_all (\<lambda>f. flag_effect nk kinds f \<noteq> None) flags \<and>
     vars' = foldl (\<lambda>v (n, x). gm_set n x v) vars (map (\<lambda>f. the (flag_effect nk kinds f)) flags)"
proof (induction flags arbitrary: vars)
  case Nil
  show ?case by auto
next
  case (Cons f flags)
  show ?case
  proof (cases "flag_effect nk kinds f")
    case None
    then have "\<nexists>v. var_flag nk kinds vars f = Inr v" by (simp add: var_flag_Inr)
    with None show ?thesis by (auto split: sum.splits)
  next
    case (Some nx)
    then have "var_flag nk kinds vars f = Inr (gm_set (fst nx) (snd nx) vars)"
      by (cases nx) (simp add: var_flag_Inr)
    with Some Cons.IH show ?thesis by (simp add: case_prod_beta)
  qed
qed

lemma gm_get_foldl_last:
  "gm_get d k (foldl (\<lambda>v (n, x). gm_set n x v) m es) =
     (case List.find (\<lambda>(n, x). n = k) (rev es) of None \<Rightarrow> gm_get d k m | Some (n, x) \<Rightarrow> x)"
proof (induction es rule: rev_induct)
  case Nil
  show ?case by simp
next
  case (snoc e es)
  then show ?case by (auto split: prod.splits)
qed

lemma set_keys_foldl_effects:
  "set (gm_keys (foldl (\<lambda>v (n, x). gm_set n x v) m es)) = set (gm_keys m) \<union> fst ` set es"
  by (induction es arbitrary: m) auto

end
