(* ===== verification/Checks.thy ===== *)
theory Checks
  imports Checks_Files Go_Errors
begin

text \<open>
  \<open>internal/pkg/checks\<close>: \<open>generated.go\<close>, \<open>git.go\<close>, \<open>lint.go\<close>, \<open>format.go\<close>, \<open>yaml.go\<close>, \<open>toml.go\<close> and
  \<open>precommit.go\<close>, and the commands of \<open>cmd/mmw/cmd/check\<close> that run them. The external programs (git,
  golangci-lint, yamllint) and libraries (gofumpt, go-toml) are the fields of \<open>tools\<close>.
\<close>

subsection \<open>generated.go\<close>

text \<open>\<open>^// Code generated .* DO NOT EDIT\.$\<close> on a line.\<close>

definition generatedMarker :: "string \<Rightarrow> bool" where
  "generatedMarker l =
     (hasPrefix l ''// Code generated '' \<and> hasSuffix l '' DO NOT EDIT.'' \<and>
      length ''// Code generated '' + length '' DO NOT EDIT.'' \<le> length l)"

fun scanMarker :: "bool \<Rightarrow> string list \<Rightarrow> bool option" where
  "scanMarker inBlock [] = None"
| "scanMarker inBlock (t # ts) =
     (let line = trimSpace (trimRight t [CR]) in
      if inBlock then scanMarker (\<not> contains line ''*/'') ts
      else if line = [] then scanMarker False ts
      else if generatedMarker line then Some True
      else if hasPrefix line ''//'' then scanMarker False ts
      else if hasPrefix line ''/*'' then scanMarker (\<not> contains line ''*/'') ts
      else Some False)"

definition scanGeneratedMarker :: "string \<Rightarrow> file_err + bool" where
  "scanGeneratedMarker data =
     (case scan_lines data of (ts, tooLong) \<Rightarrow>
       (case scanMarker False ts of Some b \<Rightarrow> Inr b
        | None \<Rightarrow> (if tooLong then Inl (ScanErr []) else Inr False)))"

definition IsGenerated :: "fsys \<Rightarrow> string \<Rightarrow> file_err + bool" where
  "IsGenerated fs path =
     (case fs path of Missing e \<Rightarrow> Inl (StatErr path e)
      | Directory \<Rightarrow> Inl (ReadErr path ''is a directory'')
      | Unreadable _ e \<Rightarrow> Inl (ReadErr path e)
      | File data _ \<Rightarrow> scanGeneratedMarker data)"

text \<open>A line that cannot end the header.\<close>

definition header_line :: "string \<Rightarrow> bool" where
  "header_line t =
     (let line = trimSpace (trimRight t [CR]) in
      line = [] \<or> (hasPrefix line ''//'' \<and> \<not> generatedMarker line))"

definition code_line :: "string \<Rightarrow> bool" where
  "code_line t =
     (let line = trimSpace (trimRight t [CR]) in
      line \<noteq> [] \<and> \<not> hasPrefix line ''//'' \<and> \<not> hasPrefix line ''/*'')"

lemma generatedMarker_comment: "generatedMarker l \<Longrightarrow> hasPrefix l ''//''"
  unfolding generatedMarker_def hasPrefix_def by (auto simp: prefix_def)

lemma scanMarker_header:
  "\<forall>t \<in> set hs. header_line t \<Longrightarrow> scanMarker False (hs @ ts) = scanMarker False ts"
  by (induction hs) (auto simp: header_line_def Let_def)

lemma scanMarker_code: "code_line t \<Longrightarrow> scanMarker False (t # ts) = Some False"
  using generatedMarker_comment by (auto simp: code_line_def Let_def)

lemma scanMarker_marker:
  "generatedMarker (trimSpace (trimRight t [CR])) \<Longrightarrow> scanMarker False (t # ts) = Some True"
  by (auto simp: Let_def generatedMarker_def)

subsection \<open>git.go\<close>

definition splitLines :: "string \<Rightarrow> string list" where
  "splitLines s = filter (\<lambda>l. l \<noteq> []) (map trimSpace (split_on LF (trimSpace s)))"

text \<open>What the outside world answers: the two \<open>git diff\<close> runs, \<open>git ls-files\<close>, whether a program is
  on PATH, the exit of golangci-lint and the output of yamllint, and the two libraries.\<close>

record tools =
  tl_diffCached :: "string + string"
  tl_diff :: "string + string"
  tl_lsFiles :: "string + string"
  tl_lookPath :: "string \<Rightarrow> bool"
  tl_golangci :: "string list \<Rightarrow> bool"
  tl_yamllint :: "string list \<Rightarrow> bool \<times> string"
  tl_cancelled :: bool
  tl_gofumpt :: "string \<Rightarrow> string + string"
  tl_toml :: "string \<Rightarrow> string option"
  tl_writeErr :: "string \<Rightarrow> string option"

datatype check_err = ToolErr string | FileError file_err | LibErr string

definition gitDiffFiles :: "string + string \<Rightarrow> check_err + string list" where
  "gitDiffFiles out = (case out of Inl e \<Rightarrow> Inl (ToolErr e) | Inr s \<Rightarrow> Inr (splitLines s))"

definition StagedFiles :: "tools \<Rightarrow> check_err + string list" where
  "StagedFiles w = gitDiffFiles (tl_diffCached w)"

text \<open>\<open>slices.Compact\<close>: consecutive duplicates are dropped.\<close>

definition ModifiedFiles :: "tools \<Rightarrow> check_err + string list" where
  "ModifiedFiles w =
     (case gitDiffFiles (tl_diffCached w) of Inl e \<Rightarrow> Inl e
      | Inr staged \<Rightarrow> (case gitDiffFiles (tl_diff w) of Inl e \<Rightarrow> Inl e
         | Inr modified \<Rightarrow> Inr (remdups_adj (sort (staged @ modified)))))"

definition TrackedFiles :: "tools \<Rightarrow> check_err + string list" where
  "TrackedFiles w = (case tl_lsFiles w of Inl e \<Rightarrow> Inl (ToolErr e) | Inr s \<Rightarrow> Inr (splitLines s))"

definition SelectFiles :: "tools \<Rightarrow> bool \<Rightarrow> check_err + string list" where
  "SelectFiles w modified = (if modified then ModifiedFiles w else StagedFiles w)"

definition goExt :: string where
  "goExt = ''.go''"

fun package_dirs :: "string list \<Rightarrow> string list \<Rightarrow> string list" where
  "package_dirs seen [] = seen"
| "package_dirs seen (f # fs) =
     (if path_ext f \<noteq> goExt then package_dirs seen fs
      else let dir = path_join [''.'', path_dir f] in
           if dir \<in> set seen then package_dirs seen fs else package_dirs (seen @ [dir]) fs)"

definition PackageDirsFromFiles :: "string list \<Rightarrow> string list" where
  "PackageDirsFromFiles files = sort (package_dirs [] files)"

definition FilterByExt :: "string list \<Rightarrow> string list \<Rightarrow> string list" where
  "FilterByExt files exts = filter (\<lambda>f. path_ext f \<in> set exts) files"

definition resolveTargets :: "tools \<Rightarrow> string list \<Rightarrow> string list \<Rightarrow> check_err + string list" where
  "resolveTargets w targets exts =
     (if targets \<noteq> [] then Inr targets
      else (case TrackedFiles w of Inl e \<Rightarrow> Inl e
        | Inr files \<Rightarrow> Inr (if exts = [] then files else FilterByExt files exts)))"

lemma package_dirs_spec:
  "distinct seen \<Longrightarrow> distinct (package_dirs seen fs) \<and>
   set (package_dirs seen fs) = set seen \<union> {path_join [''.'', path_dir f] | f. f \<in> set fs \<and> path_ext f = goExt}"
proof (induction fs arbitrary: seen)
  case (Cons f fs)
  show ?case
  proof (cases "path_ext f \<noteq> goExt \<or> path_join [''.'', path_dir f] \<in> set seen")
    case True
    then have e: "package_dirs seen (f # fs) = package_dirs seen fs" by (auto simp: Let_def)
    show ?thesis unfolding e using Cons.IH [OF Cons.prems] True by auto
  next
    case False
    then have e: "package_dirs seen (f # fs) = package_dirs (seen @ [path_join [''.'', path_dir f]]) fs"
      by (simp add: Let_def)
    have "distinct (seen @ [path_join [''.'', path_dir f]])" using Cons.prems False by simp
    from Cons.IH [OF this] show ?thesis unfolding e using False by auto
  qed
qed simp

subsection \<open>The checkers\<close>

definition new_result :: "string \<Rightarrow> Violation list \<Rightarrow> Result" where
  "new_result name vs = \<lparr>res_CheckerName = name, res_Violations = vs, res_failed = False\<rparr>"

definition filesCheck :: "tools \<Rightarrow> fsys \<Rightarrow> string list \<Rightarrow> check_err + Result" where
  "filesCheck w fs targets =
     (case resolveTargets w targets [] of Inl e \<Rightarrow> Inl e
      | Inr files \<Rightarrow> (case files_Check fs files of Inl e \<Rightarrow> Inl (FileError e) | Inr r \<Rightarrow> Inr r))"

definition filesFix :: "tools \<Rightarrow> fsys \<Rightarrow> string list \<Rightarrow> check_err + fsys" where
  "filesFix w fs targets =
     (case resolveTargets w targets [] of Inl e \<Rightarrow> Inl e
      | Inr files \<Rightarrow> (case files_Fix (tl_writeErr w) fs files of Inl e \<Rightarrow> Inl (FileError e) | Inr fs' \<Rightarrow> Inr fs'))"

definition read_file :: "fsys \<Rightarrow> string \<Rightarrow> check_err + string" where
  "read_file fs path =
     (case fs path of File data _ \<Rightarrow> Inr data | Missing e \<Rightarrow> Inl (FileError (ReadErr path e))
      | Unreadable _ e \<Rightarrow> Inl (FileError (ReadErr path e))
      | Directory \<Rightarrow> Inl (FileError (ReadErr path ''is a directory'')))"

definition isFormatted :: "tools \<Rightarrow> fsys \<Rightarrow> string \<Rightarrow> check_err + bool" where
  "isFormatted w fs path =
     (case read_file fs path of Inl e \<Rightarrow> Inl e
      | Inr src \<Rightarrow> (case tl_gofumpt w src of Inl e \<Rightarrow> Inl (LibErr e) | Inr out \<Rightarrow> Inr (src = out)))"

definition format_step :: "tools \<Rightarrow> fsys \<Rightarrow> Violation list \<Rightarrow> string \<Rightarrow> check_err + Violation list" where
  "format_step w fs vs path =
     (if path_ext path \<noteq> goExt then Inr vs
      else (case IsGenerated fs path of Inl e \<Rightarrow> Inl (FileError e)
        | Inr True \<Rightarrow> Inr vs
        | Inr False \<Rightarrow>
           (case isFormatted w fs path of Inl e \<Rightarrow> Inl e
            | Inr ok \<Rightarrow> Inr (if ok then vs
                 else vs @ [\<lparr>v_File = path, v_Line = 0,
                             v_Message = ''not formatted by gofumpt; run: mmw check format --fix''\<rparr>]))))"

definition formatCheck :: "tools \<Rightarrow> fsys \<Rightarrow> string list \<Rightarrow> check_err + Result" where
  "formatCheck w fs targets =
     (case resolveTargets w targets [goExt] of Inl e \<Rightarrow> Inl e
      | Inr files \<Rightarrow> (case foldM (format_step w fs) [] files of Inl e \<Rightarrow> Inl e
         | Inr vs \<Rightarrow> Inr (new_result ''format'' vs)))"

definition formatFile :: "tools \<Rightarrow> fsys \<Rightarrow> string \<Rightarrow> check_err + fsys" where
  "formatFile w fs path =
     (case fs path of Missing e \<Rightarrow> Inl (FileError (StatErr path e))
      | File src mode \<Rightarrow>
         (case tl_gofumpt w src of Inl e \<Rightarrow> Inl (LibErr e)
          | Inr out \<Rightarrow> (case tl_writeErr w path of Some e \<Rightarrow> Inl (FileError (WriteErr path e))
             | None \<Rightarrow> Inr (fs(path := File out mode))))
      | Unreadable _ e \<Rightarrow> Inl (FileError (ReadErr path e))
      | Directory \<Rightarrow> Inl (FileError (ReadErr path ''is a directory'')))"

definition format_fix_step :: "tools \<Rightarrow> fsys \<Rightarrow> string \<Rightarrow> check_err + fsys" where
  "format_fix_step w fs path =
     (if path_ext path \<noteq> goExt then Inr fs
      else (case IsGenerated fs path of Inl e \<Rightarrow> Inl (FileError e)
        | Inr True \<Rightarrow> Inr fs
        | Inr False \<Rightarrow> formatFile w fs path))"

definition formatFix :: "tools \<Rightarrow> fsys \<Rightarrow> string list \<Rightarrow> check_err + fsys" where
  "formatFix w fs targets =
     (case resolveTargets w targets [goExt] of Inl e \<Rightarrow> Inl e
      | Inr files \<Rightarrow> foldM (format_fix_step w) fs files)"

definition tomlCheck :: "tools \<Rightarrow> fsys \<Rightarrow> string list \<Rightarrow> check_err + Result" where
  "tomlCheck w fs targets =
     (case resolveTargets w targets [''.toml''] of Inl e \<Rightarrow> Inl e
      | Inr files \<Rightarrow>
         (case foldM (\<lambda>vs path. if path_ext path \<noteq> ''.toml'' then Inr vs
              else (case read_file fs path of Inl e \<Rightarrow> Inl e
                | Inr data \<Rightarrow> Inr (case tl_toml w data of None \<Rightarrow> vs
                     | Some e \<Rightarrow> vs @ [\<lparr>v_File = path, v_Line = 0, v_Message = e\<rparr>]))) [] files of
            Inl e \<Rightarrow> Inl e | Inr vs \<Rightarrow> Inr (new_result ''toml'' vs)))"

text \<open>\<open>^(.*):(\d+):\d+: (.*)$\<close>: the first group is greedy, so the last place where the rest matches
  wins. \<open>strconv.Atoi\<close> fails above the largest \<open>int\<close>.\<close>

definition parse_rest :: "string \<Rightarrow> (string \<times> string) option" where
  "parse_rest s =
     (case s of [] \<Rightarrow> None
      | c # s1 \<Rightarrow>
         (if c \<noteq> CHR '':'' then None
          else let d1 = takeWhile is_digit s1; s2 = dropWhile is_digit s1 in
            if d1 = [] then None
            else (case s2 of [] \<Rightarrow> None
              | c2 # s3 \<Rightarrow>
                 (if c2 \<noteq> CHR '':'' then None
                  else let d2 = takeWhile is_digit s3; s4 = dropWhile is_digit s3 in
                    if d2 = [] then None
                    else (case cutPrefix s4 '': '' of None \<Rightarrow> None | Some msg \<Rightarrow> Some (d1, msg))))))"

fun match_problem :: "string \<Rightarrow> string \<Rightarrow> (string \<times> string \<times> string) option" where
  "match_problem pre [] = None"
| "match_problem pre (c # cs) =
     (case match_problem (pre @ [c]) cs of Some m \<Rightarrow> Some m
      | None \<Rightarrow> map_option (\<lambda>(d, msg). (pre, d, msg)) (parse_rest (c # cs)))"

definition maxInt64 :: nat where
  "maxInt64 = 2 ^ 63 - 1"

definition parseYamllintProblem :: "string \<Rightarrow> Violation" where
  "parseYamllintProblem line =
     (case match_problem [] line of
        None \<Rightarrow> \<lparr>v_File = [], v_Line = 0, v_Message = line\<rparr>
      | Some (file, d, msg) \<Rightarrow>
         (if maxInt64 < digits_val d then \<lparr>v_File = [], v_Line = 0, v_Message = line\<rparr>
          else \<lparr>v_File = file, v_Line = digits_val d, v_Message = msg\<rparr>))"

definition yamlCheck :: "tools \<Rightarrow> string list \<Rightarrow> check_err + Result" where
  "yamlCheck w targets =
     (case resolveTargets w targets [''.yaml'', ''.yml''] of Inl e \<Rightarrow> Inl e
      | Inr files \<Rightarrow>
         (let yamlFiles = FilterByExt files [''.yaml'', ''.yml''] in
          if yamlFiles = [] then Inr (new_result ''yaml'' [])
          else if \<not> tl_lookPath w ''yamllint'' then Inl (ToolErr ''checks: yamllint not found on PATH'')
          else (case tl_yamllint w ([''-d'', ''relaxed'', ''-f'', ''parsable'', ''--no-warnings''] @ yamlFiles) of
            (runErr, out) \<Rightarrow>
              if runErr \<and> tl_cancelled w then Inl (ToolErr ''yaml'')
              else Inr (new_result ''yaml'' (map parseYamllintProblem (splitLines out))))))"

definition hasGoFileTargets :: "string list \<Rightarrow> bool" where
  "hasGoFileTargets targets = list_ex (\<lambda>t. path_ext t = goExt) targets"

definition resolveLintTargets :: "bool \<Rightarrow> string list \<Rightarrow> string list \<times> bool" where
  "resolveLintTargets filesMode targets =
     (if filesMode \<or> hasGoFileTargets targets
      then (let pkgs = PackageDirsFromFiles targets in (pkgs, pkgs = []))
      else if targets = [] then ([''./...''], False) else (targets, False))"

definition lintCheck :: "tools \<Rightarrow> bool \<Rightarrow> string list \<Rightarrow> check_err + Result" where
  "lintCheck w filesMode targets =
     (if \<not> tl_lookPath w ''golangci-lint'' then Inl (ToolErr ''checks: golangci-lint not found on PATH'')
      else (case resolveLintTargets filesMode targets of (runTargets, skip) \<Rightarrow>
        if skip then Inr (new_result ''lint'' [])
        else let runErr = tl_golangci w (''run'' # runTargets) in
          if runErr \<and> tl_cancelled w then Inl (ToolErr ''lint'')
          else if runErr then Inr (withFailed (new_result ''lint'' []))
          else Inr (new_result ''lint'' [])))"

subsection \<open>precommit.go\<close>

type_synonym checker = "string list \<Rightarrow> check_err + Result"

fun runCheckers :: "checker list \<Rightarrow> string list \<Rightarrow> bool \<Rightarrow> Result list \<Rightarrow> check_err option \<times> Result list" where
  "runCheckers [] targets failFast results = (None, results)"
| "runCheckers (c # cs) targets failFast results =
     (case c targets of Inl e \<Rightarrow> (Some e, results)
      | Inr r \<Rightarrow> (if failFast \<and> HasViolations r then (None, results @ [r])
                else runCheckers cs targets failFast (results @ [r])))"

definition RunPreCommit :: "checker list \<Rightarrow> string list \<Rightarrow> bool \<Rightarrow> check_err option \<times> Result list" where
  "RunPreCommit cs targets failFast = runCheckers cs targets failFast []"

datatype outcome = NothingToCheck | AllPassed | ViolationsFound | Failed check_err

definition violation_line :: "string \<Rightarrow> Violation \<Rightarrow> string" where
  "violation_line name v =
     ''['' @ name @ ''] '' @ v_File v @ (if 0 < v_Line v then '':'' @ show_nat (v_Line v) else []) @ '': '' @ v_Message v @ [LF]"

definition runPreCommit :: "tools \<Rightarrow> fsys \<Rightarrow> bool \<Rightarrow> bool \<Rightarrow> outcome \<times> string" where
  "runPreCommit w fs modified failFast =
     (case SelectFiles w modified of Inl e \<Rightarrow> (Failed e, [])
      | Inr files \<Rightarrow>
         (if files = [] then (NothingToCheck, ''no staged or modified files to check'' @ [LF])
          else (case RunPreCommit [filesCheck w fs, yamlCheck w, tomlCheck w fs, formatCheck w fs, lintCheck w True] files failFast of
             (Some e, _) \<Rightarrow> (Failed e, [])
           | (None, results) \<Rightarrow>
              (let text = concat (map (\<lambda>r. concat (map (violation_line (res_CheckerName r)) (res_Violations r))) results) in
               if list_ex HasViolations results then (ViolationsFound, text)
               else (AllPassed, text @ ''pre-commit: all checks passed'' @ [LF])))))"

subsection \<open>What a run of the checkers shows\<close>

text \<open>A run without an error has called a first part of the checkers, in order; it stops early only
  after a result with violations, and only when asked to.\<close>

lemma runCheckers_spec:
  assumes "runCheckers cs targets failFast acc = (None, results)"
  shows "\<exists>n rs. results = acc @ rs \<and> n \<le> length cs \<and> map (\<lambda>c. c targets) (take n cs) = map Inr rs \<and>
    (n < length cs \<longrightarrow> failFast \<and> rs \<noteq> [] \<and> HasViolations (last rs))"
  using assms
proof (induction cs arbitrary: acc)
  case Nil
  then show ?case by simp
next
  case (Cons c cs)
  then obtain r where r: "c targets = Inr r" by (auto split: sum.splits)
  show ?case
  proof (cases "failFast \<and> HasViolations r")
    case True
    with Cons.prems r have "results = acc @ [r]" by simp
    with True r show ?thesis by (intro exI [of _ 1] exI [of _ "[r]"]) auto
  next
    case False
    with Cons.prems r have "runCheckers cs targets failFast (acc @ [r]) = (None, results)" by auto
    from Cons.IH [OF this] obtain n rs where "results = (acc @ [r]) @ rs" "n \<le> length cs"
      "map (\<lambda>c. c targets) (take n cs) = map Inr rs" "n < length cs \<longrightarrow> failFast \<and> rs \<noteq> [] \<and> HasViolations (last rs)"
      by blast
    with r show ?thesis by (intro exI [of _ "Suc n"] exI [of _ "r # rs"]) auto
  qed
qed

lemma runCheckers_clean:
  assumes "runCheckers cs targets failFast [] = (None, results)" and "\<not> list_ex HasViolations results"
  shows "\<forall>c \<in> set cs. \<exists>r. c targets = Inr r \<and> \<not> HasViolations r"
proof -
  from runCheckers_spec [OF assms(1)] obtain n where n: "n \<le> length cs" "map (\<lambda>c. c targets) (take n cs) = map Inr results"
    "n < length cs \<longrightarrow> failFast \<and> results \<noteq> [] \<and> HasViolations (last results)" by auto
  have "n = length cs" using n(1,3) assms(2) by (auto simp: list_ex_iff)
  with n(2) have e: "map (\<lambda>c. c targets) cs = map Inr results" by simp
  show ?thesis
  proof
    fix c assume "c \<in> set cs"
    then obtain i where i: "i < length cs" "cs ! i = c" by (auto simp: in_set_conv_nth)
    with e have l: "length results = length cs" by (metis length_map)
    have "c targets = Inr (results ! i)" using i l arg_cong [OF e, of "\<lambda>xs. xs ! i"] by simp
    moreover have "\<not> HasViolations (results ! i)" using assms(2) i l by (auto simp: list_ex_iff)
    ultimately show "\<exists>r. c targets = Inr r \<and> \<not> HasViolations r" by blast
  qed
qed

subsection \<open>Formatting as a fix\<close>

text \<open>What the check relies on of gofumpt: its output is one it leaves unchanged.\<close>

definition fmt_fixable :: "(string \<Rightarrow> string + string) \<Rightarrow> string \<Rightarrow> bool" where
  "fmt_fixable fmt src = (case fmt src of Inl _ \<Rightarrow> False | Inr out \<Rightarrow> fmt out = Inr out)"

definition fmt_clean :: "(string \<Rightarrow> string + string) \<Rightarrow> string \<Rightarrow> bool" where
  "fmt_clean fmt src = (fmt src = Inr src)"

definition fmt_fix :: "(string \<Rightarrow> string + string) \<Rightarrow> string \<Rightarrow> string" where
  "fmt_fix fmt src = (case fmt src of Inl _ \<Rightarrow> src | Inr out \<Rightarrow> out)"

interpretation gofumpt: fixer "fmt_fixable fmt" "fmt_clean fmt" "fmt_fix fmt" for fmt
  by unfold_locales (auto simp: fmt_fixable_def fmt_clean_def fmt_fix_def split: sum.splits)

lemma formatFile_ok:
  assumes "fs path = File src mode" and "fmt_fixable (tl_gofumpt w) src" and "tl_writeErr w path = None"
  shows "formatFile w fs path = Inr (fs(path := File (fmt_fix (tl_gofumpt w) src) mode))"
    and "isFormatted w (fs(path := File (fmt_fix (tl_gofumpt w) src) mode)) path = Inr True"
proof -
  from assms(2) obtain out where out: "tl_gofumpt w src = Inr out"
    by (auto simp: fmt_fixable_def split: sum.splits)
  show "formatFile w fs path = Inr (fs(path := File (fmt_fix (tl_gofumpt w) src) mode))"
    using assms out by (simp add: formatFile_def fmt_fix_def)
  show "isFormatted w (fs(path := File (fmt_fix (tl_gofumpt w) src) mode)) path = Inr True"
    using gofumpt.fix_clean [OF assms(2)] by (simp add: isFormatted_def read_file_def fmt_clean_def)
qed

subsection \<open>yamllint's report\<close>

lemma takeWhile_digits:
  "takeWhile is_digit (show_nat n @ CHR '':'' # r) = show_nat n"
  "dropWhile is_digit (show_nat n @ CHR '':'' # r) = CHR '':'' # r"
proof -
  have "\<And>c. c \<in> set (show_nat n) \<Longrightarrow> is_digit c" by (rule show_nat_digits)
  moreover have "\<not> is_digit (CHR '':'')" by (simp add: is_digit_def)
  ultimately show "takeWhile is_digit (show_nat n @ CHR '':'' # r) = show_nat n"
    "dropWhile is_digit (show_nat n @ CHR '':'' # r) = CHR '':'' # r"
    by (simp_all add: takeWhile_append2 dropWhile_append2)
qed

lemma parse_rest_ok:
  "parse_rest ('':'' @ show_nat l @ '':'' @ show_nat c @ '': '' @ msg) = Some (show_nat l, msg)"
  using takeWhile_digits [of l "show_nat c @ '': '' @ msg"] takeWhile_digits [of c "CHR '' '' # msg"]
  by (simp add: parse_rest_def Let_def cutPrefix_def)

text \<open>No suffix of the text looks like the position of a problem.\<close>

fun no_problem :: "string \<Rightarrow> bool" where
  "no_problem [] = True"
| "no_problem (c # cs) = (parse_rest (c # cs) = None \<and> no_problem cs)"

lemma match_problem_none: "no_problem s \<Longrightarrow> match_problem pre s = None"
  by (induction s arbitrary: pre) auto

lemma match_problem_last:
  assumes "parse_rest (c # s) = Some (d, msg)" and "no_problem s"
  shows "match_problem pre (path @ c # s) = Some (pre @ path, d, msg)"
proof (induction path arbitrary: pre)
  case Nil
  show ?case by (simp add: assms match_problem_none)
next
  case (Cons x path)
  show ?case using Cons [of "pre @ [x]"] by simp
qed

lemma parse_rest_no_colon: "c \<noteq> CHR '':'' \<Longrightarrow> parse_rest (c # s) = None"
  by (simp add: parse_rest_def)

lemma no_problem_digits: "(\<And>c. c \<in> set x \<Longrightarrow> is_digit c) \<Longrightarrow> no_problem s \<Longrightarrow> no_problem (x @ s)"
proof (induction x)
  case (Cons c x)
  have "c \<noteq> CHR '':''" using Cons.prems(1) [of c] by (auto simp: is_digit_def)
  with Cons show ?case by (simp add: parse_rest_no_colon)
qed simp

lemma no_problem_nat: "no_problem s \<Longrightarrow> no_problem (show_nat n @ s)"
  by (rule no_problem_digits) (erule show_nat_digits)

lemma no_problem_position:
  assumes "no_problem msg"
  shows "no_problem (show_nat l @ '':'' @ show_nat c @ '': '' @ msg)"
proof -
  have "\<not> is_digit (CHR '' '')" by (simp add: is_digit_def)
  then have "parse_rest (CHR '':'' # CHR '' '' # msg) = None" by (simp add: parse_rest_def Let_def)
  then have "no_problem ('': '' @ msg)" using assms by (simp add: parse_rest_no_colon)
  then have 1: "no_problem (show_nat c @ '': '' @ msg)" by (rule no_problem_nat)
  have "parse_rest (CHR '':'' # show_nat c @ CHR '':'' # CHR '' '' # msg) = None"
    using takeWhile_digits [of c "CHR '' '' # msg"] \<open>\<not> is_digit (CHR '' '')\<close> by (simp add: parse_rest_def Let_def)
  then have "no_problem ('':'' @ show_nat c @ '': '' @ msg)" using 1 by simp
  then show ?thesis by (rule no_problem_nat)
qed

lemma match_problem_line:
  assumes "no_problem msg"
  shows "match_problem [] (path @ '':'' @ show_nat l @ '':'' @ show_nat c @ '': '' @ msg) = Some (path, show_nat l, msg)"
  using match_problem_last [OF parse_rest_ok [of l c msg, simplified] no_problem_position [OF assms, of l c, simplified], of "[]" path]
  by simp

end
