(* ===== verification/Work_File.thy ===== *)
theory Work_File
  imports Scaffold_Vars Checks
begin

text \<open>
  The workspace files and the commands over the workspace's modules: \<open>pkg/scaffold/workspace.go\<close>,
  \<open>cmd/mmw/cmd/workspace\<close> and the workspace mode of \<open>cmd/mmw/cmd/check/lint.go\<close>. The commands run
  programs through the \<open>runner\<close> of \<open>Go_OS\<close> and log what they print and run.
\<close>

subsection \<open>go.work\<close>

definition work_entry :: "string \<Rightarrow> string" where
  "work_entry name = CHR 0x09 # ''./modules/'' @ name"

definition UpdateGoWork_text :: "string \<Rightarrow> string \<Rightarrow> scaffold_err + string option" where
  "UpdateGoWork_text content name =
     (if contains (content @ [LF]) (work_entry name @ [LF]) then Inr None
      else (case str_index content ''use ('' of None \<Rightarrow> Inl NoUseBlock
        | Some useIdx \<Rightarrow> (case str_index (drop useIdx content) [LF, CHR '')''] of None \<Rightarrow> Inl UnclosedUseBlock
           | Some closeIdx \<Rightarrow>
               (let pos = useIdx + closeIdx in
                Inr (Some (take pos content @ [LF] @ work_entry name @ drop pos content))))))"

definition UpdateGoWork ::
    "(string \<Rightarrow> string option) \<Rightarrow> fsys \<Rightarrow> string \<Rightarrow> string \<Rightarrow> scaffold_err + fsys" where
  "UpdateGoWork writeErr fs repoRoot name =
     (let goWorkPath = path_join [repoRoot, ''go.work''] in
      case os_ReadFile fs goWorkPath of Inl e \<Rightarrow> Inl (ReadFailed ''go.work'' e)
      | Inr content \<Rightarrow> (case UpdateGoWork_text content name of Inl e \<Rightarrow> Inl e
         | Inr None \<Rightarrow> Inr fs
         | Inr (Some updated) \<Rightarrow> (case os_WriteFile writeErr fs goWorkPath updated of
              Inl e \<Rightarrow> Inl (WriteFailed ''go.work'' e) | Inr fs' \<Rightarrow> Inr fs')))"

text \<open>The scan of the use directives: whether the line read is inside a use block, and the
  modules found so far.\<close>

definition work_line :: "bool \<times> string list \<Rightarrow> string \<Rightarrow> bool \<times> string list" where
  "work_line st raw =
     (case st of (inUse, modules) \<Rightarrow>
        let line = trimSpace raw in
        if line = ''use ('' then (True, modules)
        else if inUse \<and> line = '')'' then (False, modules)
        else if inUse \<and> line \<noteq> [] then (inUse, modules @ [path_clean line])
        else if hasPrefix line ''use '' \<and> \<not> hasSuffix line ''(''
        then (inUse, modules @ [path_clean (trimSpace (trimPrefix line ''use ''))])
        else (inUse, modules))"

definition work_scan :: "string \<Rightarrow> string list" where
  "work_scan data = snd (foldl work_line (False, []) (fst (scan_default data)))"

datatype work_err = WorkRead string | WorkTooLong | NoModules

definition workModules :: "fsys \<Rightarrow> string \<Rightarrow> work_err + string list" where
  "workModules fs root =
     (case os_ReadFile fs (path_join [root, ''go.work'']) of Inl e \<Rightarrow> Inl (WorkRead e)
      | Inr data \<Rightarrow>
         (if snd (scan_default data) then Inl WorkTooLong
          else if work_scan data = [] then Inl NoModules else Inr (work_scan data)))"

text \<open>The lint command carries its own copy of the same scan.\<close>

definition goWorkModules :: "fsys \<Rightarrow> string \<Rightarrow> work_err + string list" where
  "goWorkModules fs root =
     (case os_ReadFile fs (path_join [root, ''go.work'']) of Inl e \<Rightarrow> Inl (WorkRead e)
      | Inr data \<Rightarrow>
         (let modules = snd (foldl work_line (False, []) (fst (scan_default data))) in
          if snd (scan_default data) then Inl WorkTooLong
          else if modules = [] then Inl NoModules else Inr modules))"

subsection \<open>mise.toml\<close>

definition quote :: char where
  "quote = CHR 0x22"

definition mise_marker :: "string \<Rightarrow> string" where
  "mise_marker name = ''[tasks.'' @ [quote] @ name @ '':test'' @ [quote] @ '']''"

definition mise_task :: "string \<Rightarrow> string \<Rightarrow> string \<Rightarrow> string \<Rightarrow> string" where
  "mise_task name sfx desc run =
     [LF] @ ''[tasks.'' @ [quote] @ name @ sfx @ [quote] @ '']'' @ [LF] @
     ''description = '' @ [quote] @ desc @ '' '' @ name @ '' module'' @ [quote] @ [LF] @
     ''run = '' @ [quote] @ ''cd modules/'' @ name @ '' && mise run '' @ run @ [quote] @ [LF]"

definition mise_addition :: "string \<Rightarrow> bool \<Rightarrow> bool \<Rightarrow> string" where
  "mise_addition name database grpc =
     mise_task name '':test'' ''Run unit tests for'' ''test:unit'' @
     mise_task name '':test:contract'' ''Run contract tests for'' ''test:contract'' @
     (if database then mise_task name '':test:integration'' ''Run integration tests for'' ''test:integration'' else []) @
     (if grpc then mise_task name '':run'' ''Run the'' ''run'' else [])"

definition UpdateMiseToml ::
    "(string \<Rightarrow> string option) \<Rightarrow> fsys \<Rightarrow> string \<Rightarrow> string \<Rightarrow> bool \<Rightarrow> bool \<Rightarrow> scaffold_err + fsys" where
  "UpdateMiseToml writeErr fs repoRoot name database grpc =
     (let misePath = path_join [repoRoot, ''mise.toml''] in
      case os_ReadFile fs misePath of Inl e \<Rightarrow> Inl (ReadFailed ''mise.toml'' e)
      | Inr content \<Rightarrow>
         (if contains content (mise_marker name) then Inr fs
          else (case os_WriteFile writeErr fs misePath (content @ mise_addition name database grpc) of
             Inl e \<Rightarrow> Inl (WriteFailed ''mise.toml'' e) | Inr fs' \<Rightarrow> Inr fs')))"

subsection \<open>Commands over the modules\<close>

datatype cmd_err =
    WorkErr work_err
  | GoErr string
  | GitErr string
  | OpenErr string
  | NoModuleDirective string
  | TooLong string
  | VerifyFailed "string list"
  | LintFailed check_err
  | LintViolations "string list"
  | ArgRequired

definition runGoCmd :: "runner \<Rightarrow> string \<Rightarrow> string list \<Rightarrow> world \<Rightarrow> cmd_err option \<times> world" where
  "runGoCmd run dir args w = (case exec_cmd run dir (''go'' # args) w of (err, w') \<Rightarrow> (map_option GoErr err, w'))"

text \<open>Box-drawing rule, arrow, check mark and cross, in UTF-8.\<close>

definition rule2 :: string where
  "rule2 = [CHR 0xE2, CHR 0x94, CHR 0x80, CHR 0xE2, CHR 0x94, CHR 0x80]"

definition arrow :: string where
  "arrow = [CHR 0xE2, CHR 0x86, CHR 0x92]"

definition tick :: string where
  "tick = [CHR 0xE2, CHR 0x9C, CHR 0x93]"

definition cross :: string where
  "cross = [CHR 0xE2, CHR 0x9C, CHR 0x97]"

fun tidy_modules :: "runner \<Rightarrow> string \<Rightarrow> string list \<Rightarrow> world \<Rightarrow> cmd_err option \<times> world" where
  "tidy_modules run root [] w = runGoCmd run root [''work'', ''sync''] w"
| "tidy_modules run root (md # mods) w =
     (case runGoCmd run (path_join [root, md]) [''mod'', ''tidy'']
             (print_out (rule2 @ '' tidy '' @ md @ '' '' @ rule2 @ [LF]) w) of
        (Some e, w') \<Rightarrow> (Some e, w')
      | (None, w') \<Rightarrow> tidy_modules run root mods w')"

definition tidy_cmd :: "runner \<Rightarrow> string \<Rightarrow> world \<Rightarrow> cmd_err option \<times> world" where
  "tidy_cmd run root w = (case workModules (w_fs w) root of Inl e \<Rightarrow> (Some (WorkErr e), w)
     | Inr modules \<Rightarrow> tidy_modules run root modules w)"

text \<open>\<open>status\<close> verifies every module and names the failed ones at the end.\<close>

fun verify_modules :: "runner \<Rightarrow> string \<Rightarrow> string list \<Rightarrow> string list \<Rightarrow> world \<Rightarrow> string list \<times> world" where
  "verify_modules run root [] failed w = (failed, w)"
| "verify_modules run root (md # mods) failed w =
     (case exec_cmd run (path_join [root, md]) [''go'', ''mod'', ''verify''] w of
        (Some _, w') \<Rightarrow> verify_modules run root mods (failed @ [md]) (print_out (''  '' @ cross @ '' '' @ md @ [LF]) w')
      | (None, w') \<Rightarrow> verify_modules run root mods failed (print_out (''  '' @ tick @ '' '' @ md @ [LF]) w'))"

definition runStatus :: "runner \<Rightarrow> string \<Rightarrow> world \<Rightarrow> cmd_err option \<times> world" where
  "runStatus run root w =
     (case workModules (w_fs w) root of Inl e \<Rightarrow> (Some (WorkErr e), w)
      | Inr modules \<Rightarrow>
         (case verify_modules run root modules [] w of (failed, w1) \<Rightarrow>
            (case runGoCmd run root [''work'', ''sync''] w1 of
               (Some e, w2) \<Rightarrow> (Some e, w2)
             | (None, w2) \<Rightarrow> (if failed \<noteq> [] then Some (VerifyFailed failed) else None, w2))))"

text \<open>\<open>sync\<close>. \<open>head\<close> is the answer of \<open>git rev-parse HEAD\<close> in a directory.\<close>

definition gitCommit :: "(string \<Rightarrow> string + string) \<Rightarrow> string \<Rightarrow> cmd_err + string" where
  "gitCommit head dir = (case head dir of Inl e \<Rightarrow> Inl (GitErr e) | Inr out \<Rightarrow> Inr (trimSpace out))"

fun find_module_line :: "string list \<Rightarrow> string option" where
  "find_module_line [] = None"
| "find_module_line (raw # ls) =
     (let line = trimSpace raw in
      if hasPrefix line ''module '' then Some (trimSpace (trimPrefix line ''module '')) else find_module_line ls)"

definition readModuleName :: "fsys \<Rightarrow> string \<Rightarrow> cmd_err + string" where
  "readModuleName fs dir =
     (case os_ReadFile fs (path_join [dir, ''go.mod'']) of Inl e \<Rightarrow> Inl (OpenErr e)
      | Inr data \<Rightarrow>
         (case find_module_line (fst (scan_default data)) of Some n \<Rightarrow> Inr n
          | None \<Rightarrow> (if snd (scan_default data) then Inl (TooLong dir) else Inl (NoModuleDirective dir))))"

definition shortHashLen :: nat where
  "shortHashLen = 8"

text \<open>One dependent module: skipped when it is the module itself or does not mention it.\<close>

definition sync_dependent ::
    "runner \<Rightarrow> string \<Rightarrow> string \<Rightarrow> string \<Rightarrow> string \<Rightarrow> string \<Rightarrow> world \<Rightarrow> cmd_err option \<times> world" where
  "sync_dependent run root absModDir moduleName moduleRef md w =
     (let depDir = path_join [root, md] in
      if depDir = absModDir then (None, w)
      else (case os_ReadFile (w_fs w) (path_join [depDir, ''go.mod'']) of
          Inl e \<Rightarrow> (Some (OpenErr e), w)
        | Inr goModData \<Rightarrow>
            (if \<not> contains goModData moduleName then (None, w)
             else (case runGoCmd run depDir [''get'', moduleRef]
                          (print_out (''  '' @ arrow @ '' updating '' @ md @ [LF]) w) of
                (Some e, w1) \<Rightarrow> (Some e, w1)
              | (None, w1) \<Rightarrow> runGoCmd run depDir [''mod'', ''tidy''] w1))))"

fun each_module :: "(string \<Rightarrow> world \<Rightarrow> cmd_err option \<times> world) \<Rightarrow> string list \<Rightarrow> world \<Rightarrow> cmd_err option \<times> world" where
  "each_module f [] w = (None, w)"
| "each_module f (m # ms) w = (case f m w of (Some e, w') \<Rightarrow> (Some e, w') | (None, w') \<Rightarrow> each_module f ms w')"

definition syncModule ::
    "runner \<Rightarrow> (string \<Rightarrow> string + string) \<Rightarrow> string \<Rightarrow> string \<Rightarrow> world \<Rightarrow> cmd_err option \<times> world" where
  "syncModule run head root modPath w =
     (let absModDir = path_join [root, modPath] in
      case gitCommit head absModDir of Inl e \<Rightarrow> (Some e, w)
      | Inr commit \<Rightarrow> (case readModuleName (w_fs w) absModDir of Inl e \<Rightarrow> (Some e, w)
         | Inr moduleName \<Rightarrow>
             (let w1 = print_out (rule2 @ '' sync '' @ moduleName @ '' @ '' @ take shortHashLen commit @ '' '' @ rule2 @ [LF]) w in
              case workModules (w_fs w1) root of Inl e \<Rightarrow> (Some (WorkErr e), w1)
              | Inr modules \<Rightarrow>
                  each_module (sync_dependent run root absModDir moduleName (moduleName @ ''@'' @ commit)) modules w1)))"

definition sync_cmd ::
    "runner \<Rightarrow> (string \<Rightarrow> string + string) \<Rightarrow> string \<Rightarrow> bool \<Rightarrow> string list \<Rightarrow> world \<Rightarrow> cmd_err option \<times> world" where
  "sync_cmd run head root allModules args w =
     (let targets = (if allModules then (case workModules (w_fs w) root of Inl e \<Rightarrow> Inl (WorkErr e) | Inr ms \<Rightarrow> Inr ms)
                     else if args = [] then Inl ArgRequired else Inr [args ! 0]) in
      case targets of Inl e \<Rightarrow> (Some e, w)
      | Inr ms \<Rightarrow> (case each_module (syncModule run head root) ms w of
           (Some e, w') \<Rightarrow> (Some e, w')
         | (None, w') \<Rightarrow> runGoCmd run root [''work'', ''sync''] w'))"

text \<open>\<open>lint --workspace\<close>: \<open>lintAt\<close> is the lint checker of a module directory.\<close>

fun lint_modules ::
    "(string \<Rightarrow> check_err + Result) \<Rightarrow> string \<Rightarrow> string list \<Rightarrow> string list \<Rightarrow> string
       \<Rightarrow> (check_err + string list) \<times> string" where
  "lint_modules lintAt root [] failed out = (Inr failed, out @ [LF])"
| "lint_modules lintAt root (md # mds) failed out =
     (let out' = out @ [LF] @ rule2 @ '' lint '' @ md @ '' '' @ rule2 @ [LF] in
      case lintAt (path_join [root, md]) of Inl e \<Rightarrow> (Inl e, out')
      | Inr r \<Rightarrow> lint_modules lintAt root mds (if HasViolations r then failed @ [md] else failed) out')"

definition lintWorkspace :: "(string \<Rightarrow> tools) \<Rightarrow> fsys \<Rightarrow> string \<Rightarrow> cmd_err option \<times> string" where
  "lintWorkspace toolsAt fs root =
     (case goWorkModules fs root of Inl e \<Rightarrow> (Some (WorkErr e), [])
      | Inr modules \<Rightarrow> (case lint_modules (\<lambda>dir. lintCheck (toolsAt dir) False []) root modules [] [] of
           (Inl e, out) \<Rightarrow> (Some (LintFailed e), out)
         | (Inr failed, out) \<Rightarrow> (if failed \<noteq> [] then Some (LintViolations failed) else None, out)))"

subsection \<open>A go.work with a use block\<close>

text \<open>The text of a go.work: the lines before the use block, the block, the lines after it.\<close>

definition work_text :: "string list \<Rightarrow> string list \<Rightarrow> string list \<Rightarrow> string" where
  "work_text pre block post = join [LF] (pre @ [''use (''] @ block @ ['')''] @ post)"

definition read_line :: "string \<Rightarrow> string" where
  "read_line l = trimSpace (dropCR l)"

definition work_wf :: "string list \<Rightarrow> string list \<Rightarrow> string list \<Rightarrow> bool" where
  "work_wf pre block post \<longleftrightarrow>
     list_all (\<lambda>l. LF \<notin> set l \<and> token_fits l) (pre @ block @ post) \<and>
     list_all (\<lambda>l. \<not> contains l ''use ('' \<and> read_line l \<noteq> ''use ('') pre \<and>
     list_all (\<lambda>l. \<not> prefix '')'' l \<and> read_line l \<noteq> '')'') block"

lemma join_split_lines: "ys \<noteq> [] \<Longrightarrow> join [c] (xs @ ys) = concat (map (\<lambda>l. l @ [c]) xs) @ join [c] ys"
  by (induction xs) (auto simp: join_Cons)

lemma UpdateGoWork_text_fresh:
  assumes wf: "work_wf pre block post" and new: "\<not> contains (work_text pre block post @ [LF]) (work_entry name @ [LF])"
  shows "UpdateGoWork_text (work_text pre block post) name = Inr (Some (work_text pre (block @ [work_entry name]) post))"
proof -
  let ?A = "concat (map (\<lambda>l. l @ [LF]) pre)" and ?B = "join [LF] (''use ('' # block)" and ?C = "join [LF] ('')'' # post)"
  obtain R where R: "?C = CHR '')'' # R" by (cases post) simp_all
  have rest: "join [LF] ([''use (''] @ block @ ['')''] @ post) = ?B @ LF # ?C"
    using join_append [of "''use ('' # block" "'')'' # post" "[LF]"] by simp
  have tx: "work_text pre block post = ?A @ ?B @ LF # ?C"
    unfolding work_text_def by (subst join_split_lines) (simp_all only: rest, simp)
  have tx': "work_text pre (block @ [e]) post = ?A @ ?B @ [LF] @ e @ LF # ?C" for e
    unfolding work_text_def using join_append [of "''use ('' # block @ [e]" "'')'' # post" "[LF]"]
      join_append [of "''use ('' # block" "[e]" "[LF]"]
    by (subst join_split_lines) simp_all
  have "prefix ''use ('' (?B @ LF # ?C)" by (simp add: join_Cons)
  then have i: "str_index (work_text pre block post) ''use ('' = Some (length ?A)"
    unfolding tx using wf by (intro str_index_lines) (auto simp: work_wf_def list_all_iff LF_def)
  have c: "str_index (?B @ LF # ?C) [LF, CHR '')''] = Some (length ?B)"
    unfolding R using wf by (intro str_index_first_start) (auto simp: work_wf_def list_all_iff LF_def)
  have "drop (length ?A) (work_text pre block post) = ?B @ LF # ?C"
    "take (length ?A + length ?B) (work_text pre block post) = ?A @ ?B"
    "drop (length ?A + length ?B) (work_text pre block post) = LF # ?C"
    by (simp_all add: tx)
  with new i c tx' [of "work_entry name"] show ?thesis
    by (simp add: UpdateGoWork_text_def Let_def)
qed

text \<open>Whatever the file holds, the entry is in it after an update.\<close>

lemma UpdateGoWork_text_contains:
  assumes "UpdateGoWork_text content name = Inr (Some t)"
  shows "contains (t @ [LF]) (work_entry name @ [LF])"
proof -
  from assms obtain u c where u: "str_index content ''use ('' = Some u"
    and c: "str_index (drop u content) [LF, CHR '')''] = Some c"
    and t: "t = take (u + c) content @ [LF] @ work_entry name @ drop (u + c) content"
    by (auto simp: UpdateGoWork_text_def Let_def split: if_splits option.splits)
  from str_index_Some [OF c] have "drop c (drop u content) = [LF, CHR '')''] @ drop (c + 2) (drop u content)"
    by (metis append_eq_conv_conj length_Cons list.size(3) numeral_2_eq_2 append_take_drop_id)
  then have "drop (u + c) content = [LF, CHR '')''] @ drop (c + 2) (drop u content)"
    by (simp add: add.commute)
  then have "t @ [LF] = (take (u + c) content @ [LF]) @ (work_entry name @ [LF]) @ (CHR '')'' # drop (c + 2) (drop u content) @ [LF])"
    unfolding t by simp
  then show ?thesis by (metis contains_append)
qed

lemma UpdateGoWork_idem:
  assumes "UpdateGoWork writeErr fs root name = Inr fs'"
  shows "UpdateGoWork writeErr fs' root name = Inr fs'"
proof -
  let ?p = "path_join [root, ''go.work'']"
  from assms obtain content where r: "os_ReadFile fs ?p = Inr content"
    by (auto simp: UpdateGoWork_def Let_def split: sum.splits)
  show ?thesis
  proof (cases "UpdateGoWork_text content name")
    case (Inl e)
    with assms r show ?thesis by (simp add: UpdateGoWork_def)
  next
    case (Inr t)
    show ?thesis
    proof (cases t)
      case None
      with assms r Inr show ?thesis by (simp add: UpdateGoWork_def)
    next
      case (Some u)
      with assms r Inr have "fs' = fs(?p := File u (node_mode (fs ?p)))"
        by (auto simp: UpdateGoWork_def os_WriteFile_def Let_def split: option.splits)
      then have "os_ReadFile fs' ?p = Inr u" by simp
      moreover have "UpdateGoWork_text u name = Inr None"
        using UpdateGoWork_text_contains [of content name u] Inr Some by (simp add: UpdateGoWork_text_def)
      ultimately show ?thesis by (simp add: UpdateGoWork_def)
    qed
  qed
qed

subsection \<open>Reading it back\<close>

lemma work_line_empty [simp]: "work_line st [] = st"
  by (cases st) (simp add: work_line_def trimSpace_id hasPrefix_def)

lemma scan_default_join:
  assumes "ls \<noteq> []" and "list_all (\<lambda>l. LF \<notin> set l \<and> token_fits l) ls"
  shows "foldl work_line st (fst (scan_default (join [LF] ls))) = foldl work_line st (map dropCR ls)"
    and "snd (scan_default (join [LF] ls)) = False"
proof -
  have sp: "split_on LF (join [LF] ls) = ls"
    using assms by (intro split_on_join) (auto simp: list_all_iff)
  have fit: "list_all token_fits (raw_lines (join [LF] ls))"
    using assms(2) sp by (auto simp: raw_lines_def list_all_iff dest: in_set_butlastD)
  then show "snd (scan_default (join [LF] ls)) = False" by (simp add: scan_default_def)
  have "takeWhile token_fits (raw_lines (join [LF] ls)) = raw_lines (join [LF] ls)"
    using fit by (simp add: list_all_iff takeWhile_eq_all_conv)
  moreover have "foldl work_line st (map dropCR ls) = foldl work_line st (map dropCR (raw_lines (join [LF] ls)))"
  proof (cases "last ls = []")
    case True
    then have "ls = butlast ls @ [[]]" by (metis append_butlast_last_id assms(1))
    then have "foldl work_line st (map dropCR ls) = foldl work_line st (map dropCR (butlast ls @ [[]]))" by simp
    with True sp show ?thesis by (simp add: raw_lines_def dropCR_def)
  qed (simp add: raw_lines_def sp)
  ultimately show "foldl work_line st (fst (scan_default (join [LF] ls))) = foldl work_line st (map dropCR ls)"
    unfolding scan_default_def fst_conv by (simp only:)
qed

text \<open>The modules found are appended to those found before.\<close>

lemma work_line_append:
  "work_line (u, ms) l = (fst (work_line (u, []) l), ms @ snd (work_line (u, []) l))"
  by (simp add: work_line_def Let_def)

lemma foldl_work_line_append:
  "foldl work_line (u, ms) ls =
     (fst (foldl work_line (u, []) ls), ms @ snd (foldl work_line (u, []) ls))"
proof (induction ls arbitrary: u ms)
  case Nil
  show ?case by simp
next
  case (Cons l ls)
  obtain u' ms' where s: "work_line (u, []) l = (u', ms')" by fastforce
  have "work_line (u, ms) l = (u', ms @ ms')"
    using work_line_append [of u ms l] s by simp
  with Cons.IH [of u' "ms @ ms'"] Cons.IH [of u' ms'] s show ?case by simp
qed

lemma work_line_outside:
  "trimSpace l \<noteq> ''use ('' \<Longrightarrow> fst (work_line (False, ms) l) = False"
  by (simp add: work_line_def Let_def)

lemma foldl_work_line_outside:
  "list_all (\<lambda>l. read_line l \<noteq> ''use ('') ls \<Longrightarrow> fst (foldl work_line (False, ms) (map dropCR ls)) = False"
proof (induction ls arbitrary: ms)
  case (Cons l ls)
  then have "fst (work_line (False, ms) (dropCR l)) = False"
    by (intro work_line_outside) (simp add: read_line_def)
  with Cons show ?case by (cases "work_line (False, ms) (dropCR l)") simp
qed simp

lemma foldl_work_line_inside:
  "list_all (\<lambda>l. read_line l \<noteq> '')'') ls \<Longrightarrow> fst (foldl work_line (True, ms) (map dropCR ls)) = True"
proof (induction ls arbitrary: ms)
  case (Cons l ls)
  then have "fst (work_line (True, ms) (dropCR l)) = True"
    by (simp add: work_line_def Let_def read_line_def)
  with Cons show ?case by (cases "work_line (True, ms) (dropCR l)") simp
qed simp

text \<open>The modules of a go.work: those before, in and after its use block.\<close>

definition modules_outside :: "string list \<Rightarrow> string list" where
  "modules_outside ls = snd (foldl work_line (False, []) (map dropCR ls))"

definition modules_inside :: "string list \<Rightarrow> string list" where
  "modules_inside ls = snd (foldl work_line (True, []) (map dropCR ls))"

lemma work_brackets [simp]:
  "work_line (u, ms) (dropCR ''use ('') = (True, ms)" "work_line (True, ms) (dropCR '')'') = (False, ms)"
proof -
  have "trimSpace (dropCR ''use ('') = ''use (''" "trimSpace (dropCR '')'') = '')''"
    by code_simp+
  then show "work_line (u, ms) (dropCR ''use ('') = (True, ms)" "work_line (True, ms) (dropCR '')'') = (False, ms)"
    by (simp_all add: work_line_def)
qed

lemma work_scan_text:
  assumes "work_wf pre block post"
  shows "work_scan (work_text pre block post) = modules_outside pre @ modules_inside block @ modules_outside post"
    and "snd (scan_default (work_text pre block post)) = False"
proof -
  let ?ls = "pre @ [''use (''] @ block @ ['')''] @ post"
  have all: "list_all (\<lambda>l. LF \<notin> set l \<and> token_fits l) ?ls"
    using assms by (auto simp: work_wf_def list_all_iff LF_def token_fits_def maxScanTokenSize_def)
  then show "snd (scan_default (work_text pre block post)) = False"
    unfolding work_text_def by (intro scan_default_join(2)) simp_all
  obtain A where A: "foldl work_line (False, []) (map dropCR pre) = (False, A)"
    using foldl_work_line_outside [of pre "[]"] assms
    by (cases "foldl work_line (False, []) (map dropCR pre)") (auto simp: work_wf_def list_all_iff)
  have B: "foldl work_line (True, ms) (map dropCR block) = (True, ms @ modules_inside block)" for ms
    using foldl_work_line_append [of True ms "map dropCR block"] foldl_work_line_inside [of block "[]"] assms
    by (simp add: modules_inside_def work_wf_def list_all_iff)
  have "work_scan (work_text pre block post) = snd (foldl work_line (False, []) (map dropCR ?ls))"
    unfolding work_scan_def work_text_def using all by (subst scan_default_join(1)) simp_all
  also have "\<dots> = A @ modules_inside block @ modules_outside post"
    using foldl_work_line_append [of False "A @ modules_inside block" "map dropCR post"]
    by (simp add: A B modules_outside_def)
  finally show "work_scan (work_text pre block post) = modules_outside pre @ modules_inside block @ modules_outside post"
    using A by (simp add: modules_outside_def)
qed

subsection \<open>The entry of a module\<close>

lemma ident_last:
  assumes "identRe name"
  shows "last name \<notin> space_last" "last name \<noteq> CR"
proof -
  have "last name \<in> set name" using identRe_neq_Nil [OF assms] by simp
  then have "48 \<le> (of_char (last name) :: nat) \<and> (of_char (last name) :: nat) \<le> 122"
    using identRe_chars [OF assms] ident_char_range by blast
  moreover have "list_all (\<lambda>c. (of_char c :: nat) < 48 \<or> 122 < (of_char c :: nat)) (CR # map last space_runes)"
    by code_simp
  ultimately show "last name \<notin> space_last" "last name \<noteq> CR"
    by (auto simp: space_last_def list_all_iff simp del: of_char_of)
qed

lemma path_clean_entry:
  assumes "identRe name"
  shows "path_clean (''./modules/'' @ name) = ''modules/'' @ name"
proof -
  have "split_on slash (''./modules/'' @ name) = [''.'', ''modules'', name]"
    using split_on_no_sep [OF identRe_simps(1) [OF assms]] by (simp add: slash_def)
  with assms identRe_neq_Nil [OF assms] show ?thesis
    by (simp add: path_clean_def clean_elem_def Let_def slash_def)
qed

lemma read_entry:
  assumes "identRe name"
  shows "read_line (work_entry name) = ''./modules/'' @ name"
proof -
  have ne: "name \<noteq> []" using assms by (rule identRe_neq_Nil)
  have "dropCR (work_entry name) = work_entry name"
    using ident_last(2) [OF assms] ne by (simp add: dropCR_def work_entry_def)
  moreover have "CHR ''.'' \<notin> space_lead" by (simp add: space_lead_def space_runes_def)
  then have "trimSpace (''./modules/'' @ name) = ''./modules/'' @ name"
    using ident_last(1) [OF assms] ne by (intro trimSpace_id) simp
  ultimately show ?thesis by (simp add: read_line_def work_entry_def)
qed

lemma modules_inside_entry:
  assumes "identRe name" and "list_all (\<lambda>l. read_line l \<noteq> '')'') block"
  shows "modules_inside (block @ [work_entry name]) = modules_inside block @ [''modules/'' @ name]"
proof -
  have "work_line (True, ms) (dropCR (work_entry name)) = (True, ms @ [''modules/'' @ name])" for ms
    using read_entry [OF assms(1)] path_clean_entry [OF assms(1)]
    by (simp add: work_line_def read_line_def)
  moreover have "fst (foldl work_line (True, []) (map dropCR block)) = True"
    using assms(2) by (rule foldl_work_line_inside)
  ultimately show ?thesis
    by (cases "foldl work_line (True, []) (map dropCR block)") (simp add: modules_inside_def)
qed

lemma work_wf_entry:
  assumes "identRe name" and "length name < 65000" and "work_wf pre block post"
  shows "work_wf pre (block @ [work_entry name]) post"
proof -
  have "read_line (work_entry name) \<noteq> '')''" using read_entry [OF assms(1)] by simp
  moreover have "LF \<notin> set (work_entry name)" using assms(1) by (simp add: work_entry_def LF_def [symmetric]) (simp add: LF_def)
  moreover have "token_fits (work_entry name)" using assms(2) by (simp add: token_fits_def maxScanTokenSize_def work_entry_def)
  moreover have "\<not> prefix '')'' (work_entry name)" by (simp add: work_entry_def)
  ultimately show ?thesis using assms(3) by (auto simp: work_wf_def)
qed

subsection \<open>Both files may be updated again\<close>

lemma UpdateGoWork_local:
  assumes "UpdateGoWork writeErr fs root name = Inr fs'" and "gs (path_join [root, ''go.work'']) = fs (path_join [root, ''go.work''])"
  shows "UpdateGoWork writeErr gs root name = Inr (gs(path_join [root, ''go.work''] := fs' (path_join [root, ''go.work''])))"
proof -
  let ?p = "path_join [root, ''go.work'']"
  have r: "os_ReadFile gs ?p = os_ReadFile fs ?p" using assms(2) by (simp add: os_ReadFile_def)
  obtain content t where c: "os_ReadFile fs ?p = Inr content" "UpdateGoWork_text content name = Inr t"
    using assms(1) by (auto simp: UpdateGoWork_def Let_def split: sum.splits)
  show ?thesis
  proof (cases t)
    case None
    with assms c r show ?thesis by (simp add: UpdateGoWork_def fun_upd_idem)
  next
    case (Some u)
    with assms c r show ?thesis
      by (cases "writeErr ?p") (auto simp: UpdateGoWork_def os_WriteFile_def Let_def)
  qed
qed

lemma UpdateMiseToml_Inr:
  "UpdateMiseToml writeErr fs root name database grpc = Inr fs' \<longleftrightarrow>
     (\<exists>content. os_ReadFile fs (path_join [root, ''mise.toml'']) = Inr content \<and>
        (if contains content (mise_marker name) then fs' = fs
         else writeErr (path_join [root, ''mise.toml'']) = None \<and>
           fs' = fs(path_join [root, ''mise.toml''] :=
             File (content @ mise_addition name database grpc) (node_mode (fs (path_join [root, ''mise.toml'']))))))"
  by (auto simp: UpdateMiseToml_def os_WriteFile_def Let_def split: sum.splits option.splits)

lemma mise_addition_marker: "contains (content @ mise_addition name database grpc) (mise_marker name)"
proof -
  have "\<exists>b. mise_addition name database grpc = [LF] @ mise_marker name @ b"
    by (simp add: mise_addition_def mise_task_def mise_marker_def)
  then show ?thesis by (metis contains_append append.assoc)
qed

interpretation gowork: file_edit "\<lambda>fs. UpdateGoWork writeErr fs root name" "path_join [root, ''go.work'']" for writeErr root name
  by unfold_locales (erule (1) UpdateGoWork_local, erule UpdateGoWork_idem)

interpretation mise: file_edit "\<lambda>fs. UpdateMiseToml writeErr fs root name database grpc" "path_join [root, ''mise.toml'']"
  for writeErr root name database grpc
proof unfold_locales
  fix fs fs' gs :: fsys
  let ?p = "path_join [root, ''mise.toml'']"
  assume e: "UpdateMiseToml writeErr fs root name database grpc = Inr fs'"
  show "UpdateMiseToml writeErr gs root name database grpc = Inr (gs(path_join [root, ''mise.toml''] := fs' (path_join [root, ''mise.toml''])))"
    if "gs (path_join [root, ''mise.toml'']) = fs (path_join [root, ''mise.toml''])"
  proof -
    obtain content where c: "os_ReadFile fs ?p = Inr content" using e by (auto simp: UpdateMiseToml_Inr)
    with that have "os_ReadFile gs ?p = Inr content" by (simp add: os_ReadFile_def)
    with e c that show ?thesis
      unfolding UpdateMiseToml_Inr by (cases "contains content (mise_marker name)") (auto simp: fun_upd_idem)
  qed
  from e show "UpdateMiseToml writeErr fs' root name database grpc = Inr fs'"
    by (auto simp: UpdateMiseToml_Inr mise_addition_marker split: if_splits)
qed

subsection \<open>Commands stop at the first failure\<close>

definition tidy_plan :: "string \<Rightarrow> string list \<Rightarrow> (string \<times> string list) list" where
  "tidy_plan root mods = map (\<lambda>m. (path_join [root, m], [''go'', ''mod'', ''tidy''])) mods @ [(root, [''go'', ''work'', ''sync''])]"

lemma runGoCmd_log: "runGoCmd run dir args w = (err, w') \<Longrightarrow> ran (w_log w') = ran (w_log w) @ [(dir, ''go'' # args)]"
  by (auto simp: runGoCmd_def split: prod.splits dest!: w_log_exec_cmd)

lemma tidy_modules_ran:
  "tidy_modules run root mods w = (err, w') \<Longrightarrow>
     \<exists>n. 0 < n \<and> n \<le> Suc (length mods) \<and> ran (w_log w') = ran (w_log w) @ take n (tidy_plan root mods)
       \<and> (err = None \<longrightarrow> n = Suc (length mods))"
proof (induction mods arbitrary: w)
  case Nil
  then have "ran (w_log w') = ran (w_log w) @ [(root, [''go'', ''work'', ''sync''])]"
    by (auto dest!: runGoCmd_log)
  then show ?case by (intro exI [of _ 1]) (simp add: tidy_plan_def)
next
  case (Cons m mods)
  let ?w = "print_out (rule2 @ '' tidy '' @ m @ '' '' @ rule2 @ [LF]) w"
  obtain e w1 where r: "runGoCmd run (path_join [root, m]) [''mod'', ''tidy''] ?w = (e, w1)" by fastforce
  then have l: "ran (w_log w1) = ran (w_log w) @ [(path_join [root, m], [''go'', ''mod'', ''tidy''])]"
    by (auto dest!: runGoCmd_log)
  show ?case
  proof (cases e)
    case None
    with Cons.prems r have "tidy_modules run root mods w1 = (err, w')" by simp
    from Cons.IH [OF this] obtain n where "0 < n" "n \<le> Suc (length mods)"
      "ran (w_log w') = ran (w_log w1) @ take n (tidy_plan root mods)" "err = None \<longrightarrow> n = Suc (length mods)" by blast
    with l show ?thesis by (intro exI [of _ "Suc n"]) (simp add: tidy_plan_def)
  next
    case (Some x)
    with Cons.prems r have "err = Some x" "w' = w1" by auto
    with l show ?thesis by (intro exI [of _ 1]) (simp add: tidy_plan_def)
  qed
qed

end
