(* ===== verification/Archtest.thy ===== *)
theory Archtest
  imports Work_File
begin

text \<open>
  \<open>pkg/archtest\<close>: the architecture checks of \<open>mmw check arch\<close>. What \<open>filepath.Walk\<close> visits, the
  import declarations \<open>go/parser\<close> finds in a file (with their quotes), directory listings and the
  programs run by mise are the fields of \<open>arch_env\<close>; the colours of the report are not modelled.
\<close>

record arch_env =
  ae_fs :: fsys
  ae_readDir :: "string \<Rightarrow> string + (string \<times> bool) list"
  ae_walk :: "string \<Rightarrow> (string \<times> string option) list"
  ae_imports :: "string \<Rightarrow> string + string list"
  ae_cwd :: "string + string"

datatype arch_err =
    ReadDirErr string
  | WalkErr string
  | ParseErr string string
  | ForbiddenImport string string
  | ForbiddenDependency string string
  | RootModuleErr string
  | DiscoveryErr string
  | CheckFailed string int
  | NoArchTask

subsection \<open>Walking over Go files\<close>

definition go_source :: "string \<Rightarrow> bool" where
  "go_source path = (hasSuffix path ''.go'' \<and> \<not> hasSuffix path ''_test.go'')"

definition import_path :: "string \<Rightarrow> string" where
  "import_path lit = trim lit [quote]"

text \<open>The imports of one file: stop at the first that \<open>bad\<close> rejects.\<close>

definition check_imports :: "arch_env \<Rightarrow> (string \<Rightarrow> bool) \<Rightarrow> string \<Rightarrow> arch_err option" where
  [simp]: "check_imports env bad path =
     (case ae_imports env path of Inl e \<Rightarrow> Some (ParseErr path e)
      | Inr imps \<Rightarrow> first_err (\<lambda>lit. if bad (import_path lit) then Some (ForbiddenImport path (import_path lit)) else None) imps)"

text \<open>The callback of the four walks: stop at a walk error, skip what is not Go source.\<close>

definition check_file :: "arch_env \<Rightarrow> (string \<Rightarrow> bool) \<Rightarrow> string \<times> string option \<Rightarrow> arch_err option" where
  "check_file env bad pe = (case pe of (path, err) \<Rightarrow>
     (case err of Some e \<Rightarrow> Some (WalkErr e)
      | None \<Rightarrow>
         (if \<not> go_source path then None else check_imports env bad path)))"

definition check_walk :: "arch_env \<Rightarrow> (string \<Rightarrow> bool) \<Rightarrow> string \<Rightarrow> arch_err option" where
  "check_walk env bad dir = first_err (check_file env bad) (ae_walk env dir)"

subsection \<open>lib\_dependency.go\<close>

definition arch_readModuleName :: "fsys \<Rightarrow> string \<Rightarrow> string option" where
  "arch_readModuleName fs goModPath =
     (case os_ReadFile fs goModPath of Inl _ \<Rightarrow> None
      | Inr content \<Rightarrow>
         (case List.find (\<lambda>l. prefix ''module '' l) (map trimSpace (split_on LF content)) of
            None \<Rightarrow> None | Some l \<Rightarrow> Some (drop (length ''module '') l)))"

definition dirs_of :: "(string \<times> bool) list \<Rightarrow> string list" where
  "dirs_of entries = map fst (filter snd entries)"

definition lib_modules :: "arch_env \<Rightarrow> string \<Rightarrow> (string \<times> bool) list \<Rightarrow> string list" where
  "lib_modules env libsDir entries =
     List.map_filter (\<lambda>e. case arch_readModuleName (ae_fs env) (path_join [libsDir, e, ''go.mod'']) of
        Some n \<Rightarrow> (if n \<noteq> [] then Some n else None) | None \<Rightarrow> None) (dirs_of entries)"

definition under_dir :: "string \<Rightarrow> string \<Rightarrow> bool" where
  "under_dir path dir = hasPrefix (path @ [slash]) (dir @ [slash])"

definition scanUseLine ::
    "arch_env \<Rightarrow> string \<Rightarrow> string \<Rightarrow> string \<Rightarrow> string list \<Rightarrow> string list \<Rightarrow> string \<Rightarrow> string list" where
  "scanUseLine env repoRoot absLibsDir absMmwDir libModules forbidden rawLine =
     (let line = trimSpace rawLine in
      if \<not> hasPrefix line ''use '' then forbidden
      else let relPath = trim (trimPrefix line ''use '') [quote] in
        (case path_abs (ae_cwd env) (path_join [repoRoot, relPath]) of Inl _ \<Rightarrow> forbidden
         | Inr absPath \<Rightarrow>
            (if under_dir absPath absLibsDir then forbidden
             else if absMmwDir \<noteq> [] \<and> under_dir absPath absMmwDir then forbidden
             else (case arch_readModuleName (ae_fs env) (path_join [absPath, ''go.mod'']) of None \<Rightarrow> forbidden
               | Some name \<Rightarrow> (if name = [] \<or> name \<in> set libModules then forbidden else forbidden @ [name])))))"

definition collectNonLibWorkspaceModules ::
    "arch_env \<Rightarrow> string \<Rightarrow> string \<Rightarrow> string \<Rightarrow> string list \<Rightarrow> string list option" where
  "collectNonLibWorkspaceModules env repoRoot libsDir mmwDir libModules =
     (case os_ReadFile (ae_fs env) (path_join [repoRoot, ''go.work'']) of Inl _ \<Rightarrow> None
      | Inr data \<Rightarrow> (case path_abs (ae_cwd env) libsDir of Inl _ \<Rightarrow> None
         | Inr absLibs \<Rightarrow> (case (if mmwDir = [] then Inr [] else path_abs (ae_cwd env) mmwDir) of Inl _ \<Rightarrow> None
            | Inr absMmw \<Rightarrow>
               (if snd (scan_default data) then None
                else Some (foldl (scanUseLine env repoRoot absLibs absMmw libModules) [] (fst (scan_default data)))))))"

definition forbidden_by :: "string list \<Rightarrow> string \<Rightarrow> bool" where
  "forbidden_by modules importPath = list_ex (\<lambda>m. importPath = m \<or> hasPrefix importPath (m @ ''/'')) modules"

definition checkLibImports :: "arch_env \<Rightarrow> string list \<Rightarrow> string \<Rightarrow> arch_err option" where
  "checkLibImports env forbiddenModules libPath = check_walk env (forbidden_by forbiddenModules) libPath"

definition outside_libs :: "string \<Rightarrow> string \<Rightarrow> bool" where
  "outside_libs rootModuleName importPath =
     (hasPrefix importPath (rootModuleName @ ''/'') \<and>
      (let relPath = trimPrefix importPath (rootModuleName @ ''/'') in
       (case str_cut relPath ''/'' of None \<Rightarrow> relPath | Some (a, _) \<Rightarrow> a) \<noteq> ''libs''))"

definition checkFileAgainstRootModule :: "arch_env \<Rightarrow> string \<Rightarrow> string \<Rightarrow> arch_err option" where
  "checkFileAgainstRootModule env path rootModuleName = check_imports env (outside_libs rootModuleName) path"

lemma checkFileAgainstRootModule_walk:
  "go_source path \<Longrightarrow> check_file env (outside_libs root) (path, None) = checkFileAgainstRootModule env path root"
  by (simp add: check_file_def checkFileAgainstRootModule_def del: check_imports_def)

definition checkWithRootModule :: "arch_env \<Rightarrow> string \<Rightarrow> string \<Rightarrow> (string \<times> bool) list \<Rightarrow> arch_err option" where
  "checkWithRootModule env repoRoot libsDir entries =
     (case arch_readModuleName (ae_fs env) (path_join [repoRoot, ''go.mod'']) of
        None \<Rightarrow> Some (RootModuleErr repoRoot)
      | Some root \<Rightarrow> first_err (\<lambda>e. check_walk env (outside_libs root) (path_join [libsDir, e])) (dirs_of entries))"

definition missing :: "fsys \<Rightarrow> string \<Rightarrow> bool" where
  "missing fs path = (case os_Stat fs path of Some e \<Rightarrow> isNotExist e | None \<Rightarrow> False)"

definition LibDependency_Check :: "arch_env \<Rightarrow> string \<Rightarrow> string \<Rightarrow> string \<Rightarrow> arch_err option" where
  "LibDependency_Check env repoRoot libsDir mmwDir =
     (if missing (ae_fs env) libsDir then None
      else (case ae_readDir env libsDir of Inl e \<Rightarrow> Some (ReadDirErr e)
        | Inr entries \<Rightarrow>
           (let libModules = lib_modules env libsDir entries in
            case collectNonLibWorkspaceModules env repoRoot libsDir mmwDir libModules of
              None \<Rightarrow> checkWithRootModule env repoRoot libsDir entries
            | Some forbidden \<Rightarrow> first_err (\<lambda>e. checkLibImports env forbidden (path_join [libsDir, e])) (dirs_of entries))))"

subsection \<open>contract\_purity.go\<close>

definition service_line :: "arch_env \<Rightarrow> string \<Rightarrow> string \<Rightarrow> string list \<Rightarrow> string \<Rightarrow> string list" where
  "service_line env repoRoot absServicesDir forbidden raw =
     (let line = trimSpace raw in
      if \<not> hasPrefix line ''use '' then forbidden
      else let relPath = trim (trimPrefix line ''use '') [quote] in
        (case path_abs (ae_cwd env) (path_join [repoRoot, relPath]) of Inl _ \<Rightarrow> forbidden
         | Inr absPath \<Rightarrow>
            (if \<not> under_dir absPath absServicesDir then forbidden
             else (case arch_readModuleName (ae_fs env) (path_join [absPath, ''go.mod'']) of None \<Rightarrow> forbidden
               | Some name \<Rightarrow> (if name = [] then forbidden else forbidden @ [name])))))"

text \<open>An unreadable go.work leaves nothing forbidden, as does an empty repository root; a failing
  \<open>filepath.Abs\<close> gives the empty directory.\<close>

definition collectServiceModules :: "arch_env \<Rightarrow> string \<Rightarrow> string list" where
  "collectServiceModules env repoRoot =
     (if repoRoot = [] then []
      else (case os_ReadFile (ae_fs env) (path_join [repoRoot, ''go.work'']) of Inl _ \<Rightarrow> []
        | Inr content \<Rightarrow>
           (let absServices = (case path_abs (ae_cwd env) (path_join [repoRoot, ''modules'']) of Inl _ \<Rightarrow> [] | Inr d \<Rightarrow> d) in
            foldl (service_line env repoRoot absServices) [] (split_on LF content))))"

text \<open>The lines of a go.mod that the check reads as requirements: the state is whether the line is
  inside a require block.\<close>

fun require_lines :: "bool \<Rightarrow> string list \<Rightarrow> string list" where
  "require_lines inRequire [] = []"
| "require_lines inRequire (raw # ls) =
     (let line = trimSpace raw in
      if hasPrefix line ''require ('' then require_lines True ls
      else if inRequire \<and> line = '')'' then require_lines False ls
      else if \<not> inRequire \<and> \<not> hasPrefix line ''require '' then require_lines inRequire ls
      else if contains line ''// indirect'' \<or> hasPrefix line ''//'' then require_lines inRequire ls
      else line # require_lines inRequire ls)"

definition checkGoModPurity :: "arch_env \<Rightarrow> string list \<Rightarrow> string \<Rightarrow> string \<Rightarrow> arch_err option" where
  "checkGoModPurity env forbiddenModules contractPath contractName =
     (if forbiddenModules = [] then None
      else (case os_ReadFile (ae_fs env) (path_join [contractPath, ''go.mod'']) of Inl _ \<Rightarrow> None
        | Inr content \<Rightarrow>
           first_err (\<lambda>line. case Go_Strings.fields line of [] \<Rightarrow> None
              | modulePath # _ \<Rightarrow> (if modulePath \<in> set forbiddenModules then Some (ForbiddenDependency contractName modulePath) else None))
             (require_lines False (split_on LF content))))"

definition checkNoInternalImports :: "arch_env \<Rightarrow> string \<Rightarrow> arch_err option" where
  "checkNoInternalImports env contractPath = check_walk env (\<lambda>p. contains p ''/internal/'') contractPath"

definition ContractPurity_Check :: "arch_env \<Rightarrow> string \<Rightarrow> string \<Rightarrow> arch_err option" where
  "ContractPurity_Check env repoRoot contractsDir =
     (if missing (ae_fs env) contractsDir then None
      else (case ae_readDir env contractsDir of Inl e \<Rightarrow> Some (ReadDirErr e)
        | Inr entries \<Rightarrow>
           (let forbidden = collectServiceModules env repoRoot in
            first_err (\<lambda>e. err_then (checkGoModPurity env forbidden (path_join [contractsDir, e]) e)
                (checkNoInternalImports env (path_join [contractsDir, e]))) (dirs_of entries))))"

subsection \<open>domain\_purity.go and application\_purity.go\<close>

definition names_segment :: "string \<Rightarrow> string \<Rightarrow> bool" where
  "names_segment forbidden importPath =
     (contains importPath (''/'' @ forbidden @ ''/'') \<or> hasSuffix importPath (''/'' @ forbidden) \<or>
      hasPrefix importPath (forbidden @ ''/'') \<or> contains importPath (''-'' @ forbidden @ ''/'') \<or>
      contains importPath (''/'' @ forbidden @ ''-'') \<or> contains importPath (''-'' @ forbidden @ ''-''))"

definition walkForForbiddenImport :: "arch_env \<Rightarrow> string \<Rightarrow> string \<Rightarrow> arch_err option" where
  "walkForForbiddenImport env forbidden dir = check_walk env (names_segment forbidden) dir"

text \<open>The two validators differ in the layer they look at.\<close>

definition layer_check :: "arch_env \<Rightarrow> string \<Rightarrow> string \<Rightarrow> arch_err option" where
  "layer_check env layer modulesDir =
     (case ae_readDir env modulesDir of
        Inl e \<Rightarrow> (if isNotExist e then None else Some (ReadDirErr e))
      | Inr entries \<Rightarrow>
         first_err (\<lambda>e. let dir = path_join [modulesDir, e, ''internal'', layer] in
            if missing (ae_fs env) dir then None else walkForForbiddenImport env ''contracts'' dir) (dirs_of entries))"

definition DomainPurity_Check :: "arch_env \<Rightarrow> string \<Rightarrow> arch_err option" where
  "DomainPurity_Check env modulesDir = layer_check env ''domain'' modulesDir"

definition ApplicationPurity_Check :: "arch_env \<Rightarrow> string \<Rightarrow> arch_err option" where
  "ApplicationPurity_Check env modulesDir = layer_check env ''application'' modulesDir"

subsection \<open>Orchestrator\<close>

record Service =
  sv_Name :: string
  sv_Path :: string
  sv_HasArchCheck :: bool

definition hasMiseArchCheck :: "fsys \<Rightarrow> string \<Rightarrow> string \<Rightarrow> string + bool" where
  "hasMiseArchCheck fs miseTomlPath archTaskName =
     (case os_ReadFile fs miseTomlPath of Inl e \<Rightarrow> (if isNotExist e then Inr False else Inl e)
      | Inr data \<Rightarrow>
         (let found = list_ex (\<lambda>l. contains (trimSpace l) ([quote] @ archTaskName @ [quote]) \<or>
                 contains (trimSpace l) ([CHR 0x27] @ archTaskName @ [CHR 0x27])) (fst (scan_default data)) in
          if found then Inr True else if snd (scan_default data) then Inl ''token too long'' else Inr False))"

definition discover_step :: "arch_env \<Rightarrow> string \<Rightarrow> string \<Rightarrow> Service list \<Rightarrow> string \<Rightarrow> arch_err + Service list" where
  "discover_step env servicesDir archTaskName services e =
     (let path = path_join [servicesDir, e] in
      case hasMiseArchCheck (ae_fs env) (path_join [path, ''mise.toml'']) archTaskName of
        Inl t \<Rightarrow> Inl (DiscoveryErr t)
      | Inr b \<Rightarrow> Inr (services @ [\<lparr>sv_Name = e, sv_Path = path, sv_HasArchCheck = b\<rparr>]))"

definition DiscoverServices :: "arch_env \<Rightarrow> string \<Rightarrow> string \<Rightarrow> arch_err + Service list" where
  "DiscoverServices env servicesDir archTaskName =
     (case ae_readDir env servicesDir of Inl e \<Rightarrow> Inl (DiscoveryErr e)
      | Inr entries \<Rightarrow> foldM (discover_step env servicesDir archTaskName) [] (dirs_of entries))"

text \<open>How a program ended: its exit code (the code of an \<open>ExitError\<close>, which is -1 when a signal
  killed it) and what it wrote, or an error of starting it.\<close>

datatype run_end = Exited int string string | NotRun string string string

record CheckResult =
  cr_ServiceName :: string
  cr_ExitCode :: int
  cr_Output :: string

definition RunServiceCheck ::
    "(string \<Rightarrow> string option) \<Rightarrow> (string \<Rightarrow> run_end) \<Rightarrow> string \<Rightarrow> string \<Rightarrow> CheckResult" where
  "RunServiceCheck trust archCheck servicePath serviceName =
     (case trust servicePath of
        Some e \<Rightarrow> \<lparr>cr_ServiceName = serviceName, cr_ExitCode = 1, cr_Output = ''mise trust failed: '' @ e\<rparr>
      | None \<Rightarrow>
         (let (code, out, err) = (case archCheck servicePath of Exited c so se \<Rightarrow> (c, so, se) | NotRun _ so se \<Rightarrow> (1, so, se)) in
          \<lparr>cr_ServiceName = serviceName, cr_ExitCode = code,
           cr_Output = out @ (if err \<noteq> [] then (if out \<noteq> [] then [LF] else []) @ err else [])\<rparr>))"

subsection \<open>Reporter\<close>

record Reporter =
  rp_failedCount :: nat
  rp_passedCount :: nat

definition PrintCheck :: "arch_err option \<Rightarrow> Reporter \<Rightarrow> Reporter" where
  "PrintCheck err r = (if err \<noteq> None then r\<lparr>rp_failedCount := Suc (rp_failedCount r)\<rparr>
     else r\<lparr>rp_passedCount := Suc (rp_passedCount r)\<rparr>)"

definition Summary :: "Reporter \<Rightarrow> nat" where
  "Summary r = (if 0 < rp_failedCount r then 1 else 0)"

subsection \<open>archtest.go\<close>

definition service_check ::
    "(string \<Rightarrow> string option) \<Rightarrow> (string \<Rightarrow> run_end) \<Rightarrow> Service \<Rightarrow> arch_err option" where
  "service_check trust archCheck svc =
     (if sv_HasArchCheck svc
      then let result = RunServiceCheck trust archCheck (sv_Path svc) (sv_Name svc) in
        if cr_ExitCode result \<noteq> 0 then Some (CheckFailed (cr_Output result) (cr_ExitCode result)) else None
      else Some NoArchTask)"

definition validators :: "arch_env \<Rightarrow> string \<Rightarrow> arch_err option list" where
  "validators env repoRoot =
     [ContractPurity_Check env repoRoot (repoRoot @ ''/contracts/definitions''),
      LibDependency_Check env repoRoot (repoRoot @ ''/libs'') (repoRoot @ ''/mmw''),
      DomainPurity_Check env (repoRoot @ ''/modules''),
      ApplicationPurity_Check env (repoRoot @ ''/modules'')]"

definition RunAll ::
    "arch_env \<Rightarrow> (string \<Rightarrow> string option) \<Rightarrow> (string \<Rightarrow> run_end) \<Rightarrow> string \<Rightarrow> nat \<times> Reporter" where
  "RunAll env trust archCheck repoRoot =
     (let rep = \<lparr>rp_failedCount = 0, rp_passedCount = 0\<rparr> in
      case DiscoverServices env (repoRoot @ ''/modules'') ''arch:check'' of
        Inl e \<Rightarrow> (let rep' = PrintCheck (Some e) rep in (Summary rep', rep'))
      | Inr services \<Rightarrow>
         (let rep' = foldl (\<lambda>r e. PrintCheck e r) rep (map (service_check trust archCheck) services @ validators env repoRoot) in
          (Summary rep', rep')))"

subsection \<open>What a passing walk means\<close>

text \<open>A visited path that is fine: visited without an error, and if it is Go source, it parses and
  none of its imports is bad.\<close>

definition path_ok :: "arch_env \<Rightarrow> (string \<Rightarrow> bool) \<Rightarrow> string \<times> string option \<Rightarrow> bool" where
  "path_ok env bad pe \<longleftrightarrow> snd pe = None \<and>
     (go_source (fst pe) \<longrightarrow> (case ae_imports env (fst pe) of Inl _ \<Rightarrow> False | Inr imps \<Rightarrow> list_all (\<lambda>lit. \<not> bad (import_path lit)) imps))"

lemma check_file_None: "check_file env bad pe = None \<longleftrightarrow> path_ok env bad pe"
  by (cases pe) (auto simp: check_file_def path_ok_def list_all_iff split: option.splits sum.splits)

lemma check_walk_None: "check_walk env bad dir = None \<longleftrightarrow> list_all (path_ok env bad) (ae_walk env dir)"
  by (simp add: check_walk_def check_file_None list_all_iff)

text \<open>A validator of a directory: it passes exactly when every path the walk visits is fine.\<close>

locale import_rule =
  fixes check :: "arch_env \<Rightarrow> string \<Rightarrow> arch_err option" and bad :: "string \<Rightarrow> bool"
  assumes passes: "check env dir = None \<longleftrightarrow> list_all (path_ok env bad) (ae_walk env dir)"
begin

lemma visited: "check env dir = None \<Longrightarrow> pe \<in> set (ae_walk env dir) \<Longrightarrow> path_ok env bad pe"
  by (simp add: passes list_all_iff)

text \<open>Over several directories, skipping some: the first error is the only one reported.\<close>

lemma visited_all:
  assumes "first_err (\<lambda>e. if skip e then None else check env (dir e)) es = None" and "e \<in> set es" and "\<not> skip e"
    and "pe \<in> set (ae_walk env (dir e))"
  shows "path_ok env bad pe"
  using assms(1-3) by (intro visited [OF _ assms(4)]) (auto split: if_splits)

end

interpretation segment: import_rule "\<lambda>env. walkForForbiddenImport env forbidden" "names_segment forbidden" for forbidden
  by unfold_locales (simp add: walkForForbiddenImport_def check_walk_None)

interpretation internal: import_rule checkNoInternalImports "\<lambda>p. contains p ''/internal/''"
  by unfold_locales (simp add: checkNoInternalImports_def check_walk_None)

interpretation libs: import_rule "\<lambda>env. checkLibImports env modules" "forbidden_by modules" for modules
  by unfold_locales (simp add: checkLibImports_def check_walk_None)

lemma PrintCheck_fold:
  "rp_failedCount (foldl (\<lambda>r e. PrintCheck e r) r es) = rp_failedCount r + length (filter (\<lambda>e. e \<noteq> None) es)"
  "rp_passedCount (foldl (\<lambda>r e. PrintCheck e r) r es) = rp_passedCount r + length (filter (\<lambda>e. e = None) es)"
  by (induction es arbitrary: r) (auto simp: PrintCheck_def)

end
