(* ===== verification/Errgroup.thy ===== *)
theory Errgroup
  imports Go_Errors
begin

text \<open>
  \<open>errgroup.WithContext\<close> as the platform's runner and the generated modules use it: a fixed number of
  goroutines under one context. A goroutine runs until its function returns; the first error is kept
  and cancels the context; the context may also be cancelled from outside. What a goroutine can return,
  and whether it has to wait for the cancellation, is the parameter \<open>ret\<close>.
\<close>

datatype goroutine = Started | Finished "go_error option"

record group =
  gr_tasks :: "goroutine list"
  gr_cancelled :: bool
  gr_err :: "go_error option"

definition group_init :: "nat \<Rightarrow> group" where
  "group_init n = \<lparr>gr_tasks = replicate n Started, gr_cancelled = False, gr_err = None\<rparr>"

definition task_returns :: "nat \<Rightarrow> go_error option \<Rightarrow> group \<Rightarrow> group" where
  "task_returns i res g =
     (let g' = g\<lparr>gr_tasks := (gr_tasks g)[i := Finished res]\<rparr> in
      if res \<noteq> None \<and> gr_err g = None then g'\<lparr>gr_err := res, gr_cancelled := True\<rparr> else g')"

text \<open>\<open>ret i cancelled res\<close>: goroutine \<open>i\<close> may return \<open>res\<close> while the context is cancelled or not;
  \<open>ext\<close>: the context may be cancelled from outside.\<close>

inductive group_step :: "bool \<Rightarrow> (nat \<Rightarrow> bool \<Rightarrow> go_error option \<Rightarrow> bool) \<Rightarrow> group \<Rightarrow> group \<Rightarrow> bool" for ext ret where
  returns: "i < length (gr_tasks g) \<Longrightarrow> gr_tasks g ! i = Started \<Longrightarrow> ret i (gr_cancelled g) res \<Longrightarrow>
     group_step ext ret g (task_returns i res g)"
| cancel: "ext \<Longrightarrow> group_step ext ret g (g\<lparr>gr_cancelled := True\<rparr>)"

inductive_cases group_stepE: "group_step ext ret g g'"

definition group_done :: "group \<Rightarrow> bool" where
  "group_done g = list_all (\<lambda>t. t \<noteq> Started) (gr_tasks g)"

text \<open>What \<open>Wait\<close> returns once the group is done.\<close>

definition Group_Wait :: "group \<Rightarrow> go_error option" where
  "Group_Wait g = gr_err g"

subsection \<open>Invariant\<close>

definition group_inv :: "(nat \<Rightarrow> bool \<Rightarrow> go_error option \<Rightarrow> bool) \<Rightarrow> group \<Rightarrow> bool" where
  "group_inv ret g \<longleftrightarrow>
     (gr_err g \<noteq> None \<longrightarrow> gr_cancelled g) \<and>
     (gr_err g = None \<longrightarrow> (\<forall>x. Finished (Some x) \<notin> set (gr_tasks g))) \<and>
     (\<forall>e. gr_err g = Some e \<longrightarrow> Finished (Some e) \<in> set (gr_tasks g)) \<and>
     (\<forall>i r. i < length (gr_tasks g) \<and> gr_tasks g ! i = Finished r \<longrightarrow> (\<exists>c. ret i c r))"

lemma group_init_inv: "group_inv ret (group_init n)"
  by (auto simp: group_inv_def group_init_def)

lemma task_returns_simps [simp]:
  "gr_tasks (task_returns i res g) = (gr_tasks g)[i := Finished res]"
  "gr_err (task_returns i res g) = (if gr_err g = None then res else gr_err g)"
  "gr_cancelled (task_returns i res g) = (gr_cancelled g \<or> res \<noteq> None \<and> gr_err g = None)"
  by (auto simp: task_returns_def Let_def)

lemma group_err_stays: "group_step ext ret a b \<Longrightarrow> gr_err a = Some e \<Longrightarrow> gr_err b = Some e"
  by (erule group_stepE) auto

lemma group_length: "group_step ext ret a b \<Longrightarrow> length (gr_tasks b) = length (gr_tasks a)"
  by (erule group_stepE) auto

text \<open>A goroutine that has finished stays finished: only a started one is replaced.\<close>

lemma finished_update:
  assumes "i < length ts" and "ts ! i = Started"
  shows "Finished r \<in> set (ts[i := Finished res]) \<longleftrightarrow> Finished r \<in> set ts \<or> res = r"
proof -
  have "ts = take i ts @ Started # drop (Suc i) ts" using id_take_nth_drop [OF assms(1)] assms(2) by simp
  from arg_cong [OF this, of set] have "set ts = set (take i ts) \<union> insert Started (set (drop (Suc i) ts))"
    by (simp only: set_append list.set)
  moreover have "set (ts[i := Finished res]) = set (take i ts) \<union> {Finished res} \<union> set (drop (Suc i) ts)"
    using assms(1) by (simp add: upd_conv_take_nth_drop)
  ultimately show ?thesis by auto
qed

lemma group_step_inv:
  assumes "group_step ext ret a b" and "group_inv ret a"
  shows "group_inv ret b"
  using assms(1)
proof (cases rule: group_step.cases)
  case (returns i res)
  note f = finished_update [OF returns(2,3), of _ res]
  have "gr_err b \<noteq> None \<longrightarrow> gr_cancelled b" using returns(1) assms(2) by (auto simp: group_inv_def)
  moreover have "gr_err b = None \<longrightarrow> (\<forall>x. Finished (Some x) \<notin> set (gr_tasks b))"
    using returns(1) f assms(2) by (auto simp: group_inv_def)
  moreover have "\<forall>e. gr_err b = Some e \<longrightarrow> Finished (Some e) \<in> set (gr_tasks b)"
    using returns(1) f assms(2) by (auto simp: group_inv_def)
  moreover have "\<exists>c. ret j c r" if "j < length (gr_tasks b)" "gr_tasks b ! j = Finished r" for j r
    using that returns(1,2,4) assms(2) by (cases "j = i") (auto simp: group_inv_def)
  ultimately show ?thesis unfolding group_inv_def by blast
next
  case cancel
  with assms(2) show ?thesis by (simp add: group_inv_def)
qed

lemma group_reachable:
  assumes "(group_step ext ret)\<^sup>*\<^sup>* (group_init n) g"
  shows "group_inv ret g \<and> length (gr_tasks g) = n"
  using assms by induction (auto simp: group_init_inv group_length intro: group_step_inv, simp add: group_init_def)

lemma group_err_kept: "(group_step ext ret)\<^sup>*\<^sup>* a b \<Longrightarrow> gr_err a = Some e \<Longrightarrow> gr_err b = Some e"
  by (induction rule: rtranclp_induct) (auto intro: group_err_stays)

text \<open>When the group is done: no error exactly when every goroutine returned none.\<close>

lemma group_wait:
  assumes "(group_step ext ret)\<^sup>*\<^sup>* (group_init n) g" and "group_done g"
  shows "Group_Wait g = None \<longleftrightarrow> gr_tasks g = replicate n (Finished None)"
proof -
  have inv: "group_inv ret g" "length (gr_tasks g) = n" using group_reachable [OF assms(1)] by simp_all
  have all: "t = Finished None \<or> (\<exists>x. t = Finished (Some x))" if "t \<in> set (gr_tasks g)" for t
    using assms(2) that by (cases t) (auto simp: group_done_def list_all_iff)
  have "gr_err g = None \<longleftrightarrow> (\<forall>t\<in>set (gr_tasks g). t = Finished None)"
  proof (cases "gr_err g")
    case None
    then show ?thesis using inv(1) all unfolding group_inv_def by fastforce
  next
    case (Some e)
    then have "Finished (Some e) \<in> set (gr_tasks g)" using inv(1) unfolding group_inv_def by blast
    then show ?thesis using Some by auto
  qed
  also have "\<dots> \<longleftrightarrow> gr_tasks g = replicate n (Finished None)" using inv(2) by (metis in_set_replicate replicate_eqI)
  finally show ?thesis by (simp add: Group_Wait_def)
qed

subsection \<open>Ending\<close>

definition running :: "group \<Rightarrow> nat" where
  "running g = length (filter (\<lambda>t. t = Started) (gr_tasks g))"

lemma running_0: "running g = 0 \<longleftrightarrow> group_done g"
  by (auto simp: running_def group_done_def list_all_iff filter_empty_conv)

lemma running_returns:
  assumes "i < length (gr_tasks g)" and "gr_tasks g ! i = Started"
  shows "Suc (running (task_returns i res g)) = running g"
proof -
  have "gr_tasks g = take i (gr_tasks g) @ Started # drop (Suc i) (gr_tasks g)"
    using id_take_nth_drop [OF assms(1)] assms(2) by simp
  then have "filter (\<lambda>t. t = Started) (gr_tasks g) = filter (\<lambda>t. t = Started) (take i (gr_tasks g)) @ Started # filter (\<lambda>t. t = Started) (drop (Suc i) (gr_tasks g))"
    by (metis (mono_tags, lifting) filter.simps(2) filter_append)
  then show ?thesis using assms(1) by (simp add: running_def upd_conv_take_nth_drop)
qed

text \<open>The contract of goroutines that heed the cancellation: every one can return once it is
  cancelled.\<close>

locale heeding_group =
  fixes ret :: "nat \<Rightarrow> bool \<Rightarrow> go_error option \<Rightarrow> bool" and n :: nat
  assumes heeds: "i < n \<Longrightarrow> \<exists>r. ret i True r"
begin

lemma not_stuck:
  assumes "length (gr_tasks g) = n" and "gr_cancelled g" and "\<not> group_done g"
  obtains i r where "i < n" "gr_tasks g ! i = Started" "ret i True r" "group_step ext ret g (task_returns i r g)"
proof -
  from assms(3) obtain i where i: "i < n" "gr_tasks g ! i = Started"
    using assms(1) by (auto simp: group_done_def list_all_length)
  with heeds obtain r where r: "ret i True r" by blast
  then have "group_step ext ret g (task_returns i r g)" using i assms(1,2) by (intro group_step.returns) simp_all
  with i r show thesis by (rule that)
qed

lemma can_finish:
  assumes "length (gr_tasks g) = n" and "gr_cancelled g"
  shows "\<exists>g'. (group_step ext ret)\<^sup>*\<^sup>* g g' \<and> group_done g'"
  using assms
proof (induction "running g" arbitrary: g)
  case 0
  then have "group_done g" using running_0 [of g] by simp
  then show ?case by blast
next
  case (Suc k)
  then have "\<not> group_done g" using running_0 [of g] by simp
  then obtain i r where s: "i < n" "gr_tasks g ! i = Started" "group_step ext ret g (task_returns i r g)"
    using not_stuck [OF Suc.prems] by blast
  from s Suc.hyps(2) Suc.prems(1) have "k = running (task_returns i r g)"
    using running_returns [of i g r] by simp
  from Suc.hyps(1) [OF this] Suc.prems obtain g' where
    "(group_step ext ret)\<^sup>*\<^sup>* (task_returns i r g) g'" "group_done g'" by auto
  with s(3) show ?case by (meson converse_rtranclp_into_rtranclp)
qed

end

end
