(* ===== verification/Platform_Core.thy ===== *)
theory Platform_Core
  imports Go_OS Errgroup "HOL-Library.Word"
begin

text \<open>
  The rest of \<open>pkg/platform\<close> that has logic of its own: the search for the repository root, the
  configuration values and the order in which \<open>config.Fill\<close> applies its sources, the environment map,
  \<open>StructArgs\<close>, the masking of database URLs, and the runner that starts the modules (\<open>runner.go\<close>) on
  the group of \<open>Errgroup\<close>.
\<close>

subsection \<open>root\_repo.go\<close>

text \<open>The loop ends at the first directory with a go.work or at the root of the file system. It is
  shown to end for every absolute path below.\<close>

partial_function (option) root_loop :: "fsys \<Rightarrow> string \<Rightarrow> string option" where
  "root_loop fs dir =
     (if exists_path fs (path_join [dir, ''go.work'']) then Some dir
      else (let parent = path_dir dir in if parent = dir then Some ''.'' else root_loop fs parent))"

declare root_loop.simps [code]

definition RootRepo :: "fsys \<Rightarrow> string \<Rightarrow> string option" where
  "RootRepo fs cwd = root_loop fs cwd"

text \<open>An absolute path, given by its elements.\<close>

definition abs_path :: "string list \<Rightarrow> string" where
  "abs_path es = slash # join [slash] es"

lemma foldl_clean_names:
  "list_all path_name es \<Longrightarrow> foldl (clean_elem True) st es = rev es @ st"
  by (induction es arbitrary: st) (auto simp: clean_elem_def path_name_def)

lemma split_on_abs: "list_all path_name es \<Longrightarrow> split_on slash (abs_path es) = [] # (if es = [] then [[]] else es)"
  using split_on_join [of es slash] by (auto simp: abs_path_def path_name_def list_all_iff)

lemma path_clean_abs:
  assumes "list_all path_name es"
  shows "path_clean (abs_path es) = abs_path es" and "path_clean (abs_path es @ [slash]) = abs_path es"
proof -
  have "foldl (clean_elem True) [] (split_on slash (abs_path es)) = rev es"
    using foldl_clean_names [OF assms, of "[]"] by (simp add: split_on_abs [OF assms] clean_elem_def)
  then show "path_clean (abs_path es) = abs_path es"
    by (simp add: path_clean_def Let_def abs_path_def)
  have "split_on slash (abs_path es @ [slash]) = split_on slash (abs_path es) @ [[]]" by (rule split_on_snoc)
  then have "foldl (clean_elem True) [] (split_on slash (abs_path es @ [slash])) = rev es"
    using foldl_clean_names [OF assms, of "[]"] by (simp add: split_on_abs [OF assms] clean_elem_def)
  then show "path_clean (abs_path es @ [slash]) = abs_path es"
    by (simp add: path_clean_def Let_def abs_path_def)
qed

lemma upto_slash_append: "slash \<notin> set e \<Longrightarrow> upto_slash (p @ slash # e) = p @ [slash]"
  by (simp add: upto_slash_def dropWhile_append)

lemma path_dir_abs:
  assumes "list_all path_name (es @ [e])"
  shows "path_dir (abs_path (es @ [e])) = abs_path es"
proof (cases "es = []")
  case True
  have "slash \<notin> set e" using assms by (simp add: path_name_def)
  then have "upto_slash (abs_path [e]) = abs_path []" using upto_slash_append [of e "[]"] by (simp add: abs_path_def)
  with True show ?thesis using path_clean_abs(1) [of "[]"] by (simp add: path_dir_def)
next
  case False
  have "slash \<notin> set e" using assms by (simp add: path_name_def)
  moreover have "abs_path (es @ [e]) = abs_path es @ slash # e" using False by (simp add: abs_path_def join_append)
  ultimately have "upto_slash (abs_path (es @ [e])) = abs_path es @ [slash]" by (simp add: upto_slash_append)
  with assms show ?thesis using path_clean_abs(2) [of es] by (simp add: path_dir_def)
qed

lemma path_join_abs:
  assumes "list_all path_name (es @ [e])"
  shows "path_join [abs_path es, e] = abs_path (es @ [e])"
proof (cases "es = []")
  case True
  have "path_join [abs_path [], e] = path_clean (slash # slash # e)"
    using assms True by (auto simp: path_join_def abs_path_def)
  also have "\<dots> = abs_path [e]"
    using assms True split_on_no_sep [of slash e]
    by (auto simp: path_clean_def abs_path_def path_name_def clean_elem_def Let_def)
  finally show ?thesis by (simp add: True)
next
  case False
  then have "join [slash] [abs_path es, e] = abs_path (es @ [e])" by (simp add: abs_path_def join_append)
  then show ?thesis using path_clean_abs(1) [OF assms] by (simp add: path_join_def abs_path_def)
qed

lemma path_dir_root [simp]: "path_dir (abs_path []) = abs_path []"
  by code_simp

lemma abs_path_inject_length: "length (abs_path es) < length (abs_path (es @ [e]))" if "path_name e"
  using that by (cases "es = []") (auto simp: abs_path_def join_append path_name_def)

text \<open>Whether a directory has a \<open>go.work\<close>, and what the loop returns: the longest prefix of the path
  that has one.\<close>

definition work_root :: "fsys \<Rightarrow> string list \<Rightarrow> bool" where
  "work_root fs es = exists_path fs (abs_path (es @ [''go.work'']))"

lemma root_loop_step:
  assumes "list_all path_name es"
  shows "root_loop fs (abs_path es) =
    (if work_root fs es then Some (abs_path es) else if es = [] then Some ''.'' else root_loop fs (abs_path (butlast es)))"
proof -
  have "path_name ''go.work''" by code_simp
  then have j: "path_join [abs_path es, ''go.work''] = abs_path (es @ [''go.work''])"
    using assms by (intro path_join_abs) simp
  show ?thesis
  proof (cases es rule: rev_cases)
    case Nil
    then show ?thesis using j by (subst root_loop.simps) (simp add: work_root_def Let_def)
  next
    case (snoc ys y)
    with assms have "path_dir (abs_path es) = abs_path ys" "abs_path ys \<noteq> abs_path es"
      using path_dir_abs [of ys y] abs_path_inject_length [of y ys] by auto
    then show ?thesis using j snoc by (subst root_loop.simps) (simp add: work_root_def Let_def)
  qed
qed

lemma root_loop_spec:
  assumes "list_all path_name es"
  shows "\<exists>d. root_loop fs (abs_path es) = Some d \<and>
     ((\<exists>n\<le>length es. d = abs_path (take n es) \<and> work_root fs (take n es) \<and>
         (\<forall>m. n < m \<and> m \<le> length es \<longrightarrow> \<not> work_root fs (take m es))) \<or>
      d = ''.'' \<and> (\<forall>m\<le>length es. \<not> work_root fs (take m es)))"
  using assms
proof (induction es rule: rev_induct)
  case Nil
  then show ?case using root_loop_step [of "[]" fs] by auto
next
  case (snoc y ys)
  have step: "root_loop fs (abs_path (ys @ [y])) =
      (if work_root fs (ys @ [y]) then Some (abs_path (ys @ [y])) else root_loop fs (abs_path ys))"
    using root_loop_step [OF snoc.prems, of fs] by simp
  show ?case
  proof (cases "work_root fs (ys @ [y])")
    case True
    then show ?thesis using step by (intro exI [of _ "abs_path (ys @ [y])"]) (auto intro!: exI [of _ "Suc (length ys)"])
  next
    case False
    have up: "m \<le> length ys \<or> m = Suc (length ys)" if "m \<le> length (ys @ [y])" for m using that by auto
    from snoc.IH snoc.prems obtain d where d: "root_loop fs (abs_path ys) = Some d"
      "(\<exists>n\<le>length ys. d = abs_path (take n ys) \<and> work_root fs (take n ys) \<and>
         (\<forall>m. n < m \<and> m \<le> length ys \<longrightarrow> \<not> work_root fs (take m ys))) \<or>
       d = ''.'' \<and> (\<forall>m\<le>length ys. \<not> work_root fs (take m ys))" by auto
    from d(2) show ?thesis
    proof
      assume "\<exists>n\<le>length ys. d = abs_path (take n ys) \<and> work_root fs (take n ys) \<and>
         (\<forall>m. n < m \<and> m \<le> length ys \<longrightarrow> \<not> work_root fs (take m ys))"
      then obtain n where n: "n \<le> length ys" "d = abs_path (take n ys)" "work_root fs (take n ys)"
        "\<And>m. n < m \<Longrightarrow> m \<le> length ys \<Longrightarrow> \<not> work_root fs (take m ys)" by blast
      have "\<not> work_root fs (take m (ys @ [y]))" if "n < m" "m \<le> length (ys @ [y])" for m
        using up [OF that(2)] n(4) [OF that(1)] False by auto
      with n(1-3) d(1) step False show ?thesis by (intro exI [of _ d]) (auto intro!: exI [of _ n])
    next
      assume e: "d = ''.'' \<and> (\<forall>m\<le>length ys. \<not> work_root fs (take m ys))"
      have "\<not> work_root fs (take m (ys @ [y]))" if "m \<le> length (ys @ [y])" for m
        using up [OF that] e False by auto
      with d(1) e step False show ?thesis by auto
    qed
  qed
qed

subsection \<open>os.go\<close>

definition env_entry :: "(string, string) gomap \<Rightarrow> string \<Rightarrow> (string, string) gomap" where
  "env_entry m e = (case str_cut e ''='' of None \<Rightarrow> m | Some (k, v) \<Rightarrow> gm_set k v m)"

definition EnvMap :: "string list \<Rightarrow> (string, string) gomap" where
  "EnvMap environ = foldl env_entry [] environ"

subsection \<open>config\<close>

type_synonym Environment = string

definition EnvironmentDevelopment :: Environment where
  "EnvironmentDevelopment = ''development''"

definition EnvironmentStaging :: Environment where
  "EnvironmentStaging = ''staging''"

definition EnvironmentProduction :: Environment where
  "EnvironmentProduction = ''production''"

definition EnvironmentTesting :: Environment where
  "EnvironmentTesting = ''testing''"

definition EnvironmentValues :: "Environment list" where
  "EnvironmentValues = [EnvironmentDevelopment, EnvironmentStaging, EnvironmentProduction, EnvironmentTesting]"

definition environmentValue :: "(string, Environment) gomap" where
  "environmentValue = [(''development'', EnvironmentDevelopment), (''staging'', EnvironmentStaging),
     (''production'', EnvironmentProduction), (''testing'', EnvironmentTesting)]"

definition ErrInvalidEnvironment :: go_error where
  "ErrInvalidEnvironment = Sentinel ''config'' ''not a valid Environment''"

text \<open>The message reads \<open>name is not a valid Environment\<close>; \<open>Wrap\<close> stands for the wrapping of the
  sentinel.\<close>

definition ParseEnvironment :: "string \<Rightarrow> go_error + Environment" where
  "ParseEnvironment name = (case map_of environmentValue name of Some x \<Rightarrow> Inr x
     | None \<Rightarrow> Inl (Wrap (name @ '' is'') ErrInvalidEnvironment))"

definition Environment_IsValid :: "Environment \<Rightarrow> bool" where
  "Environment_IsValid e = (case ParseEnvironment e of Inl _ \<Rightarrow> False | Inr _ \<Rightarrow> True)"

definition Environment_MarshalText :: "Environment \<Rightarrow> go_error + string" where
  "Environment_MarshalText e = Inr e"

text \<open>\<open>UnmarshalText\<close> on a variable that holds \<open>old\<close>: its error and the variable afterwards.\<close>

definition Environment_UnmarshalText :: "string \<Rightarrow> Environment \<Rightarrow> go_error option \<times> Environment" where
  "Environment_UnmarshalText t old = (case ParseEnvironment t of Inl e \<Rightarrow> (Some e, old) | Inr x \<Rightarrow> (None, x))"

definition Environment_AppendText :: "Environment \<Rightarrow> string \<Rightarrow> go_error + string" where
  "Environment_AppendText e b = Inr (b @ e)"

definition Environment_IsDev :: "Environment \<Rightarrow> bool" where
  "Environment_IsDev e = (e = EnvironmentDevelopment)"

lemma ParseEnvironment_Inr: "ParseEnvironment s = Inr e \<longleftrightarrow> e = s \<and> s \<in> set EnvironmentValues"
  by (auto simp: ParseEnvironment_def environmentValue_def EnvironmentValues_def EnvironmentDevelopment_def
      EnvironmentStaging_def EnvironmentProduction_def EnvironmentTesting_def split: if_splits)

lemma Environment_text_roundtrip:
  assumes "Environment_IsValid e" and "Environment_MarshalText e = Inr t"
  shows "Environment_UnmarshalText t old = (None, e)"
proof -
  have "ParseEnvironment e = Inr e"
    using assms(1) by (cases "ParseEnvironment e") (auto simp: Environment_IsValid_def ParseEnvironment_Inr)
  with assms(2) show ?thesis by (simp add: Environment_MarshalText_def Environment_UnmarshalText_def)
qed

text \<open>A port is a signed 16-bit integer; a number above 32767 converted to it is negative.\<close>

type_synonym Port = "16 word"

definition Port_String :: "Port \<Rightarrow> string" where
  "Port_String p = '':'' @ itoa (sint p)"

lemma Port_String_negative:
  assumes "32768 \<le> uint p"
  shows "Port_String p = '':-'' @ show_nat (nat (- sint p))"
proof -
  have "uint p < 65536" using uint_lt2p [of p] by simp
  with assms have "uint p div 32768 = 1" by (intro int_div_pos_eq [of _ _ _ "uint p - 32768"]) simp_all
  then have "bit (uint p) 15" by (simp add: bit_iff_odd)
  then have "sint p < 0" using bit_last_iff [of p] by (simp add: bit_uint_iff)
  then show ?thesis by (simp add: Port_String_def itoa_def)
qed

text \<open>Durations in seconds.\<close>

record Server =
  cs_Scheme :: string
  cs_Host :: string
  cs_Port :: Port
  cs_ReadHeaderTimeout :: int
  cs_IdleTimeout :: int
  cs_ShutdownTimeout :: int
  cs_AllowedOrigins :: "string list"
  cs_DebugEnabled :: bool

definition SetDefaults :: "Server \<Rightarrow> Server" where
  "SetDefaults s = s\<lparr>cs_ReadHeaderTimeout := if cs_ReadHeaderTimeout s = 0 then 5 else cs_ReadHeaderTimeout s,
     cs_IdleTimeout := if cs_IdleTimeout s = 0 then 120 else cs_IdleTimeout s,
     cs_ShutdownTimeout := if cs_ShutdownTimeout s = 0 then 30 else cs_ShutdownTimeout s\<rparr>"

text \<open>The origins \<open>CORSMiddleware\<close> allows.\<close>

definition cors_allowed :: "Server \<Rightarrow> string list" where
  "cors_allowed cfg = (if cs_AllowedOrigins cfg \<noteq> [] then cs_AllowedOrigins cfg else [cs_Host cfg])"

text \<open>\<open>Fill\<close>: the environment is applied to the configuration, then again, then the TOML files on top of
  it. \<open>env\<close> is envconfig with the lookups of the given map (\<open>None\<close>: the operating system), \<open>unmarshal\<close>
  viper's assignment of the merged files, \<open>readFile\<close> and \<open>merge\<close> the files and their merge, \<open>appEnv\<close> the
  configuration's environment name.\<close>

datatype config_err = EnvErr string | ReadDefault string | ParseDefault string | MergeErr string | UnmarshalErr string

record ('c, 't) config_env =
  cf_env :: "(string, string) gomap option \<Rightarrow> 'c \<Rightarrow> string + 'c"
  cf_readFile :: "string \<Rightarrow> string + string"
  cf_parse :: "string \<Rightarrow> string + 't"
  cf_merge :: "string \<Rightarrow> 't \<Rightarrow> string + 't"
  cf_unmarshal :: "'t \<Rightarrow> 'c \<Rightarrow> string + 'c"
  cf_appEnv :: "'c \<Rightarrow> string"

definition merge_env_file :: "('c, 't) config_env \<Rightarrow> 'c \<Rightarrow> 't \<Rightarrow> config_err + 't" where
  "merge_env_file e c t =
     (case cf_readFile e (''configs/'' @ cf_appEnv e c @ ''.toml'') of Inl _ \<Rightarrow> Inr t
      | Inr data \<Rightarrow> (case cf_merge e data t of Inl m \<Rightarrow> Inl (MergeErr m) | Inr t' \<Rightarrow> Inr t'))"

definition Fill :: "('c, 't) config_env \<Rightarrow> string list \<Rightarrow> 'c \<Rightarrow> config_err + 'c" where
  "Fill e environ config =
     (case cf_env e (Some (EnvMap environ)) config of Inl m \<Rightarrow> Inl (EnvErr m)
      | Inr c1 \<Rightarrow> (case cf_readFile e ''configs/default.toml'' of Inl m \<Rightarrow> Inl (ReadDefault m)
         | Inr data \<Rightarrow> (case cf_parse e data of Inl m \<Rightarrow> Inl (ParseDefault m)
            | Inr t \<Rightarrow> (case merge_env_file e c1 t of Inl x \<Rightarrow> Inl x
               | Inr t' \<Rightarrow> (case cf_env e None c1 of Inl m \<Rightarrow> Inl (EnvErr m)
                  | Inr c2 \<Rightarrow> (case cf_unmarshal e t' c2 of Inl m \<Rightarrow> Inl (UnmarshalErr m) | Inr c3 \<Rightarrow> Inr c3))))))"

text \<open>\<open>envUnmarshal\<close> and \<open>NewContext\<close>. The lookupers of envconfig and its \<open>ProcessWith\<close> are parameters; a
  context never has a map of its own (\<open>envs\<close> is not set), so the second pass of \<open>Fill\<close> asks the
  operating system.\<close>

record 'l lookup_lib =
  lk_OsLookuper :: 'l
  lk_MapLookuper :: "(string, string) gomap \<Rightarrow> 'l"
  lk_PrefixLookuper :: "string \<Rightarrow> 'l \<Rightarrow> 'l"
  lk_MultiLookuper :: "'l list \<Rightarrow> 'l"

definition env_lookuper :: "'l lookup_lib \<Rightarrow> (string, string) gomap option \<Rightarrow> string \<Rightarrow> 'l" where
  "env_lookuper lib envs pre =
     (let base = (case envs of None \<Rightarrow> lk_OsLookuper lib | Some m \<Rightarrow> lk_MapLookuper lib m) in
      if pre \<noteq> [] then lk_MultiLookuper lib [lk_PrefixLookuper lib pre base, base] else base)"

definition envUnmarshal ::
    "'l lookup_lib \<Rightarrow> ('l \<Rightarrow> 'c \<Rightarrow> string + 'c) \<Rightarrow> 'c \<Rightarrow> (string, string) gomap option \<Rightarrow> string \<Rightarrow> string + 'c" where
  "envUnmarshal lib processWith config envs pre =
     (case processWith (env_lookuper lib envs pre) config of
        Inl e \<Rightarrow> Inl (''envconfig process error: '' @ e) | Inr c \<Rightarrow> Inr c)"

record Context =
  cx_fs :: "string \<Rightarrow> string + string"
  cx_envs :: "(string, string) gomap option"
  cx_prefix :: string

definition NewContext :: "(string \<Rightarrow> string + string) \<Rightarrow> string \<Rightarrow> Context" where
  "NewContext lfs envprefix = \<lparr>cx_fs = lfs, cx_envs = None, cx_prefix = envprefix\<rparr>"

text \<open>With the lookups envconfig documents, a variable with the prefix wins over the one without.\<close>

lemma env_lookuper_prefers_prefix:
  assumes "\<And>p (l :: string \<Rightarrow> string option) k. lk_PrefixLookuper lib p l k = l (p @ k)"
    and "\<And>a b k. lk_MultiLookuper lib [a, b] k = (case a k of Some v \<Rightarrow> Some v | None \<Rightarrow> b k)"
    and "\<And>m. lk_MapLookuper lib m = map_of m"
  shows "env_lookuper lib (Some m) pre k = (case map_of m (pre @ k) of Some v \<Rightarrow> Some v | None \<Rightarrow> map_of m k)"
  using assms by (auto simp: env_lookuper_def Let_def split: option.splits)

text \<open>\<open>GetAppEnv\<close> asks the operating system for \<open>APP_ENV\<close>, without the prefix, and panics (\<open>None\<close>) when it is
  empty. With a prefix, the variable \<open>PREFIX_APP_ENV\<close> alone satisfies envconfig and still panics here.\<close>

record Base =
  ba_Environment :: Environment

definition Base_GetAppEnv :: "(string, string) gomap \<Rightarrow> Base \<Rightarrow> Environment option" where
  "Base_GetAppEnv environ b = (if gm_get [] ''APP_ENV'' environ = [] then None else Some (ba_Environment b))"

lemma prefixed_app_env_panics:
  assumes "\<And>p (l :: string \<Rightarrow> string option) k. lk_PrefixLookuper lib p l k = l (p @ k)"
    and "\<And>a b k. lk_MultiLookuper lib [a, b] k = (case a k of Some v \<Rightarrow> Some v | None \<Rightarrow> b k)"
    and "\<And>m. lk_MapLookuper lib m = map_of m"
    and "map_of m (pre @ ''APP_ENV'') = Some v" and "map_of m ''APP_ENV'' = None"
  shows "env_lookuper lib (Some m) pre ''APP_ENV'' = Some v \<and> Base_GetAppEnv m b = None"
  using env_lookuper_prefers_prefix [OF assms(1-3), of m pre "''APP_ENV''"] assms(4,5)
  by (simp add: Base_GetAppEnv_def gm_get_def)

subsection \<open>struct\_args.go and pg.go\<close>

text \<open>A struct by its fields: the \<open>db\<close> tag and the value.\<close>

definition struct_arg :: "(string, 'v) gomap \<Rightarrow> string \<times> 'v \<Rightarrow> (string, 'v) gomap" where
  "struct_arg args fv = (case fv of (tag, v) \<Rightarrow>
     if tag = [] \<or> tag = ''-'' then args
     else let name = hd (split_on (CHR '','') tag) in
       if name = [] \<or> name = ''-'' then args else gm_set name v args)"

definition StructArgs :: "(string \<times> 'v) list \<Rightarrow> (string, 'v) gomap" where
  "StructArgs flds = foldl struct_arg [] flds"

definition maskDatabaseURL :: "string \<Rightarrow> string" where
  "maskDatabaseURL url = (if length url < 20 then ''***'' else take 10 url @ ''***'' @ drop (length url - 10) url)"

subsection \<open>events/proto.go\<close>

text \<open>\<open>marshal\<close> and \<open>unmarshal\<close> are protojson on the event's type, whose name is \<open>ty\<close>; \<open>pub\<close> is the
  bus.\<close>

definition events_Publish ::
    "('m \<Rightarrow> go_error + string) \<Rightarrow> string \<Rightarrow> (string \<Rightarrow> string \<Rightarrow> 'b \<Rightarrow> go_error option \<times> 'b) \<Rightarrow> string \<Rightarrow> 'm \<Rightarrow> 'b \<Rightarrow> go_error option \<times> 'b" where
  "events_Publish marshal ty pub topic event bus =
     (case marshal event of Inl e \<Rightarrow> (Some (Wrap (''marshal '' @ ty) e), bus)
      | Inr b \<Rightarrow> (case pub topic b bus of
           (Some e, bus') \<Rightarrow> (Some (Wrap (''failed to publish event '' @ ty) e), bus')
         | (None, bus') \<Rightarrow> (None, bus')))"

definition events_Handle ::
    "(string \<Rightarrow> go_error + 'm) \<Rightarrow> string \<Rightarrow> ('c \<Rightarrow> 'm \<Rightarrow> go_error option) \<Rightarrow> 'c \<Rightarrow> string \<Rightarrow> go_error option" where
  "events_Handle unmarshal ty fn c payload =
     (case unmarshal payload of Inl e \<Rightarrow> Some (Wrap (''unmarshal '' @ ty) e) | Inr event \<Rightarrow> fn c event)"

lemma events_roundtrip:
  assumes "\<And>e b. marshal e = Inr b \<Longrightarrow> unmarshal b = Inr e"
    and "\<And>t b bus. pub t b bus = (None, bus @ [(t, b)])"
    and "events_Publish marshal ty pub topic event bus = (None, bus')"
  shows "\<exists>b. bus' = bus @ [(topic, b)] \<and> events_Handle unmarshal ty fn c b = fn c event"
  using assms by (auto simp: events_Publish_def events_Handle_def split: sum.splits)

subsection \<open>loglevel.go\<close>

datatype slog_level = SlogDebug | SlogInfo | SlogWarn | SlogError

definition SlogLevel :: "string \<Rightarrow> slog_level" where
  "SlogLevel l = (if l = ''debug'' then SlogDebug else if l = ''warn'' then SlogWarn else if l = ''error'' then SlogError else SlogInfo)"

definition LogLevel_IsValid :: "string \<Rightarrow> bool" where
  "LogLevel_IsValid l = (l \<in> set [''debug'', ''info'', ''warn'', ''error''])"

subsection \<open>runner.go\<close>

text \<open>The modules run in one group; \<open>start i\<close> is what \<open>Start\<close> of module \<open>i\<close> may return, and its error
  is wrapped.\<close>

definition module_ret :: "(nat \<Rightarrow> bool \<Rightarrow> go_error option \<Rightarrow> bool) \<Rightarrow> nat \<Rightarrow> bool \<Rightarrow> go_error option \<Rightarrow> bool" where
  "module_ret start i cancelled r \<longleftrightarrow> (\<exists>r0. start i cancelled r0 \<and> r = eris_wrap r0 ''module failed'')"

definition app_steps :: "(nat \<Rightarrow> bool \<Rightarrow> go_error option \<Rightarrow> bool) \<Rightarrow> group \<Rightarrow> group \<Rightarrow> bool" where
  "app_steps start = (group_step True (module_ret start))\<^sup>*\<^sup>*"

text \<open>What \<open>Run\<close> returns once the group has waited for all goroutines.\<close>

definition App_Run_result :: "group \<Rightarrow> go_error option" where
  "App_Run_result g = eris_wrap (Group_Wait g) ''application stopped with error''"

end
