(* ===== verification/Check_Commands.thy ===== *)
theory Check_Commands
  imports Archtest Platform_Core
begin

text \<open>
  The commands of \<open>cmd/mmw/cmd/check\<close> around the checkers: \<open>files\<close>, \<open>format\<close>, \<open>yaml\<close>, \<open>toml\<close> (all built by
  \<open>newCheckerCmd\<close>), \<open>lint\<close> and \<open>arch\<close>. A command returns its error or the file system it leaves, and what
  it printed; cobra's parsing of the flags is not modelled. The version text of \<open>cmd/version\<close> is here too.
\<close>

datatype checkcmd_err =
    FixNotSupported string
  | FixFailed string check_err
  | CheckFailed string check_err
  | FoundViolations string nat
  | LintRunFailed check_err
  | LintFound
  | LintWorkspace cmd_err
  | ArchFailed

subsection \<open>files.go\<close>

definition result_line :: "Violation \<Rightarrow> string" where
  "result_line v = (if 0 < v_Line v then v_File v @ '':'' @ show_nat (v_Line v) else v_File v) @ '': '' @ v_Message v @ [LF]"

definition printResult :: "Result \<Rightarrow> checkcmd_err option \<times> string" where
  "printResult result =
     (if HasViolations result then Some (FoundViolations (res_CheckerName result) (length (res_Violations result))) else None,
      concat (map result_line (res_Violations result)))"

definition newCheckerCmd ::
    "string \<Rightarrow> (fsys \<Rightarrow> string list \<Rightarrow> check_err + Result) \<Rightarrow> (fsys \<Rightarrow> string list \<Rightarrow> check_err + fsys) option \<Rightarrow> bool \<Rightarrow>
     string list \<Rightarrow> fsys \<Rightarrow> (checkcmd_err + fsys) \<times> string" where
  "newCheckerCmd name check mayFix fix args fs =
     (if fix then (case mayFix of None \<Rightarrow> (Inl (FixNotSupported name), [])
        | Some f \<Rightarrow> (case f fs args of Inl e \<Rightarrow> (Inl (FixFailed name e), []) | Inr fs' \<Rightarrow> (Inr fs', [])))
      else (case check fs args of Inl e \<Rightarrow> (Inl (CheckFailed name e), [])
        | Inr result \<Rightarrow> (case printResult result of (Some e, out) \<Rightarrow> (Inl e, out) | (None, out) \<Rightarrow> (Inr fs, out))))"

definition FilesCmd :: "tools \<Rightarrow> bool \<Rightarrow> string list \<Rightarrow> fsys \<Rightarrow> (checkcmd_err + fsys) \<times> string" where
  "FilesCmd w = newCheckerCmd ''files'' (filesCheck w) (Some (filesFix w))"

definition FormatCmd :: "tools \<Rightarrow> bool \<Rightarrow> string list \<Rightarrow> fsys \<Rightarrow> (checkcmd_err + fsys) \<times> string" where
  "FormatCmd w = newCheckerCmd ''format'' (formatCheck w) (Some (formatFix w))"

text \<open>The two commands without a \<open>--fix\<close> flag.\<close>

definition YAMLCmd :: "tools \<Rightarrow> string list \<Rightarrow> fsys \<Rightarrow> (checkcmd_err + fsys) \<times> string" where
  "YAMLCmd w = newCheckerCmd ''yaml'' (\<lambda>fs. yamlCheck w) None False"

definition TOMLCmd :: "tools \<Rightarrow> string list \<Rightarrow> fsys \<Rightarrow> (checkcmd_err + fsys) \<times> string" where
  "TOMLCmd w = newCheckerCmd ''toml'' (tomlCheck w) None False"

subsection \<open>lint.go and arch.go\<close>

text \<open>\<open>toolsAt\<close> are the tools as seen from a module's directory; \<open>root\<close> is what \<open>RootRepo\<close> found.\<close>

definition LintCmd :: "tools \<Rightarrow> (string \<Rightarrow> tools) \<Rightarrow> string \<Rightarrow> bool \<Rightarrow> string list \<Rightarrow> fsys \<Rightarrow> checkcmd_err option \<times> string" where
  "LintCmd w toolsAt root workspace args fs =
     (if workspace then (case lintWorkspace toolsAt fs root of (e, out) \<Rightarrow> (map_option LintWorkspace e, out))
      else (case lintCheck w False args of Inl e \<Rightarrow> (Some (LintRunFailed e), [])
        | Inr result \<Rightarrow> (if HasViolations result then Some LintFound else None, [])))"

definition ArchCmd ::
    "arch_env \<Rightarrow> (string \<Rightarrow> string option) \<Rightarrow> (string \<Rightarrow> run_end) \<Rightarrow> string \<Rightarrow> checkcmd_err option" where
  "ArchCmd env trust archCheck cwd =
     (case RootRepo (ae_fs env) cwd of None \<Rightarrow> Some ArchFailed
      | Some root \<Rightarrow> (if fst (RunAll env trust archCheck root) \<noteq> 0 then Some ArchFailed else None))"

subsection \<open>version.go\<close>

text \<open>The build settings, in order; \<open>None\<close> when the binary has none. The commit, its time and whether the
  tree was modified.\<close>

definition vcs_setting :: "string \<times> string \<times> bool \<Rightarrow> string \<times> string \<Rightarrow> string \<times> string \<times> bool" where
  "vcs_setting st kv = (case st of (commit, commitTime, dirty) \<Rightarrow> (case kv of (key, val) \<Rightarrow>
     if key = ''vcs.revision'' then (if 7 < length val then take 7 val else val, commitTime, dirty)
     else if key = ''vcs.time'' then (commit, val, dirty)
     else if key = ''vcs.modified'' then (commit, commitTime, val = ''true'') else st))"

definition vcsInfo :: "(string \<times> string) list option \<Rightarrow> string \<times> string \<times> bool" where
  "vcsInfo settings = (case settings of None \<Rightarrow> ([], [], False) | Some kvs \<Rightarrow> foldl vcs_setting ([], [], False) kvs)"

definition version_buildInfo :: "string \<Rightarrow> (string \<times> string) list option \<Rightarrow> string" where
  "version_buildInfo ver settings =
     (case vcsInfo settings of (commit, commitTime, dirty) \<Rightarrow>
        if commit = [] then ver
        else ver @ '' commit='' @ commit @ (if dirty then ''*'' else []) @ '' built='' @ commitTime)"

subsection \<open>When a command succeeds\<close>

definition cmd_passes :: "(checkcmd_err + fsys) \<times> string \<Rightarrow> bool" where
  "cmd_passes r = (case fst r of Inl _ \<Rightarrow> False | Inr _ \<Rightarrow> True)"

lemma checker_cmd_passes:
  "cmd_passes (newCheckerCmd name check mayFix False args fs) \<longleftrightarrow> (\<exists>r. check fs args = Inr r \<and> \<not> HasViolations r)"
  by (auto simp: cmd_passes_def newCheckerCmd_def printResult_def split: sum.splits)

lemma checker_cmd_reads: "newCheckerCmd name check mayFix False args fs = (Inr fs', out) \<Longrightarrow> fs' = fs \<and> out = []"
  by (auto simp: newCheckerCmd_def printResult_def HasViolations_def split: sum.splits if_splits)

text \<open>Checkers that all pass make a run of them pass.\<close>

lemma runCheckers_all_clean:
  assumes "\<forall>c \<in> set cs. \<exists>r. c targets = Inr r \<and> \<not> HasViolations r"
  shows "\<exists>rs. runCheckers cs targets failFast acc = (None, acc @ rs) \<and> \<not> list_ex HasViolations rs"
  using assms
proof (induction cs arbitrary: acc)
  case (Cons c cs)
  then obtain r where r: "c targets = Inr r" "\<not> HasViolations r" by auto
  from Cons obtain rs where "runCheckers cs targets failFast (acc @ [r]) = (None, (acc @ [r]) @ rs)" "\<not> list_ex HasViolations rs"
    by fastforce
  with r show ?case by (intro exI [of _ "r # rs"]) simp
qed simp

end
