(* ===== verification/Props_Checks.thy ===== *)
theory Props_Checks
  imports Check_Commands
begin

text \<open>The properties of the pre-commit checks.\<close>

subsection \<open>Fixing files\<close>

text \<open>
  Claim C25. \<open>mmw check files --fix\<close> does its job on text files: a file with LF or CRLF line ends that
  is below the size limit (or exempt from it) is rewritten with the same permission bits, the same
  number of lines, each stripped of its trailing blanks and carriage return, and checking it again
  reports nothing. No other file changes.
\<close>

theorem fix_then_check_passes:
  assumes "fs path = File data mode" and "text_file data"
    and "length data < maxFileSize \<or> isSizeExempt path" and "writeErr path = None"
  shows "\<exists>fs'. fixFileContent writeErr fs path = Inr fs' \<and> checkFileContent fs' path = Inr [] \<and>
    (\<forall>p. p \<noteq> path \<longrightarrow> fs' p = fs p) \<and>
    (\<exists>out. fs' path = File out mode \<and>
       raw_lines out = map (\<lambda>l. trimRight (dropCR l) blanks) (raw_lines data))"
proof -
  let ?fs = "fs(path := File (fix_data data) mode)"
  have big: "\<not> too_big path (length data)" "\<not> too_big path (length (fix_data data))"
    using assms(3) length_fix_data [OF assms(2)] by (auto simp: too_big_def)
  have "fixFileContent writeErr fs path = Inr ?fs"
    using assms big by (simp add: fixFileContent_def text_file_not_binary text_file_scan fix_data_def)
  moreover have "checkFileContent ?fs path = Inr []"
    using check_fixed [OF assms(2) big(2)] by (simp add: checkFileContent_def)
  ultimately show ?thesis using fix_data_lines [OF assms(2)] by auto
qed

definition ex_fs :: fsys where
  "ex_fs p = (if p = ''a.txt'' then File (''one '' @ [LF] @ ''two'' @ [CR, LF] @ ''three'') 420 else Missing ''no such file'')"

theorem fix_then_check_passes_witness:
  "\<exists>fs'. fixFileContent (\<lambda>_. None) ex_fs ''a.txt'' = Inr fs' \<and> checkFileContent fs' ''a.txt'' = Inr []"
proof -
  have "text_file (''one '' @ [LF] @ ''two'' @ [CR, LF] @ ''three'')"
    by (simp add: text_file_def raw_lines_def LF_def CR_def dropCR_def line_fits_def maxLineBufBytes_def)
  from fix_then_check_passes [OF _ this, of ex_fs "''a.txt''" 420 "\<lambda>_. None"] show ?thesis
    by (auto simp: ex_fs_def maxFileSize_def LF_def CR_def)
qed

text \<open>
  On texts with LF line ends the fix and the check agree: fixing is idempotent, and a text is
  clean exactly when fixing leaves it unchanged.
\<close>

theorem fix_iff_clean:
  assumes "lf_text data"
  shows "fix_data (fix_data data) = fix_data data \<and> (text_clean data \<longleftrightarrow> fix_data data = data)"
  using files.fix_idem [OF assms] files.clean_iff [OF assms] by blast

theorem fix_iff_clean_witness:
  "fix_data (fix_data (''a '' @ [LF])) = fix_data (''a '' @ [LF]) \<and>
    (text_clean (''a '' @ [LF]) \<longleftrightarrow> fix_data (''a '' @ [LF]) = ''a '' @ [LF])"
  by (rule fix_iff_clean) (simp add: lf_text_def raw_lines_def LF_def CR_def line_fits_def maxLineBufBytes_def)

text \<open>
  The exception: on a line that ends in blank, carriage return, carriage return, the fix does
  not converge in one run. It leaves a file that the check still rejects.
\<close>

theorem fix_not_enough_for_double_CR:
  "(case fixFileContent (\<lambda>_. None) (\<lambda>_. File (''a '' @ [CR, CR, LF]) 420) ''a.txt'' of
      Inl _ \<Rightarrow> False
    | Inr fs' \<Rightarrow> checkFileContent fs' ''a.txt'' =
        Inr [\<lparr>v_File = ''a.txt'', v_Line = 1, v_Message = ''trailing whitespace''\<rparr>])"
  by code_simp

text \<open>
  Binary files and files above the size limit are never rewritten, and directories and
  oversized files are not even read: fixing them changes nothing.
\<close>

theorem fix_spares:
  assumes "fs path = Directory \<or> (\<exists>data mode. fs path = File data mode \<and> (isBinary data \<or> too_big path (length data)))
      \<or> (\<exists>n e. fs path = Unreadable n e \<and> too_big path n)"
  shows "fixFileContent writeErr fs path = Inr fs"
  using assms by (auto simp: fixFileContent_def)

theorem fix_spares_witness: "fixFileContent (\<lambda>_. None) (\<lambda>_. File [CHR 0x00, CHR 0x20] 420) ''logo.png'' = Inr (\<lambda>_. File [CHR 0x00, CHR 0x20] 420)"
  by (rule fix_spares) (simp add: isBinary_def binarySniffLen_def)

subsection \<open>Generated files\<close>

text \<open>
  A Go file counts as generated only by a marker in its header: after any number of blank
  and comment lines, a marker line decides that it is, and the first line of code decides that it is
  not, whatever follows it (a marker in a string or a function body included).
\<close>

theorem generated_header:
  assumes "\<forall>t \<in> set hs. header_line t"
  shows "(code_line t \<longrightarrow> scanMarker False (hs @ t # ts) = Some False) \<and>
    (generatedMarker (trimSpace (trimRight t [CR])) \<longrightarrow> scanMarker False (hs @ t # ts) = Some True)"
  unfolding scanMarker_header [OF assms] using scanMarker_code scanMarker_marker by blast

theorem generated_header_witness:
  "scanMarker False ([''// license'', []] @ ''package p'' # [''// Code generated by x DO NOT EDIT.'']) = Some False"
proof -
  have h: "\<forall>t \<in> set [''// license'', []]. header_line t" by code_simp
  have c: "code_line ''package p''" by code_simp
  from generated_header [OF h, of "''package p''" "[''// Code generated by x DO NOT EDIT.'']"] c show ?thesis by blast
qed

subsection \<open>The pre-commit run\<close>

lemma runPreCommit_passes:
  "fst (runPreCommit w fs modified failFast) = AllPassed \<longleftrightarrow>
   (\<exists>files. SelectFiles w modified = Inr files \<and> files \<noteq> [] \<and>
      cmd_passes (FilesCmd w False files fs) \<and> cmd_passes (YAMLCmd w files fs) \<and> cmd_passes (TOMLCmd w files fs) \<and>
      cmd_passes (FormatCmd w False files fs) \<and> (\<exists>r. lintCheck w True files = Inr r \<and> \<not> HasViolations r))"
  (is "?L \<longleftrightarrow> ?R")
proof -
  let ?cs = "[filesCheck w fs, yamlCheck w, tomlCheck w fs, formatCheck w fs, lintCheck w True]"
  let ?ok = "\<lambda>files. \<forall>c \<in> set ?cs. \<exists>r. c files = Inr r \<and> \<not> HasViolations r"
  have cmds: "?R \<longleftrightarrow> (\<exists>files. SelectFiles w modified = Inr files \<and> files \<noteq> [] \<and> ?ok files)"
    by (simp add: FilesCmd_def YAMLCmd_def TOMLCmd_def FormatCmd_def checker_cmd_passes)
  show ?thesis unfolding cmds
  proof
    assume ?L
    then obtain files results where f: "SelectFiles w modified = Inr files" "files \<noteq> []"
      and r: "runCheckers ?cs files failFast [] = (None, results)" "\<not> list_ex HasViolations results"
      by (auto simp: runPreCommit_def RunPreCommit_def Let_def simp del: runCheckers.simps
          split: sum.splits option.splits if_splits prod.splits)
    from runCheckers_clean [OF r] f show "\<exists>files. SelectFiles w modified = Inr files \<and> files \<noteq> [] \<and> ?ok files" by auto
  next
    assume "\<exists>files. SelectFiles w modified = Inr files \<and> files \<noteq> [] \<and> ?ok files"
    then obtain files where f: "SelectFiles w modified = Inr files" "files \<noteq> []" and ok: "?ok files" by blast
    from runCheckers_all_clean [OF ok, of failFast "[]"] obtain rs where
      "runCheckers ?cs files failFast [] = (None, rs)" "\<not> list_ex HasViolations rs" by auto
    with f show ?L by (simp add: runPreCommit_def RunPreCommit_def Let_def del: runCheckers.simps)
  qed
qed

text \<open>
  A pre-commit run reports success exactly when there is a file to check and every check
  command, run by hand on the selected files, succeeds: \<open>files\<close>, \<open>yaml\<close>, \<open>toml\<close> and \<open>format\<close>, and the linter
  on the packages of those files; with or without fail-fast.
\<close>

theorem precommit_agrees_with_commands:
  "fst (runPreCommit w fs modified failFast) = AllPassed \<longleftrightarrow>
   (\<exists>files. SelectFiles w modified = Inr files \<and> files \<noteq> [] \<and>
      cmd_passes (FilesCmd w False files fs) \<and> cmd_passes (YAMLCmd w files fs) \<and> cmd_passes (TOMLCmd w files fs) \<and>
      cmd_passes (FormatCmd w False files fs) \<and> (\<exists>r. lintCheck w True files = Inr r \<and> \<not> HasViolations r))"
  by (rule runPreCommit_passes)

text \<open>
  yamllint's report is read back exactly: a line with a path, a line and column number and a
  message gives a violation at that path and line with that message, for any path (colons and
  numbers included) and any message that does not itself look like the position of a problem.
\<close>

theorem yamllint_roundtrip:
  assumes "no_problem msg" and "l \<le> 2 ^ 63 - 1"
  shows "parseYamllintProblem (path @ '':'' @ show_nat l @ '':'' @ show_nat c @ '': '' @ msg) =
    \<lparr>v_File = path, v_Line = l, v_Message = msg\<rparr>"
  using match_problem_line [OF assms(1), of path l c] assms(2)
  by (simp add: parseYamllintProblem_def digits_val_show_nat maxInt64_def)

theorem yamllint_roundtrip_witness:
  "parseYamllintProblem (''a:1:2.yml'' @ '':'' @ show_nat 12 @ '':'' @ show_nat 81 @ '': '' @ ''[error] syntax error: x'') =
    \<lparr>v_File = ''a:1:2.yml'', v_Line = 12, v_Message = ''[error] syntax error: x''\<rparr>"
proof (rule yamllint_roundtrip)
  show "no_problem ''[error] syntax error: x''" by code_simp
qed simp

text \<open>
  The packages linted for a selection of files are the directories of its Go files, each
  once and in order; a selection with no Go file is skipped instead of being passed on.
\<close>

theorem lint_packages:
  "sorted (PackageDirsFromFiles files) \<and> distinct (PackageDirsFromFiles files) \<and>
   set (PackageDirsFromFiles files) = {path_join [''.'', path_dir f] | f. f \<in> set files \<and> path_ext f = goExt} \<and>
   (snd (resolveLintTargets True files) \<longleftrightarrow> \<not> list_ex (\<lambda>f. path_ext f = goExt) files)"
proof -
  have s: "distinct (package_dirs [] files)"
    "set (package_dirs [] files) = {path_join [''.'', path_dir f] | f. f \<in> set files \<and> path_ext f = goExt}"
    using package_dirs_spec [of "[]" files] by auto
  have "snd (resolveLintTargets True files) \<longleftrightarrow> set (PackageDirsFromFiles files) = {}"
    by (simp add: resolveLintTargets_def Let_def)
  with s show ?thesis by (auto simp: PackageDirsFromFiles_def list_ex_iff)
qed

text \<open>
  The patterns given to the linter do not start with \<open>./\<close>: for \<open>cmd/root.go\<close> the pattern is
  \<open>cmd\<close>, because joining with "." cleans it away.
\<close>

theorem package_dir_not_prefixed: "PackageDirsFromFiles [''cmd/root.go'', ''internal/pkg/checks/files.go''] = [''cmd'', ''internal/pkg/checks'']"
  by code_simp

end
