(* ===== verification/Scaffold_Insert.thy ===== *)
theory Scaffold_Insert
  imports Scaffold_Vars
begin

text \<open>
  \<open>pkg/scaffold/insert.go\<close> and \<open>snippets.go\<close>: the lines a slice inserts at the module's markers and
  the table it adds to the list of bungen. \<open>go/format\<close> is a parameter (it formats the text of a Go file
  or fails), as is the \<open>pascal\<close> function of the template engine; the snippet templates are given
  parsed, as literal text and fields.
\<close>

subsection \<open>Markers\<close>

definition MarkerField :: string where "MarkerField = ''// mmw:slice-field''"
definition MarkerWire :: string where "MarkerWire = ''// mmw:slice-wire''"
definition MarkerHandler :: string where "MarkerHandler = ''// mmw:slice-handler''"
definition MarkerTopic :: string where "MarkerTopic = ''// mmw:slice-topic''"
definition MarkerEvent :: string where "MarkerEvent = ''// mmw:slice-event''"
definition MarkerError :: string where "MarkerError = ''// mmw:slice-error''"

subsection \<open>InsertBefore\<close>

fun index_where :: "('a \<Rightarrow> bool) \<Rightarrow> 'a list \<Rightarrow> nat option" where
  "index_where P [] = None"
| "index_where P (x # xs) = (if P x then Some 0 else map_option Suc (index_where P xs))"

text \<open>\<open>strings.Join(strings.Fields(l), " ")\<close>.\<close>

definition squeeze :: "string \<Rightarrow> string" where
  "squeeze l = join '' '' (Go_Strings.fields l)"

definition line_indent :: "string \<Rightarrow> string" where
  "line_indent l = take (length l - length (trimLeft l blanks)) l"

datatype insertion = NoMarker | Present | Inserted string

definition insert_snippet :: "string \<Rightarrow> string \<Rightarrow> string \<Rightarrow> insertion" where
  "insert_snippet data marker snippet =
     (let lines = split_on LF data in
      case index_where (\<lambda>l. contains l marker) lines of None \<Rightarrow> NoMarker
      | Some at \<Rightarrow>
         (let snippetLines = split_on LF snippet; first = squeeze (hd snippetLines) in
          if list_ex (\<lambda>l. squeeze l = first) lines then Present
          else Inserted (join [LF]
                 (take at lines @ map (\<lambda>l. line_indent (lines ! at) @ l) snippetLines @ drop at lines))))"

definition InsertBefore ::
    "(string \<Rightarrow> string + string) \<Rightarrow> (string \<Rightarrow> string option) \<Rightarrow> fsys \<Rightarrow> string \<Rightarrow> string \<Rightarrow> string
       \<Rightarrow> scaffold_err + bool \<times> fsys" where
  "InsertBefore format writeErr fs path marker snippet =
     (case os_ReadFile fs path of Inl e \<Rightarrow> Inl (ReadFailed marker e)
      | Inr data \<Rightarrow> (case insert_snippet data marker snippet of
           NoMarker \<Rightarrow> Inr (False, fs)
         | Present \<Rightarrow> Inr (True, fs)
         | Inserted out \<Rightarrow>
            (case (if hasSuffix path ''.go'' then format out else Inr out) of
               Inl e \<Rightarrow> Inl (FormatFailed path e)
             | Inr out' \<Rightarrow> (case os_WriteFile writeErr fs path out' of
                  Inl e \<Rightarrow> Inl (WriteFailed marker e) | Inr fs' \<Rightarrow> Inr (True, fs')))))"

subsection \<open>AppendBungenTable\<close>

definition apos :: char where
  "apos = CHR 0x27"

text \<open>\<open>bungenTablesRe\<close>, \<open>-t '([^']*)'\<close>: where its group starts and ends in the text. The first
  \<open>-t '\<close> decides: a later one would itself close its quote.\<close>

definition bungenTables :: "string \<Rightarrow> (nat \<times> nat) option" where
  "bungenTables data =
     (case str_index data (''-t '' @ [apos]) of None \<Rightarrow> None
      | Some i \<Rightarrow> (let rest = drop (i + 4) data in
          if apos \<in> set rest then Some (i + 4, i + 4 + length (takeWhile (\<lambda>c. c \<noteq> apos) rest)) else None))"

definition AppendBungenTable ::
    "(string \<Rightarrow> string option) \<Rightarrow> fsys \<Rightarrow> string \<Rightarrow> string \<Rightarrow> scaffold_err + bool \<times> fsys" where
  "AppendBungenTable writeErr fs miseTomlPath table =
     (case os_ReadFile fs miseTomlPath of Inl e \<Rightarrow> Inl (ReadFailed ''mise.toml'' e)
      | Inr data \<Rightarrow> (case bungenTables data of None \<Rightarrow> Inr (False, fs)
         | Some (a, b) \<Rightarrow>
            (if table \<in> set (split_on (CHR '','') (take (b - a) (drop a data))) then Inr (True, fs)
             else (case os_WriteFile writeErr fs miseTomlPath (take b data @ '','' @ table @ drop b data) of
                Inl e \<Rightarrow> Inl (WriteFailed ''mise.toml'' e) | Inr fs' \<Rightarrow> Inr (True, fs')))))"

subsection \<open>Snippets\<close>

record Snippet =
  sn_Path :: string
  sn_Marker :: string
  sn_Text :: string

text \<open>A parsed template: literal text, a variable, a variable through \<open>pascal\<close>, and
  \<open>printf\<close> of a variable between two texts.\<close>

datatype piece = Lit string | Fld string | Pascal string | Printf string string string

type_synonym template = "piece list"

record snippetSource =
  ss_path :: template
  ss_marker :: string
  ss_text :: template
  ss_skip :: "string \<Rightarrow> bool \<Rightarrow> bool"

definition never :: "string \<Rightarrow> bool \<Rightarrow> bool" where
  "never shape grpc = False"

definition isReadModel :: "string \<Rightarrow> bool \<Rightarrow> bool" where
  "isReadModel shape grpc = (shape = ''read-model'')"

definition rootFile :: template where
  "rootFile = [Fld ''Name'', Lit ''.go'']"

definition nl_tab :: string where
  "nl_tab = [LF, CHR 0x09]"

definition snippetSources :: "snippetSource list" where
  "snippetSources =
    [\<lparr>ss_path = rootFile, ss_marker = MarkerField,
      ss_text = [Fld ''Entity'', Lit '' application.'', Pascal ''Entity'', Lit ''Service''], ss_skip = never\<rparr>,
     \<lparr>ss_path = rootFile, ss_marker = MarkerWire,
      ss_text = [Lit ''m.'', Fld ''Entity'', Lit '' = new'', Pascal ''Entity'', Lit ''Service(cfg, infra)''], ss_skip = never\<rparr>,
     \<lparr>ss_path = rootFile, ss_marker = MarkerHandler,
      ss_text = [Lit ''mount('', Fld ''Name'', Lit ''v1connect.New'', Pascal ''Entity'', Lit (''ServiceHandler('' @ nl_tab @ ''connecthandler.New''),
        Pascal ''Entity'', Lit ''Handler(m.'', Fld ''Entity'', Lit (''), interceptors))'' @ [LF] @ ''health['' @ [CHR 0x22]), Fld ''Entity'',
        Lit ([CHR 0x22] @ ''] = m.''), Fld ''Entity'', Lit (''.Health'' @ [LF] @ ''names = append(names, ''), Fld ''Name'',
        Lit ''v1connect.'', Pascal ''Entity'', Lit ''ServiceName)''],
      ss_skip = (\<lambda>_ grpc. \<not> grpc)\<rparr>,
     \<lparr>ss_path = [Lit ''internal/adapters/outbound/events/topics.go''], ss_marker = MarkerTopic,
      ss_text = [Lit ''m'', Printf ''['' ''Entity'' ''EventType]'', Lit '' = '', Fld ''Entity'', Lit ''Topic''], ss_skip = isReadModel\<rparr>,
     \<lparr>ss_path = [Lit ''internal/adapters/outbound/events/proto.go''], ss_marker = MarkerEvent,
      ss_text = [Lit ''if p := '', Fld ''Entity'', Lit (''ToProto(event); p != nil {'' @ nl_tab @ ''return p'' @ [LF] @ ''}'')],
      ss_skip = isReadModel\<rparr>,
     \<lparr>ss_path = [Lit ''internal/adapters/inbound/mapper/errors.go''], ss_marker = MarkerError,
      ss_text = [Lit ''if d := domainErrorFrom(err, '', Fld ''Entity'', Lit (''ErrorCodes); d != nil {'' @ nl_tab @ ''return d'' @ [LF] @ ''}'')],
      ss_skip = never\<rparr>]"

text \<open>\<open>text/template\<close> on these pieces: an absent variable prints as \<open><no value>\<close> and cannot be
  the argument of \<open>pascal\<close>.\<close>

definition show_any :: "any \<Rightarrow> string" where
  "show_any v = (case v of AString s \<Rightarrow> s | ABool b \<Rightarrow> (if b then ''true'' else ''false'')
     | AStrings ss \<Rightarrow> ''['' @ join '' '' ss @ '']'' | ANil \<Rightarrow> ''<no value>'')"

text \<open>\<open>%s\<close> of \<open>printf\<close>.\<close>

definition printf_s :: "any \<Rightarrow> string" where
  "printf_s v = (case v of ABool b \<Rightarrow> ''%!s(bool='' @ show_any v @ '')'' | ANil \<Rightarrow> ''%!s(<nil>)'' | _ \<Rightarrow> show_any v)"

definition render_piece :: "(string \<Rightarrow> string) \<Rightarrow> vars \<Rightarrow> piece \<Rightarrow> string option" where
  "render_piece pascal vars p =
     (case p of Lit s \<Rightarrow> Some s
      | Fld k \<Rightarrow> Some (show_any (gm_get ANil k vars))
      | Pascal k \<Rightarrow> (case gm_get ANil k vars of AString s \<Rightarrow> Some (pascal s) | _ \<Rightarrow> None)
      | Printf a k b \<Rightarrow> Some (a @ printf_s (gm_get ANil k vars) @ b))"

fun renderSnippet :: "(string \<Rightarrow> string) \<Rightarrow> vars \<Rightarrow> template \<Rightarrow> scaffold_err + string" where
  "renderSnippet pascal vars [] = Inr []"
| "renderSnippet pascal vars (p # ps) =
     (case render_piece pascal vars p of None \<Rightarrow> Inl (RenderFailed ''snippet'')
      | Some s \<Rightarrow> (case renderSnippet pascal vars ps of Inl e \<Rightarrow> Inl e | Inr t \<Rightarrow> Inr (s @ t)))"

definition render_source :: "(string \<Rightarrow> string) \<Rightarrow> vars \<Rightarrow> Snippet list \<Rightarrow> snippetSource \<Rightarrow> scaffold_err + Snippet list" where
  "render_source pascal vars acc src =
     (if ss_skip src (get_string vars ''Shape'') (get_bool vars ''Grpc'') then Inr acc
      else (case renderSnippet pascal vars (ss_path src) of Inl e \<Rightarrow> Inl e
        | Inr path \<Rightarrow> (case renderSnippet pascal vars (ss_text src) of Inl e \<Rightarrow> Inl e
           | Inr text \<Rightarrow> Inr (acc @ [\<lparr>sn_Path = path, sn_Marker = ss_marker src, sn_Text = text\<rparr>]))))"

definition RenderSnippets :: "(string \<Rightarrow> string) \<Rightarrow> vars \<Rightarrow> scaffold_err + Snippet list" where
  "RenderSnippets pascal vars = foldM (render_source pascal vars) [] snippetSources"

subsection \<open>What an insertion does\<close>

lemma index_where_Some:
  "index_where P xs = Some i \<Longrightarrow> i < length xs \<and> P (xs ! i) \<and> list_all (\<lambda>x. \<not> P x) (take i xs)"
proof (induction xs arbitrary: i)
  case (Cons x xs)
  then show ?case by (cases "P x") auto
qed simp

lemma index_where_None: "index_where P xs = None \<longleftrightarrow> list_all (\<lambda>x. \<not> P x) xs"
  by (induction xs) auto

lemma line_indent_eq: "line_indent l = takeWhile (\<lambda>c. c \<in> set blanks) l"
proof -
  have l: "takeWhile (\<lambda>c. c \<in> set blanks) l @ dropWhile (\<lambda>c. c \<in> set blanks) l = l"
    by (rule takeWhile_dropWhile_id)
  then have "length l - length (dropWhile (\<lambda>c. c \<in> set blanks) l) = length (takeWhile (\<lambda>c. c \<in> set blanks) l)"
    by (metis add_diff_cancel_right' length_append)
  then show ?thesis unfolding line_indent_def trimLeft_def by (simp only: takeWhile_eq_take [symmetric])
qed

lemma set_line_indent: "set (line_indent l) \<subseteq> set blanks"
  by (auto simp: line_indent_eq dest: set_takeWhileD)

lemma fields_blank: "c \<in> set blanks \<Longrightarrow> Go_Strings.fields (c # s) = Go_Strings.fields s"
proof -
  assume "c \<in> set blanks"
  then have "c = CHR '' '' \<or> c = CHR 0x09" by (simp add: blanks_def)
  then have "starts_with_any space_runes (c # s) = Some [c]"
    by (elim disjE) (simp_all add: starts_with_any_def space_runes_def)
  then show ?thesis by (simp add: Go_Strings.fields_def fields_aux.simps [of "[]" "c # s"])
qed

lemma squeeze_indent: "set b \<subseteq> set blanks \<Longrightarrow> squeeze (b @ l) = squeeze l"
  by (induction b) (simp_all add: squeeze_def fields_blank)

lemma LF_notin_indent: "LF \<notin> set (line_indent l)"
  using set_line_indent [of l] by (auto simp: blanks_def LF_def)

text \<open>The lines after an insertion: the snippet's, indented, before the first line with the
  marker.\<close>

lemma insert_snippet_lines:
  assumes "insert_snippet data marker snippet = Inserted out"
  obtains at where "index_where (\<lambda>l. contains l marker) (split_on LF data) = Some at"
    and "split_on LF out = take at (split_on LF data) @
       map (\<lambda>l. line_indent (split_on LF data ! at) @ l) (split_on LF snippet) @ drop at (split_on LF data)"
proof -
  let ?ls = "split_on LF data"
  from assms obtain at where at: "index_where (\<lambda>l. contains l marker) ?ls = Some at"
    and out: "out = join [LF] (take at ?ls @ map (\<lambda>l. line_indent (?ls ! at) @ l) (split_on LF snippet) @ drop at ?ls)"
    by (auto simp: insert_snippet_def Let_def split: option.splits if_splits)
  have "LF \<notin> set l" if "l \<in> set (take at ?ls @ map (\<lambda>l. line_indent (?ls ! at) @ l) (split_on LF snippet) @ drop at ?ls)" for l
    using that split_on_parts [of _ LF data] split_on_parts [of _ LF snippet] LF_notin_indent
    by (auto dest!: in_set_takeD in_set_dropD)
  with out have "split_on LF out = take at ?ls @ map (\<lambda>l. line_indent (?ls ! at) @ l) (split_on LF snippet) @ drop at ?ls"
    by (auto intro!: split_on_join)
  with at show ?thesis by (rule that)
qed

lemma insert_snippet_keeps:
  assumes "insert_snippet data marker snippet = Inserted out"
  shows "list_ex (\<lambda>l. contains l marker) (split_on LF out)"
    and "list_ex (\<lambda>l. squeeze l = squeeze (hd (split_on LF snippet))) (split_on LF out)"
proof -
  obtain at where at: "index_where (\<lambda>l. contains l marker) (split_on LF data) = Some at"
    and ls: "split_on LF out = take at (split_on LF data) @
       map (\<lambda>l. line_indent (split_on LF data ! at) @ l) (split_on LF snippet) @ drop at (split_on LF data)"
    using insert_snippet_lines [OF assms] by blast
  from index_where_Some [OF at] have "at < length (split_on LF data)" "contains (split_on LF data ! at) marker" by auto
  then show "list_ex (\<lambda>l. contains l marker) (split_on LF out)"
    unfolding ls by (auto simp: list_ex_iff Cons_nth_drop_Suc [symmetric])
  have "squeeze (line_indent (split_on LF data ! at) @ hd (split_on LF snippet)) = squeeze (hd (split_on LF snippet))"
    using set_line_indent by (rule squeeze_indent)
  then show "list_ex (\<lambda>l. squeeze l = squeeze (hd (split_on LF snippet))) (split_on LF out)"
    unfolding ls by (cases "split_on LF snippet") (auto simp: list_ex_iff)
qed

lemma insert_snippet_Present:
  assumes "list_ex (\<lambda>l. contains l marker) (split_on LF t)"
    and "list_ex (\<lambda>l. squeeze l = squeeze (hd (split_on LF snippet))) (split_on LF t)"
  shows "insert_snippet t marker snippet = Present"
proof -
  have "index_where (\<lambda>l. contains l marker) (split_on LF t) \<noteq> None"
    using assms(1) by (auto simp: index_where_None list_all_iff list_ex_iff)
  with assms(2) show ?thesis by (auto simp: insert_snippet_def Let_def)
qed

subsection \<open>What listing a table does\<close>

lemma str_index_take:
  "str_index s sub = Some i \<Longrightarrow> i + length sub \<le> n \<Longrightarrow> sub \<noteq> [] \<Longrightarrow> str_index (take n s @ t) sub = Some i"
proof (induction s sub arbitrary: i n rule: str_index.induct)
  case (1 sub)
  then show ?case by simp
next
  case (2 c cs sub)
  from "2.prems" obtain m where m: "n = Suc m" by (cases n) auto
  show ?case
  proof (cases "prefix sub (c # cs)")
    case True
    with "2.prems" have "i = 0" by simp
    obtain z where z: "c # cs = sub @ z" using True by (auto simp: prefix_def)
    have "prefix sub (take n (c # cs) @ t)" using "2.prems"(2) \<open>i = 0\<close> unfolding z by simp
    with \<open>i = 0\<close> show ?thesis by (simp add: m)
  next
    case False
    with "2.prems" obtain j where j: "str_index cs sub = Some j" "i = Suc j" by auto
    have "\<not> prefix sub (c # take m cs @ t)"
    proof
      assume "prefix sub (c # take m cs @ t)"
      then have "sub = take (length sub) (take n (c # cs) @ t)" by (simp add: m prefix_def) (metis append_eq_conv_conj take_Suc_Cons)
      moreover have "length sub \<le> length (take n (c # cs))"
        using str_index_Some [OF "2.prems"(1)] "2.prems"(2) by simp
      ultimately have "sub = take (length sub) (c # cs)" using "2.prems"(2) by (simp add: min_def)
      with False show False by (metis take_is_prefix)
    qed
    moreover have "str_index (take m cs @ t) sub = Some j"
      using "2.IH" [OF False j(1)] "2.prems" j(2) m by simp
    ultimately show ?thesis using j(2) m by simp
  qed
qed

lemma bungenTables_parts:
  assumes "bungenTables data = Some (a, b)"
  obtains p g r where "data = p @ ''-t '' @ [apos] @ g @ [apos] @ r" and "apos \<notin> set g"
    and "str_index data (''-t '' @ [apos]) = Some (length p)" and "a = length p + 4" and "b = length p + 4 + length g"
proof -
  let ?sub = "''-t '' @ [apos]"
  from assms obtain i where i: "str_index data ?sub = Some i" "apos \<in> set (drop (i + 4) data)"
    "a = i + 4" "b = i + 4 + length (takeWhile (\<lambda>c. c \<noteq> apos) (drop (i + 4) data))"
    by (auto simp: bungenTables_def Let_def split: option.splits if_splits)
  let ?g = "takeWhile (\<lambda>c. c \<noteq> apos) (drop (i + 4) data)"
  obtain r where r: "dropWhile (\<lambda>c. c \<noteq> apos) (drop (i + 4) data) = apos # r"
  proof -
    have ne: "dropWhile (\<lambda>c. c \<noteq> apos) (drop (i + 4) data) \<noteq> []" using i(2) by (auto simp: dropWhile_eq_Nil_conv)
    then have "hd (dropWhile (\<lambda>c. c \<noteq> apos) (drop (i + 4) data)) = apos" using hd_dropWhile [OF ne] by simp
    with ne show ?thesis using that by (cases "dropWhile (\<lambda>c. c \<noteq> apos) (drop (i + 4) data)") auto
  qed
  then have d: "drop (i + 4) data = ?g @ [apos] @ r" by (metis append_Cons append_Nil takeWhile_dropWhile_id)
  from str_index_Some [OF i(1)] have s: "data = take i data @ ?sub @ drop (i + 4) data" and il: "i + 4 \<le> length data" by (simp_all add: numeral_eq_Suc)
  have "data = take i data @ ''-t '' @ [apos] @ ?g @ [apos] @ r"
    by (rule trans [OF s]) (simp only: d [symmetric] append.assoc)
  moreover have "apos \<notin> set ?g" by (auto dest: set_takeWhileD)
  moreover have "length (take i data) = i" using il by simp
  ultimately show ?thesis using that [of "take i data" ?g r] i by simp
qed

lemma bungenTables_appended:
  assumes "bungenTables data = Some (a, b)" and "apos \<notin> set x"
  shows "bungenTables (take b data @ x @ drop b data) = Some (a, b + length x)"
    and "take (b + length x - a) (drop a (take b data @ x @ drop b data)) = take (b - a) (drop a data) @ x"
proof -
  obtain p g r where d: "data = p @ ''-t '' @ [apos] @ g @ [apos] @ r" and g: "apos \<notin> set g"
    and i: "str_index data (''-t '' @ [apos]) = Some (length p)" and ab: "a = length p + 4" "b = length p + 4 + length g"
    using bungenTables_parts [OF assms(1)] by metis
  let ?n = "p @ ''-t '' @ [apos] @ (g @ x) @ [apos] @ r"
  have t: "take b data = p @ ''-t '' @ [apos] @ g" "drop b data = [apos] @ r"
    unfolding d ab by (simp_all add: numeral_eq_Suc)
  then have n: "take b data @ x @ drop b data = ?n" by simp
  have "str_index ?n (''-t '' @ [apos]) = Some (length p)"
    unfolding n [symmetric] by (rule str_index_take [OF i]) (simp_all add: ab)
  moreover have "takeWhile (\<lambda>c. c \<noteq> apos) ((g @ x) @ apos # r) = g @ x"
    using g assms(2) by (intro takeWhile_append1 takeWhile_tail | subst takeWhile_append2) auto
  ultimately show "bungenTables (take b data @ x @ drop b data) = Some (a, b + length x)"
    unfolding n by (simp add: bungenTables_def ab)
  show "take (b + length x - a) (drop a (take b data @ x @ drop b data)) = take (b - a) (drop a data) @ x"
    unfolding n by (simp add: ab d)
qed

end
