(* ===== verification/Scaffold_Slice.thy ===== *)
theory Scaffold_Slice
  imports Scaffold_Insert Work_File
begin

text \<open>
  \<open>pkg/scaffold/slice.go\<close>, \<open>postgen.go\<close>, \<open>Render\<close> of \<open>vars.go\<close>, and the two commands of
  \<open>cmd/mmw/cmd/new\<close> that compose them. Loading a manifest, generating the files of a template, the
  prompt and the programs of the post-generation steps are not code of this repository: they are the
  fields of \<open>scaffold_env\<close>. A time is its calendar fields in UTC, ordered lexicographically.
\<close>

subsection \<open>Time stamps\<close>

type_synonym time = "nat \<times> nat \<times> nat \<times> nat \<times> nat \<times> nat"

definition leap :: "nat \<Rightarrow> bool" where
  "leap y = (y mod 4 = 0 \<and> (y mod 100 \<noteq> 0 \<or> y mod 400 = 0))"

definition daysIn :: "nat \<Rightarrow> nat \<Rightarrow> nat" where
  "daysIn m y = (if m = 2 then (if leap y then 29 else 28) else if m \<in> set [4, 6, 9, 11] then 30 else 31)"

text \<open>\<open>t.Add(time.Second)\<close>.\<close>

definition add_second :: "time \<Rightarrow> time" where
  "add_second t = (case t of (y, mo, d, h, mi, s) \<Rightarrow>
     if s < 59 then (y, mo, d, h, mi, Suc s)
     else if mi < 59 then (y, mo, d, h, Suc mi, 0)
     else if h < 23 then (y, mo, d, Suc h, 0, 0)
     else if d < daysIn mo y then (y, mo, Suc d, 0, 0, 0)
     else if mo < 12 then (y, Suc mo, 1, 0, 0, 0)
     else (Suc y, 1, 1, 0, 0, 0))"

definition time_ok :: "time \<Rightarrow> bool" where
  "time_ok t = (case t of (y, mo, d, h, mi, s) \<Rightarrow>
     1 \<le> mo \<and> mo \<le> 12 \<and> 1 \<le> d \<and> d \<le> daysIn mo y \<and> h < 24 \<and> mi < 60 \<and> s < 60)"

fun pad :: "nat \<Rightarrow> nat \<Rightarrow> string" where
  "pad 0 v = []"
| "pad (Suc w) v = pad w (v div 10) @ [digit_char (v mod 10)]"

text \<open>\<open>Format\<close> with \<open>stampLayout\<close>, \<open>20060102150405\<close>: the year has at least four digits.\<close>

definition time_format :: "time \<Rightarrow> string" where
  "time_format t = (case t of (y, mo, d, h, mi, s) \<Rightarrow>
     (if y < 10000 then pad 4 y else show_nat y) @ pad 2 mo @ pad 2 d @ pad 2 h @ pad 2 mi @ pad 2 s)"

definition sub_digits :: "nat \<Rightarrow> nat \<Rightarrow> string \<Rightarrow> nat" where
  "sub_digits i n s = digits_val (take n (drop i s))"

text \<open>\<open>time.Parse\<close> of fourteen digits.\<close>

definition time_parse :: "string \<Rightarrow> time option" where
  "time_parse s =
     (let t = (sub_digits 0 4 s, sub_digits 4 2 s, sub_digits 6 2 s, sub_digits 8 2 s, sub_digits 10 2 s, sub_digits 12 2 s)
      in if time_ok t then Some t else None)"

text \<open>\<open>stampRe\<close>: \<open>^(\d{14})(?:\D|$)\<close>.\<close>

definition stampRe :: "string \<Rightarrow> string option" where
  "stampRe name =
     (if 14 \<le> length name \<and> list_all is_digit (take 14 name) \<and> (length name = 14 \<or> \<not> is_digit (name ! 14))
      then Some (take 14 name) else None)"

definition stamp_step :: "time \<Rightarrow> string \<Rightarrow> time" where
  "stamp_step at name =
     (case stampRe name of None \<Rightarrow> at
      | Some m \<Rightarrow> (case time_parse m of None \<Rightarrow> at | Some t \<Rightarrow> (if \<not> t < at then add_second t else at)))"

definition MigrationStamps :: "string list \<Rightarrow> time \<Rightarrow> string \<times> string" where
  "MigrationStamps entries now =
     (let at = foldl stamp_step now entries in (time_format at, time_format (add_second at)))"

subsection \<open>Stamps sort as the times they name\<close>

lemma length_pad [simp]: "length (pad w v) = w"
  by (induction w arbitrary: v) auto

lemma lex_append:
  fixes xs ys us vs :: string
  assumes "length xs = length ys"
  shows "xs @ us < ys @ vs \<longleftrightarrow> xs < ys \<or> (xs = ys \<and> us < vs)"
  using assms by (induction xs ys rule: list_induct2) auto

lemma digit_char_less: "a < 10 \<Longrightarrow> b < 10 \<Longrightarrow> digit_char a < digit_char b \<longleftrightarrow> a < b"
  by (simp add: less_char_def)

lemma digit_char_eq: "a < 10 \<Longrightarrow> b < 10 \<Longrightarrow> digit_char a = digit_char b \<longleftrightarrow> a = b"
  by (metis digit_char_less linorder_less_linear order_less_irrefl)

lemma pad_order:
  "a < 10 ^ w \<Longrightarrow> b < 10 ^ w \<Longrightarrow> (pad w a < pad w b \<longleftrightarrow> a < b) \<and> (pad w a = pad w b \<longleftrightarrow> a = b)"
proof (induction w arbitrary: a b)
  case 0
  then show ?case by simp
next
  case (Suc w)
  then have "a div 10 < 10 ^ w" "b div 10 < 10 ^ w" by (simp_all add: less_mult_imp_div_less mult.commute)
  from Suc.IH [OF this] have ih: "pad w (a div 10) < pad w (b div 10) \<longleftrightarrow> a div 10 < b div 10"
    "pad w (a div 10) = pad w (b div 10) \<longleftrightarrow> a div 10 = b div 10" by simp_all
  have "pad (Suc w) a < pad (Suc w) b \<longleftrightarrow> a div 10 < b div 10 \<or> (a div 10 = b div 10 \<and> a mod 10 < b mod 10)"
    by (simp add: lex_append ih digit_char_less)
  moreover have "pad (Suc w) a = pad (Suc w) b \<longleftrightarrow> a div 10 = b div 10 \<and> a mod 10 = b mod 10"
    by (simp add: ih digit_char_eq)
  moreover have "a < b \<longleftrightarrow> a div 10 < b div 10 \<or> (a div 10 = b div 10 \<and> a mod 10 < b mod 10)"
    using div_mod_decomp [of a 10] div_mod_decomp [of b 10] mod_less_divisor [of 10 a] mod_less_divisor [of 10 b] by linarith
  moreover have "a = b \<longleftrightarrow> a div 10 = b div 10 \<and> a mod 10 = b mod 10"
    by (metis div_mult_mod_eq)
  ultimately show ?case by simp
qed

lemma daysIn_le: "daysIn m y \<le> 31"
  by (simp add: daysIn_def)

definition year :: "time \<Rightarrow> nat" where
  "year t = fst t"

lemma time_ok_bounds:
  assumes "time_ok (y, mo, d, h, mi, s)"
  shows "mo < 100" "d < 100" "h < 100" "mi < 100" "s < 100"
  using assms daysIn_le [of mo y] by (auto simp: time_ok_def)

lemma time_format_less:
  assumes "time_ok t" "time_ok u" "year t < 10000" "year u < 10000" "t < u"
  shows "time_format t < time_format u"
proof -
  obtain y mo d h mi s y' mo' d' h' mi' s' where tu: "t = (y, mo, d, h, mi, s)" "u = (y', mo', d', h', mi', s')"
    by (metis surj_pair)
  note b = time_ok_bounds [OF assms(1) [unfolded tu]] time_ok_bounds [OF assms(2) [unfolded tu]]
  have p4: "pad 4 y < pad 4 y' \<longleftrightarrow> y < y'" "pad 4 y = pad 4 y' \<longleftrightarrow> y = y'"
    using pad_order [of y 4 y'] assms(3,4) by (simp_all add: tu year_def)
  have p2: "(pad 2 a < pad 2 c \<longleftrightarrow> a < c) \<and> (pad 2 a = pad 2 c \<longleftrightarrow> a = c)" if "a < 100" "c < 100" for a c
    using pad_order [of a 2 c] that by simp
  from assms(5) have l: "y < y' \<or> y = y' \<and> (mo < mo' \<or> mo = mo' \<and> (d < d' \<or> d = d' \<and>
      (h < h' \<or> h = h' \<and> (mi < mi' \<or> mi = mi' \<and> s < s'))))"
    by (auto simp: tu less_prod_def)
  have "y < 10000" "y' < 10000" using assms(3,4) by (simp_all add: tu year_def)
  then show ?thesis
    using l b by (simp add: tu time_format_def lex_append p4 p2)
qed

lemma add_second_ok: "time_ok t \<Longrightarrow> time_ok (add_second t)"
  by (cases t) (auto simp: time_ok_def add_second_def daysIn_def)

lemma add_second_later: "time_ok t \<Longrightarrow> t < add_second t"
  by (cases t) (auto simp: time_ok_def add_second_def less_prod_def)

lemma year_add_second: "year (add_second t) \<le> Suc (year t)"
  by (cases t) (auto simp: add_second_def year_def)

lemma time_le_trans: "(a::time) \<le> b \<Longrightarrow> b \<le> c \<Longrightarrow> a \<le> c"
  by (rule order_trans)

text \<open>A stamp that parses is the format of the time it names.\<close>

lemma digits_val_snoc: "digits_val (s @ [c]) = digits_val s * 10 + (of_char c - 48)"
  by (simp add: digits_val_def)

lemma digit_char_of: "is_digit c \<Longrightarrow> digit_char (of_char c - 48) = c"
  by (auto simp: is_digit_def digit_char_def)

lemma digit_small: "is_digit c \<Longrightarrow> (of_char c - 48 :: nat) < 10"
  unfolding is_digit_def by linarith

lemma pad_digits_val: "list_all is_digit s \<Longrightarrow> pad (length s) (digits_val s) = s"
proof (induction s rule: rev_induct)
  case Nil
  show ?case by simp
next
  case (snoc c s)
  then have c: "is_digit c" "list_all is_digit s" by auto
  then have "(of_char c - 48 :: nat) < 10" by (intro digit_small)
  then have "(digits_val s * 10 + (of_char c - 48)) div 10 = digits_val s"
    "(digits_val s * 10 + (of_char c - 48)) mod 10 = (of_char c - 48 :: nat)" by simp_all
  with snoc.IH c show ?case by (simp add: digits_val_snoc digit_char_of)
qed

lemma digits_val_less: "list_all is_digit s \<Longrightarrow> digits_val s < 10 ^ length s"
proof (induction s rule: rev_induct)
  case (snoc c s)
  then have "(of_char c - 48 :: nat) < 10" "digits_val s < 10 ^ length s" by (auto intro: digit_small)
  then show ?case by (simp add: digits_val_snoc)
qed (simp add: digits_val_def)

lemma sub_digits_pad:
  assumes "list_all is_digit s" and "i + n \<le> length s"
  shows "pad n (sub_digits i n s) = take n (drop i s)"
proof -
  have "list_all is_digit (take n (drop i s))" using assms(1) by (auto simp: list_all_iff dest: in_set_takeD in_set_dropD)
  from pad_digits_val [OF this] show ?thesis using assms(2) by (simp add: sub_digits_def)
qed

lemma take_take_drop: "take a s @ take b (drop a s) = take (a + b) s"
  by (simp add: take_add)

lemma time_format_parse:
  assumes "list_all is_digit s" and "length s = 14" and "time_parse s = Some t"
  shows "time_format t = s" and "time_ok t"
proof -
  from assms(3) have t: "t = (sub_digits 0 4 s, sub_digits 4 2 s, sub_digits 6 2 s, sub_digits 8 2 s, sub_digits 10 2 s, sub_digits 12 2 s)"
    and "time_ok t" by (auto simp: time_parse_def Let_def split: if_splits)
  then show "time_ok t" by simp
  have "list_all is_digit (take 4 s)" using assms(1) by (auto simp: list_all_iff dest: in_set_takeD)
  from digits_val_less [OF this] have "sub_digits 0 4 s < 10000" using assms(2) by (simp add: sub_digits_def)
  then have "time_format t = take 4 s @ take 2 (drop 4 s) @ take 2 (drop 6 s) @ take 2 (drop 8 s) @ take 2 (drop 10 s) @ take 2 (drop 12 s)"
    using assms(1,2) by (simp add: t time_format_def sub_digits_pad)
  also have "\<dots> = s" using assms(2)
    by (simp add: append_assoc [symmetric] take_take_drop del: append_assoc)
  finally show "time_format t = s" .
qed

subsection \<open>Stamps follow every stamp in the directory\<close>

definition stamp_time :: "string \<Rightarrow> time option" where
  "stamp_time name = (case stampRe name of None \<Rightarrow> None | Some m \<Rightarrow> time_parse m)"

lemma stamp_time_Some:
  assumes "stamp_time name = Some t"
  shows "time_ok t" and "time_format t = take 14 name"
proof -
  from assms have "list_all is_digit (take 14 name)" "length (take 14 name) = 14" "time_parse (take 14 name) = Some t"
    by (auto simp: stamp_time_def stampRe_def split: if_splits)
  then show "time_ok t" "time_format t = take 14 name" by (auto dest: time_format_parse)
qed

lemma stamp_step_eq:
  "stamp_step at name = (case stamp_time name of None \<Rightarrow> at | Some t \<Rightarrow> (if t < at then at else add_second t))"
  by (simp add: stamp_step_def stamp_time_def split: option.splits)

lemma stamp_step_ge: "time_ok at \<Longrightarrow> at \<le> stamp_step at name \<and> time_ok (stamp_step at name)"
  using add_second_later add_second_ok stamp_time_Some(1)
  by (fastforce simp: stamp_step_eq split: option.splits)

lemma stamp_step_later: "stamp_time name = Some t \<Longrightarrow> t < stamp_step at name"
  using add_second_later stamp_time_Some(1) by (simp add: stamp_step_eq)

lemma stamps_fold:
  assumes "time_ok at"
  shows "at \<le> foldl stamp_step at es" and "time_ok (foldl stamp_step at es)"
    and "\<And>e t. e \<in> set es \<Longrightarrow> stamp_time e = Some t \<Longrightarrow> t < foldl stamp_step at es"
  using assms
proof (induction es arbitrary: at)
  case Nil
  { case 1 then show ?case by simp }
  { case 2 then show ?case by simp }
  { case 3 then show ?case by simp }
next
  case (Cons e es)
  { case 1 then show ?case using Cons.IH(1) [of "stamp_step at e"] stamp_step_ge [of at e] by (auto intro: time_le_trans) }
  { case 2 then show ?case using Cons.IH(2) stamp_step_ge by simp }
  { case (3 e' t)
    then show ?case
      using Cons.IH(1) [of "stamp_step at e"] Cons.IH(3) [of e' t "stamp_step at e"] stamp_step_ge [of at e] stamp_step_later [of e t at]
      by (cases "e' \<in> set es") (auto intro: less_le_trans) }
qed

lemma stamps_fold_year:
  assumes "year at < n" and "\<And>e t. e \<in> set es \<Longrightarrow> stamp_time e = Some t \<Longrightarrow> Suc (year t) < n"
  shows "year (foldl stamp_step at es) < n"
  using assms
proof (induction es arbitrary: at)
  case (Cons e es)
  have "year (stamp_step at e) < n"
    using Cons.prems year_add_second by (fastforce simp: stamp_step_eq split: option.splits intro: le_less_trans)
  then have "year (foldl stamp_step (stamp_step at e) es) < n"
    by (rule Cons.IH) (rule Cons.prems(2), simp_all)
  then show ?case by simp
qed simp

subsection \<open>The module\<close>

record ModuleTraits =
  mt_Name :: string
  mt_ModulePath :: string
  mt_Database :: bool
  mt_Grpc :: bool

definition isDir :: "fsys \<Rightarrow> string \<Rightarrow> bool" where
  "isDir fs path = (fs path = Directory)"

definition DetectModule :: "fsys \<Rightarrow> string \<Rightarrow> string \<Rightarrow> scaffold_err + ModuleTraits" where
  "DetectModule fs repoRoot name =
     (let dir = path_join [repoRoot, ''modules'', name] in
      case os_Stat fs (path_join [dir, name @ ''.go'']) of Some e \<Rightarrow> Inl (ReadFailed name e)
      | None \<Rightarrow> (case os_ReadFile fs (path_join [dir, ''go.mod'']) of Inl e \<Rightarrow> Inl (ReadFailed name e)
         | Inr data \<Rightarrow>
            (let modulePath = module_path data in
             if modulePath = [] then Inl (NoModuleLine name)
             else Inr \<lparr>mt_Name = name, mt_ModulePath = modulePath,
                   mt_Database = isDir fs (path_join [dir, ''internal'', ''infra'', ''persistence'']),
                   mt_Grpc = isDir fs (path_join [dir, ''cmd'', name])\<rparr>)))"

definition ModuleTraits_Apply :: "ModuleTraits \<Rightarrow> vars \<Rightarrow> vars" where
  "ModuleTraits_Apply t vars =
     gm_set ''Grpc'' (ABool (mt_Grpc t)) (gm_set ''Database'' (ABool (mt_Database t))
       (gm_set ''ModulePath'' (AString (mt_ModulePath t)) (gm_set ''Name'' (AString (mt_Name t)) vars)))"

subsection \<open>The environment of the commands\<close>

text \<open>The templates: embedded, or a directory the user gives.\<close>

datatype templateFS = Embedded string | DirFS string

record scaffold_env =
  se_load :: "templateFS \<Rightarrow> string + Manifest"
  se_generate :: "templateFS \<Rightarrow> Manifest \<Rightarrow> string \<Rightarrow> vars \<Rightarrow> fsys \<Rightarrow> string option \<times> fsys"
  se_normalizeKey :: "string \<Rightarrow> string"
  se_pascal :: "string \<Rightarrow> string"
  se_tui :: "Manifest \<Rightarrow> string + vars"
  se_format :: "string \<Rightarrow> string + string"
  se_writeErr :: "string \<Rightarrow> string option"
  se_chmodErr :: "string \<Rightarrow> string option"
  se_readDir :: "fsys \<Rightarrow> string \<Rightarrow> string + (string \<times> bool) list"
  se_now :: time
  se_buildPath :: "string option"
  se_cwd :: "string + string"
  se_run :: runner

text \<open>\<open>os.Chmod(path, 0o755)\<close>.\<close>

definition os_Chmod :: "(string \<Rightarrow> string option) \<Rightarrow> fsys \<Rightarrow> string \<Rightarrow> string + fsys" where
  "os_Chmod chmodErr fs path =
     (case fs path of Missing e \<Rightarrow> Inl e
      | n \<Rightarrow> (case chmodErr path of Some e \<Rightarrow> Inl e
         | None \<Rightarrow> Inr (case n of File data _ \<Rightarrow> fs(path := File data 493) | _ \<Rightarrow> fs)))"

definition Render :: "scaffold_env \<Rightarrow> templateFS \<Rightarrow> string \<Rightarrow> vars \<Rightarrow> fsys \<Rightarrow> scaffold_err option \<times> fsys" where
  "Render env tfs repoRoot vars fs =
     (case se_load env tfs of Inl e \<Rightarrow> (Some (RenderFailed e), fs)
      | Inr m \<Rightarrow> (case se_generate env tfs m repoRoot vars fs of
           (Some e, fs') \<Rightarrow> (Some (RenderFailed e), fs')
         | (None, fs') \<Rightarrow>
            (let probes = path_join [repoRoot, ''modules'', get_string vars ''Name'', ''scripts'', ''arch-probes.sh''] in
             case os_Chmod (se_chmodErr env) fs' probes of
               Inr fs'' \<Rightarrow> (None, fs'')
             | Inl e \<Rightarrow> (if isNotExist e then None else Some (WriteFailed probes e), fs'))))"

subsection \<open>AddSlice\<close>

record SliceReport =
  rp_Unwired :: "Snippet list"
  rp_TableUnlisted :: string

definition err_not_exist :: "scaffold_err \<Rightarrow> bool" where
  "err_not_exist e = (case e of ReadFailed _ t \<Rightarrow> isNotExist t | WriteFailed _ t \<Rightarrow> isNotExist t
     | FormatFailed _ _ \<Rightarrow> False | _ \<Rightarrow> False)"

text \<open>One snippet: a file that does not exist counts as a missing marker.\<close>

definition wire_snippet ::
    "scaffold_env \<Rightarrow> string \<Rightarrow> Snippet list \<times> fsys \<Rightarrow> Snippet \<Rightarrow> (scaffold_err \<times> Snippet list \<times> fsys) + (Snippet list \<times> fsys)" where
  "wire_snippet env moduleDir st s = (case st of (unwired, fs) \<Rightarrow>
     (case InsertBefore (se_format env) (se_writeErr env) fs (path_join [moduleDir, sn_Path s]) (sn_Marker s) (sn_Text s) of
        Inl e \<Rightarrow> (if err_not_exist e then Inr (unwired @ [s], fs) else Inl (e, unwired, fs))
      | Inr (ok, fs') \<Rightarrow> Inr (if ok then unwired else unwired @ [s], fs')))"

definition list_table ::
    "scaffold_env \<Rightarrow> string \<Rightarrow> string \<Rightarrow> SliceReport \<Rightarrow> fsys \<Rightarrow> (scaffold_err option \<times> SliceReport) \<times> fsys" where
  "list_table env moduleDir table report fs =
     (case AppendBungenTable (se_writeErr env) fs (path_join [moduleDir, ''mise.toml'']) table of
        Inl e \<Rightarrow> (if err_not_exist e then (None, report\<lparr>rp_TableUnlisted := table\<rparr>) else (Some e, report), fs)
      | Inr (ok, fs') \<Rightarrow> ((None, if ok then report else report\<lparr>rp_TableUnlisted := table\<rparr>), fs'))"

definition scriptsDir :: "string \<Rightarrow> string" where
  "scriptsDir moduleDir = path_join [moduleDir, ''internal'', ''infra'', ''persistence'', ''migrations'', ''scripts'']"

definition empty_report :: SliceReport where
  "empty_report = \<lparr>rp_Unwired = [], rp_TableUnlisted = []\<rparr>"

definition slice_stamps :: "scaffold_env \<Rightarrow> fsys \<Rightarrow> string \<Rightarrow> string \<times> string" where
  "slice_stamps env fs moduleDir =
     MigrationStamps (case se_readDir env fs (scriptsDir moduleDir) of Inl _ \<Rightarrow> [] | Inr es \<Rightarrow> map fst es) (se_now env)"

definition AddSlice ::
    "scaffold_env \<Rightarrow> templateFS \<Rightarrow> string \<Rightarrow> vars \<Rightarrow> fsys \<Rightarrow> (scaffold_err option \<times> SliceReport) \<times> vars \<times> fsys" where
  "AddSlice env sliceFS repoRoot vars fs =
     (let name = get_string vars ''Name''; entity = get_string vars ''Entity'';
          moduleDir = path_join [repoRoot, ''modules'', name];
          stamps = slice_stamps env fs moduleDir;
          vars' = gm_set ''TimestampSeed'' (AString (snd stamps)) (gm_set ''TimestampCreate'' (AString (fst stamps)) vars) in
      case Render env sliceFS repoRoot vars' fs of
        (Some e, fs1) \<Rightarrow> ((Some e, empty_report), vars', fs1)
      | (None, fs1) \<Rightarrow>
         (case RenderSnippets (se_pascal env) vars' of
            Inl e \<Rightarrow> ((Some e, empty_report), vars', fs1)
          | Inr snippets \<Rightarrow>
             (case foldM (wire_snippet env moduleDir) ([], fs1) snippets of
                Inl (e, unwired, fs2) \<Rightarrow> ((Some e, empty_report\<lparr>rp_Unwired := unwired\<rparr>), vars', fs2)
              | Inr (unwired, fs2) \<Rightarrow>
                 (let report = empty_report\<lparr>rp_Unwired := unwired\<rparr> in
                  if get_string vars' ''Shape'' \<noteq> ShapeGateway
                  then (case list_table env moduleDir (name @ ''.'' @ entity) report fs2 of (r, fs3) \<Rightarrow> (r, vars', fs3))
                  else ((None, report), vars', fs2)))))"

subsection \<open>PostGenerate\<close>

record step =
  st_dir :: string
  st_label :: string
  st_args :: "string list"

definition runStep :: "runner \<Rightarrow> step \<Rightarrow> world \<Rightarrow> string option \<times> world" where
  "runStep run s w = exec_cmd run (st_dir s) (st_args s) w"

text \<open>The steps left, as the error lists them.\<close>

definition left_step :: "step \<Rightarrow> string" where
  "left_step r = [LF] @ ''  - '' @ join '' '' (st_args r) @ '' (in '' @ st_dir r @ '')''"

fun runSteps :: "runner \<Rightarrow> step list \<Rightarrow> world \<Rightarrow> scaffold_err option \<times> world" where
  "runSteps run [] w = (None, w)"
| "runSteps run (s # ss) w =
     (case runStep run s (print_out (arrow @ '' '' @ st_label s @ '' (in '' @ st_dir s @ '')'' @ [LF]) w) of
        (None, w') \<Rightarrow> runSteps run ss w'
      | (Some e, w') \<Rightarrow> (Some (StepFailed (st_label s) e (map left_step ss)), w'))"

definition PostGenerate :: "runner \<Rightarrow> string \<Rightarrow> string \<Rightarrow> world \<Rightarrow> scaffold_err option \<times> world" where
  "PostGenerate run repoRoot name w =
     runSteps run
       [\<lparr>st_dir = repoRoot, st_label = ''mise run buf:generate'', st_args = [''mise'', ''run'', ''buf:generate'']\<rparr>,
        \<lparr>st_dir = path_join [repoRoot, ''modules'', name], st_label = ''go mod tidy'', st_args = [''go'', ''mod'', ''tidy'']\<rparr>,
        \<lparr>st_dir = repoRoot, st_label = ''go work sync'', st_args = [''go'', ''work'', ''sync'']\<rparr>] w"

subsection \<open>The commands\<close>

datatype new_err = Scaffold scaffold_err | BadTemplate string string | NoModuleFound | NoModuleVariable

definition selectTemplateFS :: "fsys \<Rightarrow> string \<Rightarrow> string \<Rightarrow> new_err + templateFS" where
  "selectTemplateFS fs templatePath sub =
     (if templatePath = [] then Inr (Embedded (if sub = ''slice'' then ''slice'' else ''module''))
      else (let dir = path_join [templatePath, sub] in
        case os_Stat fs dir of Some e \<Rightarrow> Inl (BadTemplate dir e)
        | None \<Rightarrow> (if isDir fs dir then Inr (DirFS dir) else Inl (BadTemplate dir ''is not a directory''))))"

definition load_manifest :: "scaffold_env \<Rightarrow> templateFS \<Rightarrow> new_err + Manifest" where
  "load_manifest env tfs = (case se_load env tfs of Inl e \<Rightarrow> Inl (Scaffold (RenderFailed e)) | Inr m \<Rightarrow> Inr m)"

text \<open>\<open>scaffold_call\<close> continues after a scaffold function that may fail.\<close>

definition scaffold_call :: "scaffold_err + 'a \<Rightarrow> ('a \<Rightarrow> new_err option \<times> world) \<Rightarrow> world \<Rightarrow> new_err option \<times> world" where
  "scaffold_call r f w = (case r of Inl e \<Rightarrow> (Some (Scaffold e), w) | Inr x \<Rightarrow> f x)"

definition new_call :: "new_err + 'a \<Rightarrow> ('a \<Rightarrow> new_err option \<times> world) \<Rightarrow> world \<Rightarrow> new_err option \<times> world" where
  "new_call r f w = (case r of Inl e \<Rightarrow> (Some e, w) | Inr x \<Rightarrow> f x)"

declare scaffold_call_def [code_unfold] new_call_def [code_unfold]

definition post_generate :: "scaffold_env \<Rightarrow> string \<Rightarrow> string \<Rightarrow> world \<Rightarrow> new_err option \<times> world" where
  "post_generate env root name w = (case PostGenerate (se_run env) root name w of (e, w') \<Rightarrow> (map_option Scaffold e, w'))"

text \<open>The files of a validated module, in the order \<open>runNewModule\<close> writes them.\<close>

definition write_module :: "scaffold_env \<Rightarrow> string \<Rightarrow> templateFS \<Rightarrow> templateFS \<Rightarrow> vars \<Rightarrow> world \<Rightarrow> new_err option \<times> world" where
  "write_module env root moduleFS sliceFS vars w =
     (let name = get_string vars ''Name'' in
      case Render env moduleFS root vars (w_fs w) of
        (Some e, fs1) \<Rightarrow> (Some (Scaffold e), w\<lparr>w_fs := fs1\<rparr>)
      | (None, fs1) \<Rightarrow>
         (case AddSlice env sliceFS root vars fs1 of
            ((Some e, _), _, fs2) \<Rightarrow> (Some (Scaffold e), w\<lparr>w_fs := fs2\<rparr>)
          | ((None, report), _, fs2) \<Rightarrow>
             scaffold_call (UpdateGoWork (se_writeErr env) fs2 root name)
               (\<lambda>fs3. scaffold_call (UpdateMiseToml (se_writeErr env) fs3 root name (get_bool vars ''Database'') (get_bool vars ''Grpc''))
                 (\<lambda>fs4. post_generate env root name (w\<lparr>w_fs := fs4\<rparr>)) (w\<lparr>w_fs := fs3\<rparr>))
               (w\<lparr>w_fs := fs2\<rparr>)))"

definition runNewModule :: "scaffold_env \<Rightarrow> string \<Rightarrow> string \<Rightarrow> string list \<Rightarrow> world \<Rightarrow> new_err option \<times> world" where
  "runNewModule env root templatePath varFlags w =
     new_call (selectTemplateFS (w_fs w) templatePath ''module'') (\<lambda>moduleFS.
     new_call (selectTemplateFS (w_fs w) templatePath ''slice'') (\<lambda>sliceFS.
     new_call (load_manifest env moduleFS) (\<lambda>moduleM.
     new_call (load_manifest env sliceFS) (\<lambda>sliceM.
     scaffold_call (collectVars (se_normalizeKey env) (se_tui env) (MergeManifests moduleM sliceM) varFlags) (\<lambda>vars.
     scaffold_call (Detect (w_fs w) (se_buildPath env) root) (\<lambda>detected.
       (case Validate (w_fs w) root (Detected_Apply detected (ApplyShapeDefault vars)) of
          (Some e, _) \<Rightarrow> (Some (Scaffold e), w)
        | (None, vars') \<Rightarrow> write_module env root moduleFS sliceFS vars' w)) w) w) w) w) w) w"

text \<open>\<open>askModule\<close>: the prompt offers the modules found.\<close>

definition askModule :: "scaffold_env \<Rightarrow> fsys \<Rightarrow> string \<Rightarrow> Manifest \<Rightarrow> new_err + string" where
  "askModule env fs root m =
     (case listModules fs (se_readDir env fs) root of Inl e \<Rightarrow> Inl (Scaffold e)
      | Inr modules \<Rightarrow>
         (if modules = [] then Inl NoModuleFound
          else (case List.find (\<lambda>v. var_Name v = moduleVar) (m_Variables m) of
             None \<Rightarrow> Inl NoModuleVariable
           | Some v \<Rightarrow> (case se_tui env \<lparr>m_Variables = [v\<lparr>var_Value := AStrings modules\<rparr>]\<rparr> of
                Inl e \<Rightarrow> Inl (Scaffold (PromptCancelled e))
              | Inr vars \<Rightarrow> Inr (get_string vars moduleVar)))))"

definition write_slice :: "scaffold_env \<Rightarrow> string \<Rightarrow> templateFS \<Rightarrow> string \<Rightarrow> vars \<Rightarrow> world \<Rightarrow> new_err option \<times> world" where
  "write_slice env root sliceFS name vars w =
     (case AddSlice env sliceFS root vars (w_fs w) of
        ((Some e, _), _, fs) \<Rightarrow> (Some (Scaffold e), w\<lparr>w_fs := fs\<rparr>)
      | ((None, report), _, fs) \<Rightarrow> post_generate env root name (w\<lparr>w_fs := fs\<rparr>))"

definition runNewEntity ::
    "scaffold_env \<Rightarrow> string \<Rightarrow> string \<Rightarrow> string \<Rightarrow> string \<Rightarrow> string list \<Rightarrow> world \<Rightarrow> new_err option \<times> world" where
  "runNewEntity env root positional moduleFlag templatePath varFlags w =
     scaffold_call (resolveModule (se_normalizeKey env) (se_cwd env) positional moduleFlag varFlags) (\<lambda>(given, sliceFlags).
     new_call (selectTemplateFS (w_fs w) templatePath ''slice'') (\<lambda>sliceFS.
     new_call (load_manifest env sliceFS) (\<lambda>m.
     new_call (if given = [] then askModule env (w_fs w) root m else Inr given) (\<lambda>name.
     scaffold_call (DetectModule (w_fs w) root name) (\<lambda>traits.
     (let m' = narrowShapes (m\<lparr>m_Variables := filter (\<lambda>v. var_Name v \<noteq> moduleVar) (m_Variables m)\<rparr>) (mt_Database traits) in
     scaffold_call (collectVars (se_normalizeKey env) (se_tui env) m' sliceFlags) (\<lambda>vars.
     scaffold_call (Detect (w_fs w) (se_buildPath env) root) (\<lambda>detected.
       (case ValidateSlice (w_fs w) root (ApplyShapeDefault (ModuleTraits_Apply traits (Detected_Apply detected vars))) of
          (Some e, _) \<Rightarrow> (Some (Scaffold e), w)
        | (None, vars') \<Rightarrow> write_slice env root sliceFS name vars' w)) w) w)) w) w) w) w) w"

end
