(* ===== verification/Scaffold_Messages.thy ===== *)
theory Scaffold_Messages
  imports Scaffold_Slice
begin

text \<open>
  What \<open>mmw new module\<close> and \<open>mmw new entity\<close> tell the user after the files are written
  (\<open>cmd/mmw/cmd/new\<close>): the steps left to do, the snippets that could not be wired and the table to create.
  A message is one call of a printing function; colours are left out. \<open>upper\<close> is \<open>strings.ToUpper\<close>.
\<close>

definition dq :: string where
  "dq = [CHR 0x22]"

definition check_mark :: string where
  "check_mark = [CHR 0xE2, CHR 0x9C, CHR 0x93]"

definition printTableNote :: "string \<Rightarrow> vars \<Rightarrow> string list" where
  "printTableNote name vars =
     (if get_string vars ''Shape'' = ''gateway'' \<or> get_bool vars ''CreateTable'' then []
      else [''Note: create-table=false; the module expects table '' @ name @ ''.'' @ get_string vars ''Entity'' @
        '' with columns id BIGSERIAL PRIMARY KEY, '' @
        ''label VARCHAR(200) NOT NULL CHECK (length(label) > 0), created_at/updated_at TIMESTAMPTZ NOT NULL DEFAULT now(); '' @
        ''test:integration, the health check and boa:generate need it.'' @ [LF]])"

definition unwired_note :: "Snippet \<Rightarrow> string" where
  "unwired_note s = ''Not wired: add to '' @ sn_Path s @ '' before '' @ sn_Marker s @ '':'' @ [LF] @ sn_Text s @ [LF]"

definition unlisted_note :: "string \<Rightarrow> string" where
  "unlisted_note table = ''Not listed: add -t '' @ table @ '' to the bungen list in mise.toml'' @ [LF]"

definition printSliceNext :: "(string \<Rightarrow> string) \<Rightarrow> string \<Rightarrow> vars \<Rightarrow> SliceReport \<Rightarrow> string list" where
  "printSliceNext upper name vars report =
     (let entity = get_string vars ''Entity'' in
      map unwired_note (rp_Unwired report) @
      (if rp_TableUnlisted report \<noteq> [] then [unlisted_note (rp_TableUnlisted report)] else []) @
      (if get_string vars ''Shape'' \<noteq> ShapeGateway
       then [''  - cd modules/'' @ name @ '' && mise run db:migrate:up && mise run boa:generate   (compiles only after)'' @ [LF]]
       else if get_bool vars ''Database''
       then [''  - cd modules/'' @ name @ '' && mise run db:migrate:up   (outbox table)'' @ [LF]] else []) @
      [''    other modules receive '' @ name @ ''Module.'' @ upper (take 1 entity) @ drop 1 entity @ ''Service() (the contracts/go/application/'' @ name @ '' interface)'' @ [LF],
       ''  - cd modules/'' @ name @ '' && mise run arch:check && mise run lint && mise run test:unit'' @ [LF]])"

definition infra_fields :: "vars \<Rightarrow> string" where
  "infra_fields vars =
     (if get_bool vars ''Database'' then ''DBPool: dbPool, '' else []) @ ''EventBus: eventBus, Subscriber: rawBus,'' @
     (if get_bool vars ''Grpc'' then [LF] @ ''            AuthSvc: authModule.PrivateService(),'' else [])"

definition printNextSteps :: "(string \<Rightarrow> string) \<Rightarrow> string \<Rightarrow> vars \<Rightarrow> SliceReport \<Rightarrow> string list" where
  "printNextSteps upper name vars report =
     [[LF] @ check_mark @ '' Module '' @ dq @ name @ dq @ '' generated in modules/'' @ name @ ''/'' @ [LF],
      ''Next:'' @ [LF],
      ''  - mise run stow                              (scripts/common, .golangci.yml)'' @ [LF],
      ''  - add to initModules in the application'' @ [CHR 0x27] @ ''s main.go:'' @ [LF],
      ''        '' @ name @ ''Module, err := '' @ name @ ''.New(ctx, '' @ name @ ''.Infrastructure{'' @ [LF] @
      ''            '' @ infra_fields vars @ [LF] @
      ''            Logger: logger.With('' @ dq @ ''module'' @ dq @ '', '' @ name @ ''.ModuleName),'' @ [LF] @
      ''        })'' @ [LF] @
      ''        if err != nil { return nil, err }'' @ [LF],
      ''    and append it to the returned slice, after core.'' @ [LF]] @
     printSliceNext upper name vars report"

text \<open>The messages after the files of a slice or of a module are written; \<open>postErr\<close> is the text of the error
  of the steps run afterwards.\<close>

definition slice_messages :: "(string \<Rightarrow> string) \<Rightarrow> string option \<Rightarrow> string \<Rightarrow> vars \<Rightarrow> SliceReport \<Rightarrow> string list" where
  "slice_messages upper postErr name vars report =
     (case postErr of Some e \<Rightarrow> [e @ [LF]]
      | None \<Rightarrow> [[LF] @ check_mark @ '' Slice '' @ dq @ get_string vars ''Entity'' @ dq @ '' added to modules/'' @ name @ ''/'' @ [LF]]) @
     [''Next:'' @ [LF]] @ printSliceNext upper name vars report @ printTableNote name vars"

definition module_messages :: "(string \<Rightarrow> string) \<Rightarrow> string option \<Rightarrow> string \<Rightarrow> vars \<Rightarrow> SliceReport \<Rightarrow> string list" where
  "module_messages upper postErr name vars report =
     (case postErr of Some e \<Rightarrow> [e @ [LF]] | None \<Rightarrow> []) @ printNextSteps upper name vars report @ printTableNote name vars"

subsection \<open>Nothing is left out\<close>

text \<open>Wiring the snippets: one that was not inserted is in the report.\<close>

lemma wire_all:
  assumes "foldM (wire_snippet env moduleDir) (u, fs) xs = Inr (u', fs')"
  shows "set u \<subseteq> set u' \<and> (\<forall>s\<in>set xs. s \<in> set u' \<or>
    (\<exists>fs1 fs2. InsertBefore (se_format env) (se_writeErr env) fs1 (path_join [moduleDir, sn_Path s]) (sn_Marker s) (sn_Text s) = Inr (True, fs2)))"
  using assms
proof (induction xs arbitrary: u fs)
  case (Cons x xs)
  then obtain u1 fs1 where w: "wire_snippet env moduleDir (u, fs) x = Inr (u1, fs1)" "foldM (wire_snippet env moduleDir) (u1, fs1) xs = Inr (u', fs')"
    by (auto split: sum.splits)
  have "set u \<subseteq> set u1 \<and> (x \<in> set u1 \<or>
      (\<exists>fs1 fs2. InsertBefore (se_format env) (se_writeErr env) fs1 (path_join [moduleDir, sn_Path x]) (sn_Marker x) (sn_Text x) = Inr (True, fs2)))"
    using w(1) by (auto simp: wire_snippet_def split: sum.splits if_splits)
  with Cons.IH [OF w(2)] show ?case by fastforce
qed simp

lemma list_table_unwired: "list_table env moduleDir table report fs = ((e, report'), fs') \<Longrightarrow> rp_Unwired report' = rp_Unwired report"
  by (auto simp: list_table_def split: sum.splits if_splits)

lemma list_table_listed:
  assumes "list_table env moduleDir table report fs = ((None, report'), fs')"
  shows "rp_TableUnlisted report' = table \<or> AppendBungenTable (se_writeErr env) fs (path_join [moduleDir, ''mise.toml'']) table = Inr (True, fs')"
  using assms by (auto simp: list_table_def split: sum.splits if_splits)

lemma AddSlice_report:
  assumes "AddSlice env sliceFS root vars fs = ((None, report), vars', fs')"
  shows "\<exists>snippets fs1 fs2. RenderSnippets (se_pascal env) vars' = Inr snippets \<and>
    foldM (wire_snippet env (path_join [root, ''modules'', get_string vars ''Name''])) ([], fs1) snippets = Inr (rp_Unwired report, fs2) \<and>
    (get_string vars' ''Shape'' = ShapeGateway \<or>
     rp_TableUnlisted report = get_string vars ''Name'' @ ''.'' @ get_string vars ''Entity'' \<or>
     AppendBungenTable (se_writeErr env) fs2 (path_join [path_join [root, ''modules'', get_string vars ''Name''], ''mise.toml''])
       (get_string vars ''Name'' @ ''.'' @ get_string vars ''Entity'') = Inr (True, fs'))"
proof -
  let ?dir = "path_join [root, ''modules'', get_string vars ''Name'']" and ?table = "get_string vars ''Name'' @ ''.'' @ get_string vars ''Entity''"
  let ?v = "gm_set ''TimestampSeed'' (AString (snd (slice_stamps env fs ?dir))) (gm_set ''TimestampCreate'' (AString (fst (slice_stamps env fs ?dir))) vars)"
  have v: "?v = vars'" using assms by (auto simp: AddSlice_def Let_def split: sum.splits prod.splits option.splits if_splits)
  note run = assms [unfolded AddSlice_def Let_def v]
  obtain fs1 where "Render env sliceFS root vars' fs = (None, fs1)" using run by (auto split: prod.splits option.splits)
  note run = run [unfolded this prod.case option.case]
  obtain snippets where sn: "RenderSnippets (se_pascal env) vars' = Inr snippets" using run by (auto split: sum.splits)
  note run = run [unfolded this sum.case]
  obtain u fs2 where wired: "foldM (wire_snippet env ?dir) ([], fs1) snippets = Inr (u, fs2)" using run by (auto split: sum.splits prod.splits)
  note run = run [unfolded this sum.case prod.case]
  show ?thesis
  proof (cases "get_string vars' ''Shape'' = ShapeGateway")
    case True
    with run have "report = empty_report\<lparr>rp_Unwired := u\<rparr>" by simp
    with True sn wired show ?thesis by (intro exI [of _ snippets] exI [of _ fs1] exI [of _ fs2]) simp
  next
    case False
    with run have l: "list_table env ?dir ?table (empty_report\<lparr>rp_Unwired := u\<rparr>) fs2 = ((None, report), fs')"
      by (auto split: prod.splits)
    from list_table_unwired [OF l] list_table_listed [OF l] sn wired show ?thesis
      by (intro exI [of _ snippets] exI [of _ fs1] exI [of _ fs2]) auto
  qed
qed

end
