(* ===== verification/Props_Scaffold.thy ===== *)
theory Props_Scaffold
  imports Scaffold_Messages Outbox_Relay
begin

text \<open>
  Properties of the scaffold and of the workspace commands: what an accepted module and slice are,
  that the edits of the workspace files are complete and may be run again, that migration stamps
  grow, and that nothing is written before validation.
\<close>

subsection \<open>The commands of new\<close>

lemma scaffold_call_world:
  "scaffold_call r f w = (err, w') \<Longrightarrow> w' \<noteq> w \<Longrightarrow> \<exists>x. r = Inr x \<and> f x = (err, w')"
  by (auto simp: scaffold_call_def split: sum.splits)

lemma new_call_world:
  "new_call r f w = (err, w') \<Longrightarrow> w' \<noteq> w \<Longrightarrow> \<exists>x. r = Inr x \<and> f x = (err, w')"
  by (auto simp: new_call_def split: sum.splits)

lemma runNewModule_validated:
  assumes "runNewModule env root tp flags w = (err, w')" and "w' \<noteq> w"
  shows "\<exists>moduleFS sliceFS vars vars'. Validate (w_fs w) root vars = (None, vars') \<and>
     write_module env root moduleFS sliceFS vars' w = (err, w')"
  using assms
  by (auto simp: runNewModule_def split: prod.splits option.splits dest!: new_call_world scaffold_call_world) blast

lemma runNewEntity_validated:
  assumes "runNewEntity env root pos flag tp flags w = (err, w')" and "w' \<noteq> w"
  shows "\<exists>sliceFS name vars vars'. ValidateSlice (w_fs w) root vars = (None, vars') \<and>
     write_slice env root sliceFS name vars' w = (err, w')"
  using assms
  by (auto simp: runNewEntity_def Let_def split: prod.splits option.splits dest!: new_call_world scaffold_call_world) blast+



lemma work_files_differ: "path_join [root, ''go.work''] \<noteq> path_join [root, ''mise.toml'']"
  using path_join_inject [of "''go.work''" "''mise.toml''" root] by (auto simp: path_name_def slash_def)

text \<open>After both edits the two files are up to date.\<close>

lemma both_updated:
  assumes "UpdateGoWork writeErr fs root name = Inr a" and "UpdateMiseToml writeErr a root name database grpc = Inr b"
  shows "UpdateGoWork writeErr b root name = Inr b" and "UpdateMiseToml writeErr b root name database grpc = Inr b"
proof -
  show "UpdateMiseToml writeErr b root name database grpc = Inr b" by (rule mise.stable [OF assms(2)])
  have "b (path_join [root, ''go.work'']) = a (path_join [root, ''go.work''])"
    by (rule mise.frame [OF assms(2) work_files_differ])
  with assms(1) show "UpdateGoWork writeErr b root name = Inr b" by (rule gowork.stays_done)
qed


text \<open>Claim C33. \<open>mmw new module\<close> writes a file or runs a program only with variables that passed
  validation: the module name and the entity are single lower-case words that are neither Go keywords
  nor reserved, the shape is one the module's database allows, and none of the module's, the proto's
  or the slice's paths existed.\<close>

theorem new_module_validated:
  assumes "runNewModule env root templatePath flags w = (err, w')" and "w' \<noteq> w"
  shows "\<exists>moduleFS sliceFS vars. write_module env root moduleFS sliceFS (ApplyShapeDefault vars) w = (err, w') \<and>
     name_ok (get_string vars ''Name'') \<and> entity_ok (get_string vars ''Entity'') \<and>
     get_string (ApplyShapeDefault vars) ''Shape'' \<in> set (AllowedShapes (get_bool vars ''Database'')) \<and>
     list_all (\<lambda>rel. \<not> exists_path (w_fs w) (path_join [root, rel]))
       (module_paths (get_string vars ''Name'') @ slice_paths (get_string vars ''Name'') (get_string vars ''Entity''))"
proof -
  obtain moduleFS sliceFS vars vars' where v: "Validate (w_fs w) root vars = (None, vars')"
    and wr: "write_module env root moduleFS sliceFS vars' w = (err, w')"
    using runNewModule_validated [OF assms] by blast
  from v have "vars' = ApplyShapeDefault vars" by (simp add: Validate_ok_iff ValidateSlice_ok_iff)
  with v wr show ?thesis
    by (intro exI [of _ moduleFS] exI [of _ sliceFS] exI [of _ vars]) (simp add: Validate_ok_iff ValidateSlice_ok_iff)
qed


text \<open>A run on a small repository: the templates have a name, an entity and a database flag, and
  generate nothing.\<close>

definition ex_repo :: fsys where
  "ex_repo = (\<lambda>_. Missing enoent)(''r/go.work'' := File (work_text [''go 1.25''] [CHR 0x09 # ''./modules/core''] [[]]) 420,
     ''r/mise.toml'' := File [] 420, ''r/contracts/go.mod'' := File (''module a.b/c/contracts'' @ [LF]) 420)"

definition ex_env :: scaffold_env where
  "ex_env = \<lparr>se_load = (\<lambda>t. Inr \<lparr>m_Variables =
        [\<lparr>var_Name = ''Name'', var_KindBool = False, var_Value = AString [], var_Required = True\<rparr>,
         \<lparr>var_Name = ''Entity'', var_KindBool = False, var_Value = AString [], var_Required = True\<rparr>,
         \<lparr>var_Name = ''Database'', var_KindBool = True, var_Value = ABool True, var_Required = False\<rparr>]\<rparr>),
     se_generate = (\<lambda>t m r v fs. (None, fs)), se_normalizeKey = (\<lambda>k. k), se_pascal = (\<lambda>s. s), se_tui = (\<lambda>m. Inl ''no terminal''),
     se_format = Inr, se_writeErr = (\<lambda>_. None), se_chmodErr = (\<lambda>_. None), se_readDir = (\<lambda>fs d. Inl enoent),
     se_now = (2026, 2, 28, 23, 59, 59), se_buildPath = None, se_cwd = Inr ''/r'', se_run = (\<lambda>d a fs. (None, fs))\<rparr>"

definition ex_new :: "new_err option \<times> world" where
  "ex_new = runNewModule ex_env ''r'' [] [''Name=billing'', ''Entity=invoice''] \<lparr>w_fs = ex_repo, w_log = []\<rparr>"

lemma ex_new_ok: "(case ex_new of (e, w) \<Rightarrow> e = None \<and> w_log w \<noteq> [])"
  by code_simp

lemma ex_new_runs: "runNewModule ex_env ''r'' [] [''Name=billing'', ''Entity=invoice''] \<lparr>w_fs = ex_repo, w_log = []\<rparr> = (None, snd ex_new)"
  "snd ex_new \<noteq> \<lparr>w_fs = ex_repo, w_log = []\<rparr>"
proof -
  obtain w where w: "ex_new = (None, w)" "w_log w \<noteq> []" using ex_new_ok by (auto split: prod.splits)
  then show "runNewModule ex_env ''r'' [] [''Name=billing'', ''Entity=invoice''] \<lparr>w_fs = ex_repo, w_log = []\<rparr> = (None, snd ex_new)"
    by (simp add: ex_new_def)
  show "snd ex_new \<noteq> \<lparr>w_fs = ex_repo, w_log = []\<rparr>" unfolding w(1) using w(2) by auto
qed

theorem new_module_validated_witness:
  "\<exists>moduleFS sliceFS vars. write_module ex_env ''r'' moduleFS sliceFS (ApplyShapeDefault vars) \<lparr>w_fs = ex_repo, w_log = []\<rparr> = (None, snd ex_new) \<and>
     name_ok (get_string vars ''Name'') \<and> entity_ok (get_string vars ''Entity'')"
  using new_module_validated [OF ex_new_runs] by blast





subsection \<open>The workspace files\<close>

lemma UpdateGoWork_entry:
  assumes "identRe name" and "length name < 65000"
    and "os_ReadFile fs (path_join [root, ''go.work'']) = Inr (work_text pre block post)"
    and "work_wf pre block post"
    and "list_all (\<lambda>l. \<not> suffix (work_entry name) l) (split_on LF (work_text pre block post))"
    and "UpdateGoWork writeErr fs root name = Inr fs'"
  shows "os_ReadFile fs' (path_join [root, ''go.work'']) = Inr (work_text pre (block @ [work_entry name]) post)"
    and "workModules fs' root =
       Inr (modules_outside pre @ modules_inside block @ [''modules/'' @ name] @ modules_outside post)"
    and "work_scan (work_text pre block post) = modules_outside pre @ modules_inside block @ modules_outside post"
proof -
  have "LF \<notin> set (work_entry name)" using identRe_simps(2) [OF assms(1)] by (simp add: work_entry_def LF_def)
  then have "\<not> contains (work_text pre block post @ [LF]) (work_entry name @ [LF])"
    using assms(5) by (simp add: contains_line_end list_ex_iff list_all_iff)
  then have u: "UpdateGoWork_text (work_text pre block post) name = Inr (Some (work_text pre (block @ [work_entry name]) post))"
    by (rule UpdateGoWork_text_fresh [OF assms(4)])
  then show r: "os_ReadFile fs' (path_join [root, ''go.work'']) = Inr (work_text pre (block @ [work_entry name]) post)"
    using assms(3,6) by (auto simp: UpdateGoWork_def os_WriteFile_def Let_def split: option.splits)
  have wf: "work_wf pre (block @ [work_entry name]) post" by (rule work_wf_entry [OF assms(1,2,4)])
  have "modules_inside (block @ [work_entry name]) = modules_inside block @ [''modules/'' @ name]"
    using assms(4) by (intro modules_inside_entry [OF assms(1)]) (auto simp: work_wf_def list_all_iff)
  then show "workModules fs' root = Inr (modules_outside pre @ modules_inside block @ [''modules/'' @ name] @ modules_outside post)"
    using r work_scan_text [OF wf] by (simp add: workModules_def)
  show "work_scan (work_text pre block post) = modules_outside pre @ modules_inside block @ modules_outside post"
    by (rule work_scan_text(1) [OF assms(4)])
qed

text \<open>Claim C36. Adding a module to a \<open>go.work\<close> that does not list it inserts one line at the end of
  the use block and changes nothing else; the commands that read the file then find the module after
  those of the block and keep the order of all others.\<close>

theorem UpdateGoWork_lists:
  assumes "identRe name" and "length name < 65000"
    and "os_ReadFile fs (path_join [root, ''go.work'']) = Inr (work_text pre block post)"
    and "work_wf pre block post"
    and "list_all (\<lambda>l. \<not> suffix (work_entry name) l) (split_on LF (work_text pre block post))"
    and "UpdateGoWork writeErr fs root name = Inr fs'"
  shows "os_ReadFile fs' (path_join [root, ''go.work'']) = Inr (work_text pre (block @ [work_entry name]) post) \<and>
     workModules fs' root = Inr (modules_outside pre @ modules_inside block @ [''modules/'' @ name] @ modules_outside post) \<and>
     work_scan (work_text pre block post) = modules_outside pre @ modules_inside block @ modules_outside post"
  using UpdateGoWork_entry [OF assms] by blast

definition ex_work :: string where
  "ex_work = work_text [''go 1.25'', []] [CHR 0x09 # ''./modules/core''] [[]]"

definition ex_fs :: fsys where
  "ex_fs = (\<lambda>_. Missing enoent)(''r/go.work'' := File ex_work 420)"

theorem UpdateGoWork_lists_witness:
  "\<exists>fs'. UpdateGoWork (\<lambda>_. None) ex_fs ''r'' ''billing'' = Inr fs' \<and> workModules fs' ''r'' = Inr [''modules/core'', ''modules/billing'']"
proof -
  have p: "path_join [''r'', ''go.work''] = ''r/go.work''" by code_simp
  let ?t = "work_text [''go 1.25'', []] [CHR 0x09 # ''./modules/core'', work_entry ''billing''] [[]]"
  let ?fs = "ex_fs(''r/go.work'' := File ?t 420)"
  have t: "UpdateGoWork_text ex_work ''billing'' = Inr (Some ?t)" by code_simp
  have r: "os_ReadFile ex_fs ''r/go.work'' = Inr ex_work" "node_mode (ex_fs ''r/go.work'') = 420"
    by (simp_all add: ex_fs_def node_mode_def)
  have u: "UpdateGoWork (\<lambda>_. None) ex_fs ''r'' ''billing'' = Inr ?fs"
    "os_ReadFile ex_fs (path_join [''r'', ''go.work'']) = Inr (work_text [''go 1.25'', []] [CHR 0x09 # ''./modules/core''] [[]])"
    using t r by (simp_all add: UpdateGoWork_def p os_WriteFile_def) (simp add: ex_work_def)
  have h: "identRe ''billing''" "work_wf [''go 1.25'', []] [CHR 0x09 # ''./modules/core''] [[]]"
    "list_all (\<lambda>l. \<not> suffix (work_entry ''billing'') l) (split_on LF (work_text [''go 1.25'', []] [CHR 0x09 # ''./modules/core''] [[]]))"
    "modules_outside [''go 1.25'', []] = []" "modules_inside [CHR 0x09 # ''./modules/core''] = [''modules/core'']" "modules_outside [[]] = []"
    by code_simp+
  have "workModules ?fs ''r'' = Inr [''modules/core'', ''modules/billing'']"
    using UpdateGoWork_lists [OF h(1) _ u(2) h(2,3) u(1)] by (simp add: h)
  with u(1) show ?thesis by blast
qed

text \<open>The two workspace files may be updated again: after \<open>UpdateGoWork\<close> and
  \<open>UpdateMiseToml\<close> have run for a module, running both once more changes no file.\<close>

theorem workspace_updates_idempotent:
  assumes "UpdateGoWork writeErr fs root name = Inr a" and "UpdateMiseToml writeErr a root name database grpc = Inr b"
  shows "UpdateGoWork writeErr b root name = Inr b \<and> UpdateMiseToml writeErr b root name database grpc = Inr b"
  using both_updated [OF assms] by simp

text \<open>\<open>workspace tidy\<close> runs \<open>go mod tidy\<close> in the modules of \<open>go.work\<close> in declaration
  order, then \<open>go work sync\<close>; it stops at the first failure, and returns without error only when the
  whole plan ran.\<close>

theorem tidy_runs_plan:
  assumes "workModules (w_fs w) root = Inr modules" and "tidy_cmd run root w = (err, w')"
  shows "\<exists>n. 0 < n \<and> n \<le> Suc (length modules) \<and>
     ran (w_log w') = ran (w_log w) @ take n (tidy_plan root modules) \<and>
     (err = None \<longrightarrow> n = Suc (length modules))"
  using assms by (intro tidy_modules_ran [of run root modules w err w']) (simp add: tidy_cmd_def)

theorem tidy_runs_plan_witness:
  "\<exists>n err w'. tidy_cmd (\<lambda>d a fs. (if d = ''r/modules/a'' then Some ''exit status 1'' else None, fs)) ''r''
       \<lparr>w_fs = (\<lambda>_. Missing enoent)(''r/go.work'' := File (work_text [] [''./core'', ''./modules/a'', ''./modules/b''] []) 420), w_log = []\<rparr> = (err, w') \<and>
     ran (w_log w') = take n (tidy_plan ''r'' [''core'', ''modules/a'', ''modules/b''])"
proof -
  let ?w = "\<lparr>w_fs = (\<lambda>_. Missing enoent)(''r/go.work'' := File (work_text [] [''./core'', ''./modules/a'', ''./modules/b''] []) 420), w_log = []\<rparr>"
  let ?run = "\<lambda>d a fs. (if d = ''r/modules/a'' then Some ''exit status 1'' else None, fs)"
  have "workModules (w_fs ?w) ''r'' = Inr [''core'', ''modules/a'', ''modules/b'']" by code_simp
  moreover obtain err w' where t: "tidy_cmd ?run ''r'' ?w = (err, w')" by fastforce
  ultimately obtain n where "ran (w_log w') = take n (tidy_plan ''r'' [''core'', ''modules/a'', ''modules/b''])"
    using tidy_runs_plan [of ?w "''r''" "[''core'', ''modules/a'', ''modules/b'']" ?run err w'] by auto
  with t show ?thesis by blast
qed

theorem workspace_updates_idempotent_witness:
  "\<exists>a b. UpdateGoWork (\<lambda>_. None) ex_repo ''r'' ''billing'' = Inr a \<and> UpdateMiseToml (\<lambda>_. None) a ''r'' ''billing'' True False = Inr b \<and>
     UpdateGoWork (\<lambda>_. None) b ''r'' ''billing'' = Inr b"
proof -
  have ok: "\<not> isl (UpdateGoWork (\<lambda>_. None) ex_repo ''r'' ''billing'')"
    "\<not> isl (UpdateMiseToml (\<lambda>_. None) (projr (UpdateGoWork (\<lambda>_. None) ex_repo ''r'' ''billing'')) ''r'' ''billing'' True False)"
    by code_simp+
  then obtain a b where "UpdateGoWork (\<lambda>_. None) ex_repo ''r'' ''billing'' = Inr a" "UpdateMiseToml (\<lambda>_. None) a ''r'' ''billing'' True False = Inr b"
    by (metis sum.collapse(2))
  with workspace_updates_idempotent [OF this] show ?thesis by blast
qed

subsection \<open>The files of a slice\<close>

lemma MigrationStamps_order:
  assumes "time_ok now" and "year now < 9998"
    and "list_all (\<lambda>e. case stamp_time e of None \<Rightarrow> True | Some t \<Rightarrow> year t < 9997) entries"
    and "MigrationStamps entries now = (create, seed)"
  shows "e \<in> set entries \<Longrightarrow> stamp_time e = Some t \<Longrightarrow> take 14 e < create"
    and "create < seed" and "time_format now \<le> create"
proof -
  let ?at = "foldl stamp_step now entries"
  have before: "year t < 9997" if "e \<in> set entries" "stamp_time e = Some t" for e t
    using assms(3) that by (fastforce simp: list_all_iff)
  from assms(4) have c: "create = time_format ?at" "seed = time_format (add_second ?at)"
    by (auto simp: MigrationStamps_def Let_def)
  have ok: "time_ok ?at" by (rule stamps_fold(2) [OF assms(1)])
  have y: "year ?at < 9998" using assms(2) before by (intro stamps_fold_year) fastforce+
  then have y': "year (add_second ?at) < 10000" using year_add_second [of ?at] by linarith
  show "create < seed"
    unfolding c using ok y y' by (intro time_format_less) (auto intro: add_second_ok add_second_later)
  show "time_format now \<le> create"
    using stamps_fold(1) [OF assms(1), of entries] time_format_less [OF assms(1) ok] assms(2) y c
    by (cases "now = ?at") (auto simp: order_le_less)
  show "take 14 e < create" if "e \<in> set entries" "stamp_time e = Some t"
  proof -
    have "time_format t < time_format ?at"
      using stamp_time_Some(1) [OF that(2)] ok y before [OF that] stamps_fold(3) [OF assms(1) that]
      by (intro time_format_less) auto
    with c stamp_time_Some(2) [OF that(2)] show ?thesis by simp
  qed
qed

text \<open>Claim C37. The stamps of a new slice's migrations sort after every stamp the directory holds:
  the create migration's stamp is a later string than the stamp of every migration there (of a date
  before the year 9998), and the seed migration's is later than the create migration's.\<close>

theorem MigrationStamps_later:
  assumes "time_ok now" and "year now < 9998"
    and "list_all (\<lambda>e. case stamp_time e of None \<Rightarrow> True | Some t \<Rightarrow> year t < 9997) entries"
    and "MigrationStamps entries now = (create, seed)"
  shows "(\<forall>e \<in> set entries. stamp_time e \<noteq> None \<longrightarrow> take 14 e < create) \<and> create < seed \<and> time_format now \<le> create"
  using MigrationStamps_order [OF assms] by auto

theorem MigrationStamps_later_witness:
  "take 14 ''20280229235959_create.sql'' < fst (MigrationStamps [''20280229235959_create.sql'', ''readme''] (2026, 1, 1, 0, 0, 0)) \<and>
   MigrationStamps [''20280229235959_create.sql'', ''readme''] (2026, 1, 1, 0, 0, 0) = (''20280301000000'', ''20280301000001'')"
proof -
  have m: "MigrationStamps [''20280229235959_create.sql'', ''readme''] (2026, 1, 1, 0, 0, 0) = (''20280301000000'', ''20280301000001'')"
    by code_simp
  have t: "stamp_time ''20280229235959_create.sql'' = Some (2028, 2, 29, 23, 59, 59)" "stamp_time ''readme'' = None"
    "time_ok (2026, 1, 1, 0, 0, 0)" by code_simp+
  have "list_all (\<lambda>e. case stamp_time e of None \<Rightarrow> True | Some t \<Rightarrow> year t < 9997) [''20280229235959_create.sql'', ''readme'']"
    unfolding list.pred_inject t by (simp add: year_def)
  from MigrationStamps_later [OF t(3) _ this m] t(1)
  have "take 14 ''20280229235959_create.sql'' < ''20280301000000''" by (simp add: year_def del: take_Suc_Cons take_Cons_numeral)
  with m show ?thesis by simp
qed

text \<open>Claim C38. \<open>InsertBefore\<close> puts the snippet's lines, indented like the marker's line, directly
  before the first line with the marker and keeps every line of the file; run again on the file it
  wrote it finds its work done. A Go file is written as gofmt formats it: the theorem takes a
  formatting that keeps the marker and the snippet's first line, up to white space.\<close>

theorem InsertBefore_once:
  assumes "os_ReadFile fs path = Inr data" and "insert_snippet data marker snippet = Inserted out"
    and "(if hasSuffix path ''.go'' then format out else Inr out) = Inr out'"
    and "list_ex (\<lambda>l. contains l marker) (split_on LF out) \<Longrightarrow> list_ex (\<lambda>l. contains l marker) (split_on LF out')"
    and "list_ex (\<lambda>l. squeeze l = squeeze (hd (split_on LF snippet))) (split_on LF out) \<Longrightarrow>
       list_ex (\<lambda>l. squeeze l = squeeze (hd (split_on LF snippet))) (split_on LF out')"
    and "writeErr path = None"
  shows "\<exists>at fs'. at < length (split_on LF data) \<and> contains (split_on LF data ! at) marker \<and>
     list_all (\<lambda>l. \<not> contains l marker) (take at (split_on LF data)) \<and>
     split_on LF out = take at (split_on LF data) @
       map (\<lambda>l. line_indent (split_on LF data ! at) @ l) (split_on LF snippet) @ drop at (split_on LF data) \<and>
     InsertBefore format writeErr fs path marker snippet = Inr (True, fs') \<and>
     fs' = fs(path := File out' (node_mode (fs path))) \<and>
     InsertBefore format writeErr fs' path marker snippet = Inr (True, fs')"
proof -
  let ?fs = "fs(path := File out' (node_mode (fs path)))"
  obtain at where at: "index_where (\<lambda>l. contains l marker) (split_on LF data) = Some at"
    "split_on LF out = take at (split_on LF data) @
       map (\<lambda>l. line_indent (split_on LF data ! at) @ l) (split_on LF snippet) @ drop at (split_on LF data)"
    using insert_snippet_lines [OF assms(2)] by blast
  have "InsertBefore format writeErr fs path marker snippet = Inr (True, ?fs)"
    using assms(1-3,6) by (simp add: InsertBefore_def os_WriteFile_def)
  moreover have "insert_snippet out' marker snippet = Present"
    using assms(4,5) insert_snippet_keeps [OF assms(2)] by (intro insert_snippet_Present) auto
  then have "InsertBefore format writeErr ?fs path marker snippet = Inr (True, ?fs)"
    by (simp add: InsertBefore_def)
  ultimately show ?thesis using at(2) index_where_Some [OF at(1)] by blast
qed

theorem InsertBefore_once_witness:
  "\<exists>fs'. InsertBefore Inr (\<lambda>_. None) (ex_repo(''m.go'' := File (join [LF] [''type M struct {'', [CHR 0x09] @ MarkerField, ''}'']) 420)) ''m.go'' MarkerField ''a A''
      = Inr (True, fs') \<and> os_ReadFile fs' ''m.go'' = Inr (join [LF] [''type M struct {'', [CHR 0x09] @ ''a A'', [CHR 0x09] @ MarkerField, ''}''])"
proof -
  let ?d = "join [LF] [''type M struct {'', [CHR 0x09] @ MarkerField, ''}'']"
  let ?o = "join [LF] [''type M struct {'', [CHR 0x09] @ ''a A'', [CHR 0x09] @ MarkerField, ''}'']"
  let ?fs = "ex_repo(''m.go'' := File ?d 420)"
  have i: "insert_snippet ?d MarkerField ''a A'' = Inserted ?o" by code_simp
  have r: "os_ReadFile ?fs ''m.go'' = Inr ?d" by (rule os_ReadFile_written)
  obtain fs' where f: "InsertBefore Inr (\<lambda>_. None) ?fs ''m.go'' MarkerField ''a A'' = Inr (True, fs')"
    and e: "fs' = ?fs(''m.go'' := File ?o (node_mode (?fs ''m.go'')))"
    using InsertBefore_once [OF r i, of Inr ?o "\<lambda>_. None"] by (simp only: if_cancel) blast
  have "os_ReadFile fs' ''m.go'' = Inr ?o" unfolding e by (rule os_ReadFile_written)
  with f show ?thesis by blast
qed

lemma ParseVarFlags_effects:
  assumes "ParseVarFlags nk m flags = Inr vars"
  shows "set (gm_keys vars) = var_Name ` set (m_Variables m)"
    and "gm_get ANil k vars =
      (case List.find (\<lambda>(n, x). n = k) (rev (map (\<lambda>f. the (flag_effect nk (var_kinds (m_Variables m)) f)) flags)) of
         None \<Rightarrow> gm_get ANil k (var_defaults (m_Variables m)) | Some (n, x) \<Rightarrow> x)"
    and "list_all (\<lambda>f. flag_effect nk (var_kinds (m_Variables m)) f \<noteq> None) flags"
proof -
  let ?k = "var_kinds (m_Variables m)" and ?d = "var_defaults (m_Variables m)"
  from assms have f: "list_all (\<lambda>f. flag_effect nk ?k f \<noteq> None) flags"
    and v: "vars = foldl (\<lambda>v (n, x). gm_set n x v) ?d (map (\<lambda>f. the (flag_effect nk ?k f)) flags)"
    by (auto simp: ParseVarFlags_def foldM_var_flag)
  show "list_all (\<lambda>f. flag_effect nk ?k f \<noteq> None) flags" by (rule f)
  show "gm_get ANil k vars =
      (case List.find (\<lambda>(n, x). n = k) (rev (map (\<lambda>f. the (flag_effect nk ?k f)) flags)) of
         None \<Rightarrow> gm_get ANil k ?d | Some (n, x) \<Rightarrow> x)" unfolding v by (rule gm_get_foldl_last)
  have names: "set (gm_keys ?d) = var_Name ` set (m_Variables m)" "set (gm_keys ?k) = var_Name ` set (m_Variables m)"
    by (simp_all add: var_defaults_def var_kinds_def set_keys_foldl_gm_set)
  have "fst (the (flag_effect nk ?k fl)) \<in> set (gm_keys ?k)" if fl: "fl \<in> set flags" for fl
  proof -
    from f fl obtain n x where "flag_effect nk ?k fl = Some (n, x)" by (fastforce simp: list_all_iff)
    with flag_effect_known [OF this] show ?thesis by simp
  qed
  then show "set (gm_keys vars) = var_Name ` set (m_Variables m)"
    unfolding v set_keys_foldl_effects using names by auto
qed

text \<open>On success the variables are exactly the manifest's; a variable that flags name has
  the value of the last of them, as a boolean when the manifest says so, and any other variable has
  its default.\<close>

theorem ParseVarFlags_last_wins:
  assumes "ParseVarFlags nk m flags = Inr vars"
  shows "set (gm_keys vars) = var_Name ` set (m_Variables m) \<and>
     list_all (\<lambda>f. flag_effect nk (var_kinds (m_Variables m)) f \<noteq> None) flags \<and>
     gm_get ANil k vars =
      (case List.find (\<lambda>(n, x). n = k) (rev (map (\<lambda>f. the (flag_effect nk (var_kinds (m_Variables m)) f)) flags)) of
         None \<Rightarrow> gm_get ANil k (var_defaults (m_Variables m)) | Some (n, x) \<Rightarrow> x)"
  using ParseVarFlags_effects [OF assms] by blast

theorem ParseVarFlags_last_wins_witness:
  "\<exists>vars. ParseVarFlags (\<lambda>k. k) \<lparr>m_Variables = [\<lparr>var_Name = ''Grpc'', var_KindBool = True, var_Value = ABool True, var_Required = False\<rparr>]\<rparr>
      [''Grpc=1'', ''Grpc=false''] = Inr vars \<and> gm_get ANil ''Grpc'' vars = ABool False"
proof -
  let ?m = "\<lparr>m_Variables = [\<lparr>var_Name = ''Grpc'', var_KindBool = True, var_Value = ABool True, var_Required = False\<rparr>]\<rparr>"
  have p: "ParseVarFlags (\<lambda>k. k) ?m [''Grpc=1'', ''Grpc=false''] = Inr [(''Grpc'', ABool False)]" by code_simp
  have "(case List.find (\<lambda>(n, x). n = ''Grpc'') (rev (map (\<lambda>f. the (flag_effect (\<lambda>k. k) (var_kinds (m_Variables ?m)) f)) [''Grpc=1'', ''Grpc=false''])) of
         None \<Rightarrow> gm_get ANil ''Grpc'' (var_defaults (m_Variables ?m)) | Some (n, x) \<Rightarrow> x) = ABool False" by code_simp
  with ParseVarFlags_last_wins [OF p, of "''Grpc''"] p show ?thesis by metis
qed

text \<open>Listing a slice's table for bungen keeps the tables listed, in order, and adds the
  table at the end; a table already listed is left where it is, so a second run changes nothing.\<close>

theorem AppendBungenTable_lists:
  assumes "os_ReadFile fs path = Inr data" and "bungenTables data = Some (a, b)"
    and "AppendBungenTable writeErr fs path table = Inr (ok, fs')"
    and "apos \<notin> set table" and "CHR '','' \<notin> set table"
  shows "\<exists>data' b'. os_ReadFile fs' path = Inr data' \<and> bungenTables data' = Some (a, b') \<and>
     split_on (CHR '','') (take (b' - a) (drop a data')) =
       (let ts = split_on (CHR '','') (take (b - a) (drop a data)) in if table \<in> set ts then ts else ts @ [table]) \<and>
     AppendBungenTable writeErr fs' path table = Inr (True, fs')"
proof (cases "table \<in> set (split_on (CHR '','') (take (b - a) (drop a data)))")
  case True
  with assms(1-3) show ?thesis by (intro exI [of _ data] exI [of _ b]) (auto simp: AppendBungenTable_def)
next
  case False
  let ?x = "'','' @ table" and ?g = "take (b - a) (drop a data)"
  let ?n = "take b data @ ?x @ drop b data"
  have x: "apos \<notin> set ?x" using assms(4) by (simp add: apos_def)
  note n = bungenTables_appended [OF assms(2) x]
  from assms(1-3) False have fs': "os_ReadFile fs' path = Inr ?n"
    by (auto simp: AppendBungenTable_def os_WriteFile_def split: option.splits)
  have g: "split_on (CHR '','') (?g @ ?x) = split_on (CHR '','') ?g @ [table]"
    using assms(5) by (simp add: split_on_append_sep split_on_no_sep)
  have t: "split_on (CHR '','') (take (b + length ?x - a) (drop a ?n)) = split_on (CHR '','') ?g @ [table]"
    unfolding n(2) by (rule g)
  have "AppendBungenTable writeErr fs' path table = Inr (True, fs')"
    unfolding AppendBungenTable_def fs' using n(1) t by simp
  with fs' n(1) t False show ?thesis
    by (intro exI [of _ ?n] exI [of _ "b + length ?x"]) (simp del: append.simps)
qed

theorem AppendBungenTable_lists_witness:
  "\<exists>fs' data'. AppendBungenTable (\<lambda>_. None) (ex_repo(''m'' := File (''bungen -t '' @ [apos] @ ''a.b'' @ [apos]) 420)) ''m'' ''a.c'' = Inr (True, fs') \<and>
     os_ReadFile fs' ''m'' = Inr data' \<and> (\<exists>b'. split_on (CHR '','') (take (b' - 11) (drop 11 data')) = [''a.b'', ''a.c''])"
proof -
  let ?d = "''bungen -t '' @ [apos] @ ''a.b'' @ [apos]"
  let ?fs = "ex_repo(''m'' := File ?d 420)"
  have r: "os_ReadFile ?fs ''m'' = Inr ?d" by simp
  have b: "bungenTables ?d = Some (11, 14)" by code_simp
  have l: "(let ts = split_on (CHR '','') (take (14 - 11) (drop 11 ?d)) in if ''a.c'' \<in> set ts then ts else ts @ [''a.c'']) = [''a.b'', ''a.c'']"
    "\<not> ''a.c'' \<in> set (split_on (CHR '','') (take (14 - 11) (drop 11 ?d)))" by code_simp+
  obtain fs' where f: "AppendBungenTable (\<lambda>_. None) ?fs ''m'' ''a.c'' = Inr (True, fs')"
    using b l(2) by (simp add: AppendBungenTable_def os_WriteFile_def)
  have "apos \<notin> set ''a.c''" by (simp add: apos_def)
  from AppendBungenTable_lists [OF r b f this] f l(1) show ?thesis by auto
qed

end
