(* ===== verification/Http_Middleware.thy ===== *)
theory Http_Middleware
  imports Slice_Inbound Checks_Files
begin

text \<open>
  \<open>pkg/platform/middleware\<close> and the request path of \<open>pkg/platform/server\<close>. A handler maps a request
  to the operations it makes on its response writer, in order, what it logs, and whether it returned
  or panicked; a middleware maps handlers to handlers. The response writer of \<open>net/http\<close> is the state
  those operations run on: the first status sent wins, and a write without a status sends 200.
  Errors of writing to the connection are not modelled.
\<close>

subsection \<open>Requests and responses\<close>

type_synonym headers = "(string, string) gomap"

text \<open>\<open>rq_body\<close> is what reading the body gives, with the error it ends in, if any.\<close>

record request =
  rq_method :: string
  rq_path :: string
  rq_headers :: headers
  rq_body :: "string \<times> string option"
  rq_remote :: string
  rq_ctx :: ctx
  rq_requestID :: "string option"

datatype op = SetHeader string string | WriteHeader nat | WriteBody string | Flush

datatype panic_value = PanicErr go_error | PanicVal string

datatype exit = Returned | Panicked panic_value

datatype level = LevelInfo | LevelWarn | LevelError

datatype lval = LString string | LInt nat | LErr go_error

record entry =
  lg_level :: level
  lg_msg :: string
  lg_fields :: "(string \<times> lval) list"

record result =
  r_exit :: exit
  r_ops :: "op list"
  r_logs :: "entry list"

type_synonym handler = "request \<Rightarrow> result"

type_synonym middleware = "handler \<Rightarrow> handler"

record rw =
  rw_header :: headers
  rw_sent :: "(nat \<times> headers) option"
  rw_body :: string

fun rw_op :: "rw \<Rightarrow> op \<Rightarrow> rw" where
  "rw_op w (SetHeader k v) = w\<lparr>rw_header := gm_set k v (rw_header w)\<rparr>"
| "rw_op w (WriteHeader n) = (if rw_sent w = None then w\<lparr>rw_sent := Some (n, rw_header w)\<rparr> else w)"
| "rw_op w (WriteBody b) =
     (let w' = (if rw_sent w = None then w\<lparr>rw_sent := Some (200, rw_header w)\<rparr> else w) in w'\<lparr>rw_body := rw_body w' @ b\<rparr>)"
| "rw_op w Flush = (if rw_sent w = None then w\<lparr>rw_sent := Some (200, rw_header w)\<rparr> else w)"

definition run_ops :: "op list \<Rightarrow> rw" where
  "run_ops ops = foldl rw_op \<lparr>rw_header = [], rw_sent = None, rw_body = []\<rparr> ops"

text \<open>The status the client sees: a handler that sends nothing answers 200.\<close>

definition client_status :: "op list \<Rightarrow> nat" where
  "client_status ops = (case rw_sent (run_ops ops) of None \<Rightarrow> 200 | Some (n, _) \<Rightarrow> n)"

definition headerGet :: "request \<Rightarrow> string \<Rightarrow> string" where
  "headerGet r k = gm_get [] k (rq_headers r)"

definition GetRequestID :: "request \<Rightarrow> string" where
  "GetRequestID r = (case rq_requestID r of None \<Rightarrow> [] | Some i \<Rightarrow> i)"

definition dquote :: string where
  "dquote = [CHR 0x22]"

definition json_error :: "string \<Rightarrow> string \<Rightarrow> string" where
  "json_error code msg = ''{'' @ dquote @ ''code'' @ dquote @ '':'' @ dquote @ code @ dquote @ '','' @
     dquote @ ''message'' @ dquote @ '':'' @ dquote @ msg @ dquote @ ''}''"

definition json_type :: op where
  "json_type = SetHeader ''Content-Type'' ''application/json''"

subsection \<open>auth.go\<close>

definition RenewedTokenHeader :: string where
  "RenewedTokenHeader = ''X-Renewed-Token''"

definition writeUnauthorized :: "op list" where
  "writeUnauthorized = [json_type, WriteHeader 401, WriteBody (json_error ''unauthenticated'' ''missing or invalid token'')]"

definition bearer :: string where
  "bearer = ''Bearer ''"

definition extractBearerToken :: "request \<Rightarrow> string" where
  "extractBearerToken r =
     (let auth = headerGet r ''Authorization'' in if \<not> hasPrefix auth bearer then [] else trimPrefix auth bearer)"

definition log_error :: "string \<Rightarrow> (string \<times> lval) list \<Rightarrow> entry" where
  "log_error msg fs = \<lparr>lg_level = LevelError, lg_msg = msg, lg_fields = fs\<rparr>"

definition auth_skipped :: "string list \<Rightarrow> request \<Rightarrow> bool" where
  "auth_skipped excludedPaths r =
     list_ex (\<lambda>path. hasPrefix (rq_path r) path \<or> contains (rq_path r) ''/debug/'') excludedPaths"

definition BearerAuthMiddleware ::
    "(ctx \<Rightarrow> string \<Rightarrow> go_error + TokenValidation) \<Rightarrow> string list \<Rightarrow> middleware" where
  "BearerAuthMiddleware validate excludedPaths next r =
     (if auth_skipped excludedPaths r then next r
      else let token = extractBearerToken r in
        if token = [] then \<lparr>r_exit = Returned, r_ops = writeUnauthorized, r_logs = []\<rparr>
        else (case validate (rq_ctx r) token of
            Inl e \<Rightarrow> \<lparr>r_exit = Returned, r_ops = writeUnauthorized,
               r_logs = [log_error ''token validation failed'' [(''err'', LErr e), (''path'', LString (rq_path r))]]\<rparr>
          | Inr v \<Rightarrow>
             (let res = next (r\<lparr>rq_ctx := WithUserID (tv_UserID v) (rq_ctx r)\<rparr>) in
              if tv_RenewedToken v \<noteq> [] then res\<lparr>r_ops := SetHeader RenewedTokenHeader (tv_RenewedToken v) # r_ops res\<rparr>
              else res)))"

subsection \<open>app\_authorization.go\<close>

definition writeForbidden :: "op list" where
  "writeForbidden = [json_type, WriteHeader 403, WriteBody (json_error ''permission_denied'' ''access to this application is not allowed'')]"

definition writeUnavailable :: "op list" where
  "writeUnavailable = [json_type, WriteHeader 503, WriteBody (json_error ''unavailable'' ''cannot check access to this application'')]"

definition AppAuthorizationMiddleware ::
    "string \<Rightarrow> (ctx \<Rightarrow> uuid \<Rightarrow> string \<Rightarrow> go_error + bool) \<Rightarrow> middleware" where
  "AppAuthorizationMiddleware application check next r =
     (case UserIDFromContext (rq_ctx r) of
        Inl _ \<Rightarrow> \<lparr>r_exit = Returned, r_ops = writeUnauthorized, r_logs = []\<rparr>
      | Inr userID \<Rightarrow>
         (case check (rq_ctx r) userID application of
            Inl e \<Rightarrow> \<lparr>r_exit = Returned, r_ops = writeUnavailable,
               r_logs = [log_error ''application access check failed''
                 [(''err'', LErr e), (''user_id'', LString userID), (''application'', LString application)]]\<rparr>
          | Inr False \<Rightarrow> \<lparr>r_exit = Returned, r_ops = writeForbidden,
               r_logs = [\<lparr>lg_level = LevelWarn, lg_msg = ''application access denied'', lg_fields =
                 [(''user_id'', LString userID), (''application'', LString application), (''path'', LString (rq_path r))]\<rparr>]\<rparr>
          | Inr True \<Rightarrow> next r))"

subsection \<open>Middlewares as gates\<close>

text \<open>What the two middlewares answer themselves.\<close>

definition own_op :: "op \<Rightarrow> bool" where
  "own_op x \<longleftrightarrow> x \<in> set (writeUnauthorized @ writeForbidden @ writeUnavailable) \<or> (\<exists>t. x = SetHeader RenewedTokenHeader t)"

lemma own_ops:
  "x \<in> set writeUnauthorized \<Longrightarrow> own_op x" "x \<in> set writeForbidden \<Longrightarrow> own_op x"
  "x \<in> set writeUnavailable \<Longrightarrow> own_op x" "own_op (SetHeader RenewedTokenHeader t)"
  by (auto simp: own_op_def)

text \<open>A middleware that guards its handler: it answers a request it does not admit with operations of
  its own, and sends an admitted one on, changed by \<open>pass\<close>, after at most some operations of its own.\<close>

locale gate =
  fixes mw :: middleware and admits :: "request \<Rightarrow> bool" and pass :: "request \<Rightarrow> request" and answer :: "op \<Rightarrow> bool"
  assumes refused: "\<not> admits r \<Longrightarrow> list_all answer (r_ops (mw next r))"
    and admitted: "admits r \<Longrightarrow> \<exists>pre. list_all answer pre \<and> r_ops (mw next r) = pre @ r_ops (next (pass r))"
begin

lemma foreign_op: "x \<in> set (r_ops (mw next r)) \<Longrightarrow> \<not> answer x \<Longrightarrow> admits r"
  using refused [of r "next"] by (auto simp: list_all_iff)

end

locale gate_chain =
  outer: gate mw1 admits1 pass1 answer + inner: gate mw2 admits2 pass2 answer
  for mw1 admits1 pass1 mw2 admits2 pass2 answer

sublocale gate_chain \<subseteq> both: gate "\<lambda>n. mw1 (mw2 n)" "\<lambda>r. admits1 r \<and> admits2 (pass1 r)" "\<lambda>r. pass2 (pass1 r)" answer
proof
  fix r "next"
  assume "\<not> (admits1 r \<and> admits2 (pass1 r))"
  then show "list_all answer (r_ops (mw1 (mw2 next) r))"
    using outer.refused [of r "mw2 next"] outer.admitted [of r "mw2 next"] inner.refused [of "pass1 r" "next"]
    by (cases "admits1 r") auto
next
  fix r "next"
  assume "admits1 r \<and> admits2 (pass1 r)"
  then obtain p q where "list_all answer p" "r_ops (mw1 (mw2 next) r) = p @ r_ops (mw2 next (pass1 r))"
    "list_all answer q" "r_ops (mw2 next (pass1 r)) = q @ r_ops (next (pass2 (pass1 r)))"
    using outer.admitted [of r "mw2 next"] inner.admitted [of "pass1 r" "next"] by blast
  then show "\<exists>pre. list_all answer pre \<and> r_ops (mw1 (mw2 next) r) = pre @ r_ops (next (pass2 (pass1 r)))"
    by (intro exI [of _ "p @ q"]) simp
qed

definition bearer_admits :: "(ctx \<Rightarrow> string \<Rightarrow> go_error + TokenValidation) \<Rightarrow> string list \<Rightarrow> request \<Rightarrow> bool" where
  "bearer_admits validate excludedPaths r \<longleftrightarrow> auth_skipped excludedPaths r \<or>
     extractBearerToken r \<noteq> [] \<and> (case validate (rq_ctx r) (extractBearerToken r) of Inl _ \<Rightarrow> False | Inr _ \<Rightarrow> True)"

definition bearer_pass :: "(ctx \<Rightarrow> string \<Rightarrow> go_error + TokenValidation) \<Rightarrow> string list \<Rightarrow> request \<Rightarrow> request" where
  "bearer_pass validate excludedPaths r =
     (if auth_skipped excludedPaths r then r
      else (case validate (rq_ctx r) (extractBearerToken r) of Inl _ \<Rightarrow> r | Inr v \<Rightarrow> r\<lparr>rq_ctx := WithUserID (tv_UserID v) (rq_ctx r)\<rparr>))"

definition access_admits :: "string \<Rightarrow> (ctx \<Rightarrow> uuid \<Rightarrow> string \<Rightarrow> go_error + bool) \<Rightarrow> request \<Rightarrow> bool" where
  "access_admits application check r = (case UserIDFromContext (rq_ctx r) of Inl _ \<Rightarrow> False
     | Inr userID \<Rightarrow> check (rq_ctx r) userID application = Inr True)"

lemma UserIDFromContext_With [simp]: "UserIDFromContext (WithUserID u c) = Inr u"
  by (simp add: UserIDFromContext_def WithUserID_def)

interpretation guarded: gate_chain "BearerAuthMiddleware validate excludedPaths" "bearer_admits validate excludedPaths"
    "bearer_pass validate excludedPaths" "AppAuthorizationMiddleware application check" "access_admits application check" "\<lambda>r. r" own_op
  for validate excludedPaths application check
proof unfold_locales
  fix r "next"
  show "\<not> bearer_admits validate excludedPaths r \<Longrightarrow> list_all own_op (r_ops (BearerAuthMiddleware validate excludedPaths next r))"
    by (auto simp: bearer_admits_def BearerAuthMiddleware_def Let_def list_all_iff own_ops split: sum.splits)
  show "\<not> access_admits application check r \<Longrightarrow> list_all own_op (r_ops (AppAuthorizationMiddleware application check next r))"
    by (auto simp: access_admits_def AppAuthorizationMiddleware_def list_all_iff own_ops split: sum.splits bool.splits)
  show "access_admits application check r \<Longrightarrow>
      \<exists>pre. list_all own_op pre \<and> r_ops (AppAuthorizationMiddleware application check next r) = pre @ r_ops (next r)"
    by (auto simp: access_admits_def AppAuthorizationMiddleware_def split: sum.splits)
  assume a: "bearer_admits validate excludedPaths r"
  show "\<exists>pre. list_all own_op pre \<and>
      r_ops (BearerAuthMiddleware validate excludedPaths next r) = pre @ r_ops (next (bearer_pass validate excludedPaths r))"
  proof (cases "auth_skipped excludedPaths r")
    case True
    then show ?thesis by (simp add: BearerAuthMiddleware_def bearer_pass_def)
  next
    case False
    with a obtain v where "validate (rq_ctx r) (extractBearerToken r) = Inr v" "extractBearerToken r \<noteq> []"
      by (auto simp: bearer_admits_def split: sum.splits)
    with False show ?thesis
      by (intro exI [of _ "if tv_RenewedToken v \<noteq> [] then [SetHeader RenewedTokenHeader (tv_RenewedToken v)] else []"])
         (simp add: BearerAuthMiddleware_def bearer_pass_def Let_def own_ops)
  qed
qed

subsection \<open>recovery.go\<close>

definition panic_error :: "string \<Rightarrow> panic_value \<Rightarrow> go_error" where
  "panic_error msg p = (case p of PanicErr e \<Rightarrow> Wrap msg e | PanicVal v \<Rightarrow> Opaque (msg @ '': '' @ v))"

definition recovery_ops :: "op list" where
  "recovery_ops = [json_type, WriteHeader 500,
     WriteBody (''{'' @ dquote @ ''error'' @ dquote @ '': '' @ dquote @ ''Internal Server Error'' @ dquote @ ''}'')]"

definition RecoveryMiddleware :: middleware where
  "RecoveryMiddleware next r =
     (let res = next r in
      case r_exit res of Returned \<Rightarrow> res
      | Panicked p \<Rightarrow> \<lparr>r_exit = Returned, r_ops = r_ops res @ recovery_ops,
          r_logs = r_logs res @ [log_error ''server panic recovered''
            [(''request_id'', LString (GetRequestID r)), (''method'', LString (rq_method r)), (''path'', LString (rq_path r)),
             (''error'', LErr (panic_error ''unhandled panic in http handler'' p))]]\<rparr>)"

subsection \<open>logging.go\<close>

definition maxBodyLen :: nat where
  "maxBodyLen = 10000"

record responseWriter =
  rwr_status :: nat
  rwr_wroteHeader :: bool

text \<open>The wrapper around the response writer: what reaches the writer below, operation by operation.\<close>

fun wrapper_op :: "responseWriter \<Rightarrow> op \<Rightarrow> responseWriter \<times> op list" where
  "wrapper_op rw (WriteHeader n) =
     (if rwr_wroteHeader rw then (rw, []) else (\<lparr>rwr_status = n, rwr_wroteHeader = True\<rparr>, [WriteHeader n]))"
| "wrapper_op rw (WriteBody b) =
     (if rwr_wroteHeader rw then (rw, [WriteBody b])
      else (\<lparr>rwr_status = 200, rwr_wroteHeader = True\<rparr>, [WriteHeader 200, WriteBody b]))"
| "wrapper_op rw (SetHeader k v) = (rw, [SetHeader k v])"
| "wrapper_op rw Flush = (rw, [Flush])"

fun wrapper_ops :: "responseWriter \<Rightarrow> op list \<Rightarrow> responseWriter \<times> op list" where
  "wrapper_ops rw [] = (rw, [])"
| "wrapper_ops rw (x # xs) =
     (case wrapper_op rw x of (rw1, ys) \<Rightarrow> (case wrapper_ops rw1 xs of (rw2, zs) \<Rightarrow> (rw2, ys @ zs)))"

definition httpLogLevel :: "nat \<Rightarrow> level" where
  "httpLogLevel status = (if 500 \<le> status then LevelError else if 404 \<le> status then LevelWarn else LevelInfo)"

definition is_grpc :: "request \<Rightarrow> bool" where
  "is_grpc r = (hasPrefix (headerGet r ''Content-Type'') ''application/grpc'' \<or>
     hasPrefix (headerGet r ''Content-Type'') ''application/connect'')"

definition reads_body :: "bool \<Rightarrow> request \<Rightarrow> bool" where
  "reads_body logPayloads r = (logPayloads \<and> \<not> is_grpc r \<and> rq_method r \<in> set [''POST'', ''PUT'', ''PATCH''])"

text \<open>\<open>newID\<close> is a fresh UUID and \<open>elapsed\<close> the time measured.\<close>

definition LoggingMiddleware :: "string \<Rightarrow> string \<Rightarrow> bool \<Rightarrow> middleware" where
  "LoggingMiddleware newID elapsed logPayloads next r =
     (let reads = reads_body logPayloads r;
          body = (if reads then fst (rq_body r) else []);
          pre = (case snd (rq_body r) of Some e \<Rightarrow> (if reads then [log_error ''failed to read request body for logging'' [(''error'', LString e)]] else [])
             | None \<Rightarrow> []);
          r1 = (if reads \<and> snd (rq_body r) \<noteq> None then r\<lparr>rq_body := ([], snd (rq_body r))\<rparr> else r);
          requestID = (if headerGet r ''X-Request-ID'' = [] then newID else headerGet r ''X-Request-ID'');
          res = next (r1\<lparr>rq_requestID := Some requestID\<rparr>);
          wrapped = wrapper_ops \<lparr>rwr_status = 200, rwr_wroteHeader = False\<rparr> (r_ops res);
          ops = SetHeader ''X-Request-ID'' requestID # snd wrapped;
          status = rwr_status (fst wrapped) in
      case r_exit res of
        Panicked p \<Rightarrow> \<lparr>r_exit = Panicked p, r_ops = ops, r_logs = pre @ r_logs res\<rparr>
      | Returned \<Rightarrow> \<lparr>r_exit = Returned, r_ops = ops, r_logs = pre @ r_logs res @
          [\<lparr>lg_level = httpLogLevel status, lg_msg = ''http request handled'', lg_fields =
             [(''request_id'', LString requestID), (''method'', LString (rq_method r)), (''path'', LString (rq_path r)),
              (''status'', LInt status), (''duration'', LString elapsed), (''ip'', LString (rq_remote r))] @
             (if body \<noteq> [] then [(''payload'', LString (take (min (length body) maxBodyLen) body))] else [])\<rparr>]\<rparr>)"

subsection \<open>server.go\<close>

text \<open>The chain of \<open>NewHTTPServer\<close>: \<open>cors\<close> is the middleware of the CORS library, \<open>mux\<close> the routes.\<close>

definition server_chain :: "string \<Rightarrow> string \<Rightarrow> bool \<Rightarrow> middleware \<Rightarrow> handler \<Rightarrow> handler" where
  "server_chain newID elapsed logPayloads cors mux = LoggingMiddleware newID elapsed logPayloads (RecoveryMiddleware (cors mux))"

text \<open>A value a health function answered (of any type), an error's text, or the health number.\<close>

datatype 'v monit_value = MAny 'v | MText string | MNumber int

text \<open>The map of health functions, in the order a range over it visits them: each with its answer.\<close>

definition monit_step :: "(string, 'v monit_value) gomap \<times> bool \<Rightarrow> string \<times> (go_error + 'v) \<Rightarrow> (string, 'v monit_value) gomap \<times> bool" where
  "monit_step st kf = (case st of (msgs, hasErr) \<Rightarrow> (case kf of (key, answer) \<Rightarrow>
     (case answer of Inl e \<Rightarrow> (gm_set key (MText (error_text e)) msgs, True)
      | Inr v \<Rightarrow> (gm_set key (MAny v) msgs, hasErr))))"

definition getMonitMessages :: "(string \<times> (go_error + 'v)) list \<Rightarrow> (string, 'v monit_value) gomap \<times> bool" where
  "getMonitMessages fns =
     (case foldl monit_step ([], False) fns of (msgs, hasErr) \<Rightarrow>
        (gm_set ''health'' (MNumber (if hasErr then 0 else 42)) msgs, hasErr))"

definition monit_handler :: "((string, 'v monit_value) gomap \<Rightarrow> string) \<Rightarrow> (string \<times> (go_error + 'v)) list \<Rightarrow> handler" where
  "monit_handler encode fns r =
     (case getMonitMessages fns of (msgs, hasErr) \<Rightarrow>
        \<lparr>r_exit = Returned, r_ops = [SetHeader ''Content-Type'' ''application/json; charset=utf-8'',
           WriteHeader (if hasErr then 500 else 200), WriteBody (encode msgs)], r_logs = []\<rparr>)"

text \<open>\<open>Start\<close> waits for the first of two events: \<open>ListenAndServe\<close> returned (always with an error), or the
  context is done, when \<open>Shutdown\<close> runs with the given result. A server that was closed is no failure.\<close>

definition ErrServerClosed :: go_error where
  "ErrServerClosed = Sentinel ''http'' ''http: Server closed''"

datatype server_event = ServeReturned go_error | CtxDone "go_error option"

definition HTTPServer_Start :: "server_event \<Rightarrow> go_error option" where
  "HTTPServer_Start ev = (case ev of
     ServeReturned e \<Rightarrow> (if errors_is e ErrServerClosed then None else Some (Wrap ''server crashed'' e))
   | CtxDone r \<Rightarrow> eris_wrap r ''failed to shutdown server %s cleanly'')"

subsection \<open>safego.go\<close>

text \<open>What the goroutine logs, given the request ID of its context and how the function ended: a panic
  never leaves it.\<close>

definition SafeGo :: "string option \<Rightarrow> exit \<Rightarrow> entry list" where
  "SafeGo requestID fn = (case fn of Returned \<Rightarrow> []
     | Panicked p \<Rightarrow> [log_error ''background worker crashed''
         [(''request_id'', LString (case requestID of None \<Rightarrow> [] | Some i \<Rightarrow> i)),
          (''error'', LErr (panic_error ''panic recovered in background worker'' p))]])"

subsection \<open>What the wrapper records is what the client sees\<close>

definition sent_status :: "rw \<Rightarrow> nat" where
  "sent_status w = (case rw_sent w of None \<Rightarrow> 200 | Some (n, _) \<Rightarrow> n)"

text \<open>The wrapper's state agrees with the writer below it.\<close>

definition agrees :: "responseWriter \<Rightarrow> rw \<Rightarrow> bool" where
  "agrees rw w \<longleftrightarrow> rwr_status rw = sent_status w \<and> (rwr_wroteHeader rw \<longleftrightarrow> rw_sent w \<noteq> None)"

text \<open>A handler that flushes only after it has sent a status or a part of the body; \<open>wrote\<close> tells
  whether it has.\<close>

fun flushes_late :: "bool \<Rightarrow> op list \<Rightarrow> bool" where
  "flushes_late wrote [] = True"
| "flushes_late wrote (Flush # xs) = (wrote \<and> flushes_late wrote xs)"
| "flushes_late wrote (WriteHeader n # xs) = flushes_late True xs"
| "flushes_late wrote (WriteBody b # xs) = flushes_late True xs"
| "flushes_late wrote (SetHeader k v # xs) = flushes_late wrote xs"

lemma wrapper_op_agrees:
  assumes "agrees rw w" and "wrapper_op rw x = (rw', ys)" and "flushes_late (rwr_wroteHeader rw) (x # xs)"
  shows "agrees rw' (foldl rw_op w ys)" and "foldl rw_op w ys = rw_op w x" and "flushes_late (rwr_wroteHeader rw') xs"
  using assms by (cases x; auto simp: agrees_def sent_status_def Let_def split: if_splits option.splits)+

lemma wrapper_ops_agree:
  assumes "agrees rw w" and "flushes_late (rwr_wroteHeader rw) ops" and "wrapper_ops rw ops = (rw', ys)"
  shows "agrees rw' (foldl rw_op w ys) \<and> foldl rw_op w ys = foldl rw_op w ops"
  using assms
proof (induction ops arbitrary: rw w ys)
  case Nil
  then show ?case by simp
next
  case (Cons x xs)
  obtain rw1 us zs where s: "wrapper_op rw x = (rw1, us)" "wrapper_ops rw1 xs = (rw', zs)" "ys = us @ zs"
    using Cons.prems(3) by (auto split: prod.splits)
  note o = wrapper_op_agrees [OF Cons.prems(1) s(1) Cons.prems(2)]
  from Cons.IH [OF o(1,3) s(2)] show ?case by (auto simp: s(3) o(2))
qed

text \<open>The operations of the recovery come after everything the handler did.\<close>

lemma flushes_late_append: "flushes_late wrote xs \<Longrightarrow> flushes_late True ys \<Longrightarrow>
    (\<And>b. flushes_late b ys) \<Longrightarrow> flushes_late wrote (xs @ ys)"
  by (induction wrote xs rule: flushes_late.induct) auto

lemma flushes_late_recovery [simp]: "flushes_late b recovery_ops"
  by (simp add: recovery_ops_def json_type_def)

lemma rw_set_header_sent [simp]: "rw_sent (rw_op w (SetHeader k v)) = rw_sent w"
  by simp

end
