(* ===== verification/Config_URL.thy ===== *)
theory Config_URL
  imports Platform_Core
begin

text \<open>
  The two \<open>URL\<close> methods of \<open>pkg/platform/config\<close> on the printing of \<open>net/url\<close>: which bytes are escaped in the
  user information, the host, the path and the query, and how the parts are put together.
\<close>

subsection \<open>net/url\<close>

datatype url_part = UPath | UUser | UHost | UQuery

definition alnum :: "char \<Rightarrow> bool" where
  "alnum c = (let n = (of_char c :: nat) in 97 \<le> n \<and> n \<le> 122 \<or> 65 \<le> n \<and> n \<le> 90 \<or> 48 \<le> n \<and> n \<le> 57)"

definition shouldEscape :: "url_part \<Rightarrow> char \<Rightarrow> bool" where
  "shouldEscape part c =
     (if alnum c \<or> c \<in> set ''-_.~'' then False
      else if part = UHost \<and> c \<in> set (''!$&()*+,;=:[]<>'' @ [CHR 0x22, CHR 0x27]) then False
      else if c \<in> set ''$&+,/:;=?@'' then
        (case part of UPath \<Rightarrow> c = CHR ''?'' | UUser \<Rightarrow> c \<in> set ''@/?:'' | UHost \<Rightarrow> True | UQuery \<Rightarrow> True)
      else True)"

definition hex_digit :: "nat \<Rightarrow> char" where
  "hex_digit n = ''0123456789ABCDEF'' ! n"

definition escape_char :: "url_part \<Rightarrow> char \<Rightarrow> string" where
  "escape_char part c =
     (if part = UQuery \<and> c = CHR '' '' then ''+''
      else if shouldEscape part c then [CHR ''%'', hex_digit ((of_char c :: nat) div 16), hex_digit ((of_char c :: nat) mod 16)]
      else [c])"

definition escape :: "url_part \<Rightarrow> string \<Rightarrow> string" where
  "escape part s = concat (map (escape_char part) s)"

text \<open>\<open>u_User\<close>: the user, and the password when there is one.\<close>

record URL =
  u_Scheme :: string
  u_User :: "(string \<times> string option) option"
  u_Host :: string
  u_Path :: string
  u_RawQuery :: string

definition userinfo :: "string \<times> string option \<Rightarrow> string" where
  "userinfo up = (case up of (u, p) \<Rightarrow> escape UUser u @ (case p of None \<Rightarrow> [] | Some x \<Rightarrow> '':'' @ escape UUser x))"

definition EscapedPath :: "string \<Rightarrow> string" where
  "EscapedPath p = (if p = ''*'' then ''*'' else escape UPath p)"

definition authority :: "URL \<Rightarrow> string" where
  "authority u =
     (if u_Scheme u \<noteq> [] \<or> u_Host u \<noteq> [] \<or> u_User u \<noteq> None then
        (if u_Host u \<noteq> [] \<or> u_Path u \<noteq> [] \<or> u_User u \<noteq> None then ''//'' else []) @
        (case u_User u of None \<Rightarrow> [] | Some up \<Rightarrow> userinfo up @ ''@'') @ escape UHost (u_Host u)
      else [])"

definition URL_String :: "URL \<Rightarrow> string" where
  "URL_String u =
     (let pre = (if u_Scheme u \<noteq> [] then u_Scheme u @ '':'' else []) @ authority u;
          path = EscapedPath (u_Path u);
          sep = (if path \<noteq> [] \<and> hd path \<noteq> slash \<and> u_Host u \<noteq> [] then [slash] else []);
          dot = (if pre @ sep = [] \<and> CHR '':'' \<in> set (takeWhile (\<lambda>c. c \<noteq> slash) path) then ''./'' else []) in
      pre @ sep @ dot @ path @ (if u_RawQuery u \<noteq> [] then ''?'' @ u_RawQuery u else []))"

definition query_Encode :: "(string, string) gomap \<Rightarrow> string" where
  "query_Encode q = join ''&'' (map (\<lambda>k. escape UQuery k @ ''='' @ escape UQuery (gm_get [] k q)) (sort (map fst q)))"

subsection \<open>database.go and server.go\<close>

record Database =
  cd_Scheme :: string
  cd_User :: string
  cd_Password :: string
  cd_Host :: string
  cd_Port :: Port
  cd_Name :: string
  cd_SSLMode :: string

definition Database_url :: "Database \<Rightarrow> URL" where
  "Database_url d =
     \<lparr>u_Scheme = (if cd_Scheme d = [] then ''postgres'' else cd_Scheme d),
      u_User = (if cd_User d \<noteq> [] then Some (cd_User d, if cd_Password d \<noteq> [] then Some (cd_Password d) else None) else None),
      u_Host = cd_Host d @ Port_String (cd_Port d), u_Path = cd_Name d,
      u_RawQuery = (if cd_SSLMode d \<noteq> [] then query_Encode [(''sslmode'', cd_SSLMode d)] else [])\<rparr>"

definition Database_URL :: "Database \<Rightarrow> string" where
  "Database_URL d = URL_String (Database_url d)"

definition Server_URL :: "Server \<Rightarrow> string \<Rightarrow> (string, string) gomap \<Rightarrow> string" where
  "Server_URL s path queries =
     (let port = (if (cs_Scheme s \<noteq> ''http'' \<or> cs_Port s \<noteq> 80) \<and> (cs_Scheme s \<noteq> ''https'' \<or> cs_Port s \<noteq> 443)
                  then Port_String (cs_Port s) else []) in
      URL_String \<lparr>u_Scheme = cs_Scheme s, u_User = None, u_Host = cs_Host s @ port, u_Path = path, u_RawQuery = query_Encode queries\<rparr>)"

subsection \<open>Reading an escaped text back\<close>

definition hex_value :: "char \<Rightarrow> nat" where
  "hex_value c = (let n = (of_char c :: nat) in if n \<le> 57 then n - 48 else n - 55)"

text \<open>\<open>PathUnescape\<close> on texts whose escapes are well formed.\<close>

fun unescape :: "string \<Rightarrow> string" where
  "unescape (c # a # b # s) =
     (if c = CHR ''%'' then char_of (16 * hex_value a + hex_value b) # unescape s else c # unescape (a # b # s))"
| "unescape s = s"

lemma less_16: "n < 16 \<Longrightarrow> n \<in> set [0..<16]" for n :: nat
  by simp

lemma hex_value_digit [simp]: "n < 16 \<Longrightarrow> hex_value (hex_digit n) = n"
  by (drule less_16) (auto simp: upt_conv_Cons hex_digit_def hex_value_def)

lemma hex_digit_plain: "n < 16 \<Longrightarrow> hex_digit n \<notin> set ''@/?:%''"
  by (drule less_16) (auto simp: upt_conv_Cons hex_digit_def)

lemma char_of_hex: "(char_of (16 * ((of_char c :: nat) div 16) + (of_char c :: nat) mod 16) :: char) = c"
  by simp

lemma unescape_escape_char:
  assumes "part \<noteq> UQuery"
  shows "unescape (escape_char part c @ s) = c # unescape s"
proof (cases "shouldEscape part c")
  case True
  have "(of_char c :: nat) div 16 < 16" "(of_char c :: nat) mod 16 < 16"
    using nat_of_char_less_256 [of c] by (auto simp: less_mult_imp_div_less)
  with True assms show ?thesis by (simp add: escape_char_def char_of_hex)
next
  case False
  then have "c \<noteq> CHR ''%''" by (auto simp: shouldEscape_def alnum_def)
  with False assms show ?thesis by (cases s rule: unescape.cases) (auto simp: escape_char_def)
qed

lemma unescape_escape: "part \<noteq> UQuery \<Longrightarrow> unescape (escape part s) = s"
  by (induction s) (simp_all add: escape_def unescape_escape_char)

lemma escape_length: "length s \<le> length (escape part s)"
  by (induction s) (auto simp: escape_def escape_char_def)

lemma escape_plain:
  assumes "part = UUser \<and> c \<in> set ''@/?:'' \<or> part = UHost \<and> c \<in> set ''@/?''"
  shows "c \<notin> set (escape part s)"
proof -
  have "c \<notin> set (escape_char part d)" for d
  proof (cases "shouldEscape part d")
    case True
    have "(of_char d :: nat) div 16 < 16" "(of_char d :: nat) mod 16 < 16"
      using nat_of_char_less_256 [of d] by (auto simp: less_mult_imp_div_less)
    note this [THEN hex_digit_plain]
    moreover have "c \<in> set ''@/?:%''" "c \<noteq> CHR ''%''" "c \<noteq> CHR ''+''" using assms by auto
    ultimately have "c \<noteq> hex_digit ((of_char d :: nat) div 16)" "c \<noteq> hex_digit ((of_char d :: nat) mod 16)" by metis+
    with \<open>c \<noteq> CHR ''%''\<close> \<open>c \<noteq> CHR ''+''\<close> True show ?thesis by (simp add: escape_char_def)
  next
    case False
    then have "c \<noteq> d" using assms by (auto simp: shouldEscape_def alnum_def)
    then show ?thesis using False assms by (auto simp: escape_char_def)
  qed
  then show ?thesis by (auto simp: escape_def)
qed

text \<open>The part of a database URL after the credentials, and the scheme before them.\<close>

definition db_scheme :: "Database \<Rightarrow> string" where
  "db_scheme d = (if cd_Scheme d = [] then ''postgres'' else cd_Scheme d)"

definition db_credentials :: "Database \<Rightarrow> string" where
  "db_credentials d = userinfo (cd_User d, if cd_Password d \<noteq> [] then Some (cd_Password d) else None)"

definition db_tail :: "Database \<Rightarrow> string" where
  "db_tail d =
     (let path = EscapedPath (cd_Name d); query = u_RawQuery (Database_url d) in
      (if path \<noteq> [] \<and> hd path \<noteq> slash then [slash] else []) @ path @ (if query \<noteq> [] then ''?'' @ query else []))"

lemma Database_URL_parts:
  assumes "cd_User d \<noteq> []"
  shows "Database_URL d = db_scheme d @ ''://'' @ db_credentials d @ ''@'' @ escape UHost (cd_Host d @ Port_String (cd_Port d)) @ db_tail d"
  using assms
  by (simp add: Database_URL_def URL_String_def Database_url_def authority_def db_scheme_def db_credentials_def db_tail_def
      Port_String_def Let_def)

lemma db_tail_start: "db_tail d = [] \<or> hd (db_tail d) \<in> set ''/?''"
  by (auto simp: db_tail_def Let_def slash_def hd_append)

lemma db_tail_credentials [simp]: "db_tail (d\<lparr>cd_User := u, cd_Password := p\<rparr>) = db_tail d"
  by (simp add: db_tail_def Database_url_def)

end
