(* ===== verification/Props_Platform.thy ===== *)
theory Props_Platform
  imports Http_Middleware Config_URL
begin

text \<open>
  Properties of the platform: the authentication and authorisation of requests, and the answers of
  the server's handler chain, the search for the repository root, and what the runner of the modules
  returns.
\<close>

subsection \<open>Who reaches a handler\<close>


definition ex_request :: request where
  "ex_request = \<lparr>rq_method = ''GET'', rq_path = ''/billing'', rq_headers = [(''Authorization'', ''Bearer abc'')],
     rq_body = ([], None), rq_remote = ''127.0.0.1'', rq_ctx = \<lparr>ctx_user = None, ctx_tx = None\<rparr>, rq_requestID = None\<rparr>"


subsection \<open>The server always answers\<close>











text \<open>The documented exemption of debug paths depends on the list of excluded paths: with an
  empty list a request for a debug path is answered 401.\<close>

theorem debug_path_not_exempt:
  assumes "contains (rq_path r) ''/debug/''" and "headerGet r ''Authorization'' = []"
  shows "r_ops (BearerAuthMiddleware validate [] next r) = writeUnauthorized \<and>
     BearerAuthMiddleware validate [''/any''] next r = next r"
  using assms by (simp add: BearerAuthMiddleware_def auth_skipped_def extractBearerToken_def hasPrefix_def bearer_def)

theorem debug_path_not_exempt_witness:
  "client_status (r_ops (BearerAuthMiddleware (\<lambda>c t. Inl (Opaque ''no'')) [] (\<lambda>r. \<lparr>r_exit = Returned, r_ops = [], r_logs = []\<rparr>)
     (ex_request\<lparr>rq_path := ''/debug/monit'', rq_headers := []\<rparr>))) = 401"
proof -
  let ?r = "ex_request\<lparr>rq_path := ''/debug/monit'', rq_headers := []\<rparr>"
  have "contains (rq_path ?r) ''/debug/''" "headerGet ?r ''Authorization'' = []" "client_status writeUnauthorized = 401" by code_simp+
  with debug_path_not_exempt [of ?r] show ?thesis by simp
qed

subsection \<open>The repository root\<close>

text \<open>Claim C23. From every absolute directory the search for the repository root ends: it returns the
  nearest directory on the way up that has a \<open>go.work\<close>, and the current directory when there is none.\<close>

theorem RootRepo_nearest:
  assumes "list_all path_name es"
  shows "\<exists>d. RootRepo fs (abs_path es) = Some d \<and>
     ((\<exists>n. n \<le> length es \<and> d = abs_path (take n es) \<and> exists_path fs (abs_path (take n es @ [''go.work''])) \<and>
         (\<forall>m. n < m \<and> m \<le> length es \<longrightarrow> \<not> exists_path fs (abs_path (take m es @ [''go.work''])))) \<or>
      d = ''.'' \<and> (\<forall>m. m \<le> length es \<longrightarrow> \<not> exists_path fs (abs_path (take m es @ [''go.work'']))))"
  using root_loop_spec [OF assms, of fs] by (simp add: RootRepo_def work_root_def)

theorem RootRepo_nearest_witness:
  "RootRepo ((\<lambda>_. Missing enoent)(''/r/go.work'' := File [] 420)) ''/r/modules/core'' = Some ''/r''"
proof -
  let ?fs = "(\<lambda>_. Missing enoent)(''/r/go.work'' := File [] 420)" and ?es = "[''r'', ''modules'', ''core'']"
  have p: "exists_path ?fs q \<longleftrightarrow> q = ''/r/go.work''" for q by (simp add: exists_path_def os_Stat_def)
  have e: "abs_path ?es = ''/r/modules/core''" "abs_path [''r''] = ''/r''" "abs_path (take 0 ?es @ [''go.work'']) = ''/go.work''"
    "abs_path (take 1 ?es @ [''go.work'']) = ''/r/go.work''" "abs_path (take 2 ?es @ [''go.work'']) = ''/r/modules/go.work''"
    "abs_path (take 3 ?es @ [''go.work'']) = ''/r/modules/core/go.work''" "list_all path_name ?es" by code_simp+
  have three: "n \<le> length ?es \<Longrightarrow> n = 0 \<or> n = 1 \<or> n = 2 \<or> n = 3" for n by auto
  obtain d where d: "RootRepo ?fs (abs_path ?es) = Some d"
    "(\<exists>n. n \<le> length ?es \<and> d = abs_path (take n ?es) \<and> abs_path (take n ?es @ [''go.work'']) = ''/r/go.work'') \<or>
     (\<forall>m. m \<le> length ?es \<longrightarrow> abs_path (take m ?es @ [''go.work'']) \<noteq> ''/r/go.work'')"
    using RootRepo_nearest [OF e(7), of ?fs] unfolding p by blast
  from d(2) e(4) obtain n where n: "n \<le> length ?es" "d = abs_path (take n ?es)" "abs_path (take n ?es @ [''go.work'']) = ''/r/go.work''"
    by (metis One_nat_def Suc_le_mono le0 length_Cons)
  from three [OF n(1)] n(3) e(3,5,6) have "n = 1" by auto
  with d(1) n(2) e(1,2) show ?thesis by simp
qed

subsection \<open>The runner\<close>



subsection \<open>Database URLs\<close>


definition ex_database :: Database where
  "ex_database = \<lparr>cd_Scheme = [], cd_User = ''app'', cd_Password = ''p@ss/w:d?'', cd_Host = ''db.internal'', cd_Port = 5432, cd_Name = ''todo'',
     cd_SSLMode = ''disable''\<rparr>"


text \<open>
  The URL that is logged says nothing about the credentials, when the scheme is the default one and the
  host, port and name take at least ten bytes: the masked text is the same for any other user and password.
\<close>

theorem mask_hides_credentials:
  assumes "cd_Scheme d = []" and "cd_User d \<noteq> []" and "u \<noteq> []"
    and "10 \<le> length (escape UHost (cd_Host d @ Port_String (cd_Port d)) @ db_tail d)"
  shows "maskDatabaseURL (Database_URL d) = maskDatabaseURL (Database_URL (d\<lparr>cd_User := u, cd_Password := p\<rparr>))"
proof -
  let ?t = "escape UHost (cd_Host d @ Port_String (cd_Port d)) @ db_tail d"
  have "maskDatabaseURL (''postgres://'' @ c @ ''@'' @ t) = ''postgres:/'' @ ''***'' @ drop (length t - 10) t" if "10 \<le> length t" for c t
  proof -
    have "drop (length (x @ t) - 10) (x @ t) = drop (length t - 10) t" for x using that by simp
    from this [of "''postgres://'' @ c @ ''@''"] that show ?thesis by (simp add: maskDatabaseURL_def)
  qed
  note this [OF assms(4)]
  moreover have "Database_URL d = ''postgres://'' @ db_credentials d @ ''@'' @ ?t"
    using Database_URL_parts [OF assms(2)] assms(1) by (simp add: db_scheme_def)
  moreover have "Database_URL (d\<lparr>cd_User := u, cd_Password := p\<rparr>) =
      ''postgres://'' @ db_credentials (d\<lparr>cd_User := u, cd_Password := p\<rparr>) @ ''@'' @ ?t"
    using Database_URL_parts [of "d\<lparr>cd_User := u, cd_Password := p\<rparr>"] assms(1,3) by (simp add: db_scheme_def)
  ultimately show ?thesis by (simp only:)
qed

theorem mask_hides_credentials_witness:
  "maskDatabaseURL (Database_URL ex_database) = maskDatabaseURL (Database_URL (ex_database\<lparr>cd_User := ''root'', cd_Password := ''x''\<rparr>))"
proof (rule mask_hides_credentials)
  have "11 \<le> length (cd_Host ex_database @ Port_String (cd_Port ex_database))" by (simp add: ex_database_def)
  then show "10 \<le> length (escape UHost (cd_Host ex_database @ Port_String (cd_Port ex_database)) @ db_tail ex_database)"
    using escape_length [of "cd_Host ex_database @ Port_String (cd_Port ex_database)" UHost] by simp
qed (simp_all add: ex_database_def)

end
