(* ===== verification/Migrator.thy ===== *)
theory Migrator
  imports Go_OS Scaffold_Slice
begin

text \<open>
  \<open>pkg/platform/db/migrator\<close>. Goose is not code of this repository: what it does with a migration
  directory is a parameter, but its package-level state (the base file system and the table name) is
  modelled, because the migrator sets it. Removing accents and changing case are Unicode tables and are
  parameters too; everything else that builds the file name is modelled.
\<close>

subsection \<open>The state of goose\<close>

datatype goose_op = GooseUp | GooseDown | GooseFix | GooseReset | GooseStatus

record 'f goose =
  g_baseFS :: "'f option"
  g_tableName :: string

record 'f Migrator =
  mg_fs :: 'f
  mg_dir :: string
  mg_tableName :: string

text \<open>\<open>apply_op\<close> runs an operation on the migrations of a directory of a file system with a version
  table; \<open>version\<close> reads the version table.\<close>

record ('f, 'd) goose_lib =
  gl_apply :: "'f option \<Rightarrow> string \<Rightarrow> string \<Rightarrow> goose_op \<Rightarrow> 'd \<Rightarrow> string option \<times> 'd"
  gl_version :: "string \<Rightarrow> 'd \<Rightarrow> string + int"

text \<open>\<open>New\<close>: \<open>schemaErr\<close> is the error of creating the schema, when there is a database.\<close>

definition Migrator_New ::
    "'f \<Rightarrow> string \<Rightarrow> string \<Rightarrow> string option \<Rightarrow> 'f goose \<Rightarrow> (string + 'f Migrator) \<times> 'f goose" where
  "Migrator_New fsys dir schemaName schemaErr g =
     (let g' = g\<lparr>g_baseFS := Some fsys\<rparr> in
      case schemaErr of Some e \<Rightarrow> (Inl e, g')
      | None \<Rightarrow> (Inr \<lparr>mg_fs = fsys, mg_dir = dir, mg_tableName = schemaName @ ''.goose_db_version''\<rparr>, g'))"

definition run_goose ::
    "('f, 'd) goose_lib \<Rightarrow> 'f Migrator \<Rightarrow> goose_op \<Rightarrow> 'f goose \<Rightarrow> 'd \<Rightarrow> string option \<times> 'f goose \<times> 'd" where
  "run_goose lib m op g d =
     (let g' = g\<lparr>g_tableName := mg_tableName m\<rparr> in
      case gl_apply lib (g_baseFS g') (g_tableName g') (mg_dir m) op d of (err, d') \<Rightarrow> (err, g', d'))"

definition then_version ::
    "('f, 'd) goose_lib \<Rightarrow> string option \<times> 'f goose \<times> 'd \<Rightarrow> (string + int) \<times> 'f goose \<times> 'd" where
  "then_version lib res = (case res of (Some e, g, d) \<Rightarrow> (Inl e, g, d)
     | (None, g, d) \<Rightarrow> (gl_version lib (g_tableName g) d, g, d))"

definition Migrator_Up :: "('f, 'd) goose_lib \<Rightarrow> 'f Migrator \<Rightarrow> 'f goose \<Rightarrow> 'd \<Rightarrow> (string + int) \<times> 'f goose \<times> 'd" where
  "Migrator_Up lib m g d = then_version lib (run_goose lib m GooseUp g d)"

definition Migrator_Down :: "('f, 'd) goose_lib \<Rightarrow> 'f Migrator \<Rightarrow> 'f goose \<Rightarrow> 'd \<Rightarrow> (string + int) \<times> 'f goose \<times> 'd" where
  "Migrator_Down lib m g d = then_version lib (run_goose lib m GooseDown g d)"

definition Migrator_Fix :: "('f, 'd) goose_lib \<Rightarrow> 'f Migrator \<Rightarrow> 'f goose \<Rightarrow> 'd \<Rightarrow> (string + int) \<times> 'f goose \<times> 'd" where
  "Migrator_Fix lib m g d = then_version lib (run_goose lib m GooseFix g d)"

definition Migrator_Reset :: "('f, 'd) goose_lib \<Rightarrow> 'f Migrator \<Rightarrow> 'f goose \<Rightarrow> 'd \<Rightarrow> (string + int) \<times> 'f goose \<times> 'd" where
  "Migrator_Reset lib m g d = then_version lib (run_goose lib m GooseReset g d)"

definition Migrator_Status :: "('f, 'd) goose_lib \<Rightarrow> 'f Migrator \<Rightarrow> 'f goose \<Rightarrow> 'd \<Rightarrow> string option \<times> 'f goose \<times> 'd" where
  "Migrator_Status lib m g d = run_goose lib m GooseStatus g d"

definition Migrator_Version :: "('f, 'd) goose_lib \<Rightarrow> 'f Migrator \<Rightarrow> 'f goose \<Rightarrow> 'd \<Rightarrow> (string + int) \<times> 'f goose \<times> 'd" where
  "Migrator_Version lib m g d =
     (let g' = g\<lparr>g_tableName := mg_tableName m\<rparr> in (gl_version lib (g_tableName g') d, g', d))"

subsection \<open>Names\<close>

definition ValidateDescription :: "string \<Rightarrow> string option" where
  "ValidateDescription description =
     (if description = [] then Some ''description is required''
      else if length description < 3 \<or> 100 < length description
      then Some ''description must be between 3 and 100 characters'' else None)"

text \<open>\<open>strings.ReplaceAll(s, "..", "")\<close>.\<close>

fun drop_dotdot :: "string \<Rightarrow> string" where
  "drop_dotdot [] = []"
| "drop_dotdot [c] = [c]"
| "drop_dotdot (c # d # s) = (if c = CHR ''.'' \<and> d = CHR ''.'' then drop_dotdot s else c # drop_dotdot (d # s))"

text \<open>\<open>[^a-zA-Z0-9_\-]\<close> replaced by a dash, rune by rune.\<close>

definition file_char :: "char \<Rightarrow> bool" where
  "file_char c = (lower_char c \<or> (65 \<le> (of_char c :: nat) \<and> (of_char c :: nat) \<le> 90) \<or> is_digit c \<or> c = CHR ''_'' \<or> c = CHR ''-'')"

function sanitize :: "string \<Rightarrow> string" where
  "sanitize [] = []"
| "sanitize (c # s) =
     (if file_char c then c # sanitize s else CHR ''-'' # sanitize (drop (snd (decodeRune (c # s))) (c # s)))"
  by pat_completeness auto
termination
  by (relation "measure length") (auto simp: decodeRune_width)

text \<open>\<open>-{2,}\<close> replaced by one dash.\<close>

fun collapse_dashes :: "string \<Rightarrow> string" where
  "collapse_dashes [] = []"
| "collapse_dashes [c] = [c]"
| "collapse_dashes (c # d # s) = (if c = CHR ''-'' \<and> d = CHR ''-'' then collapse_dashes (d # s) else c # collapse_dashes (d # s))"

definition trimSuffix :: "string \<Rightarrow> string \<Rightarrow> string" where
  "trimSuffix s sfx = (if suffix sfx s then take (length s - length sfx) s else s)"

definition sanitize_stem :: "string \<Rightarrow> string" where
  "sanitize_stem stem =
     (if stem = [] then []
      else collapse_dashes (sanitize (trimRight (trimLeft (path_clean (drop_dotdot (trim stem '' ''))) ''/'') ''/'')))"

definition normalizeFileName :: "(string \<Rightarrow> string + string) \<Rightarrow> string \<Rightarrow> string + string" where
  "normalizeFileName unaccent name =
     (if name = [] then Inl ''empty name''
      else (case unaccent name of Inl e \<Rightarrow> Inl e
        | Inr u \<Rightarrow> (let ext = path_ext u in Inr (sanitize_stem (trimSuffix u ext) @ ext))))"

text \<open>\<open>string(word[0])\<close> is the UTF-8 encoding of the byte's value.\<close>

definition byte_rune :: "char \<Rightarrow> string" where
  "byte_rune c = (let n = (of_char c :: nat) in
     if n < 128 then [c] else [char_of (0xC0 + n div 64 :: nat), char_of (0x80 + n mod 64 :: nat)])"

definition toCamelCase :: "(string \<Rightarrow> string) \<Rightarrow> (string \<Rightarrow> string) \<Rightarrow> string \<Rightarrow> string" where
  "toCamelCase upper lower s =
     (let v = replace_char (CHR ''_'') '' '' (replace_char (CHR ''-'') '' '' s) in
      join [] (map (\<lambda>word. case word of [] \<Rightarrow> [] | c # cs \<Rightarrow> upper (byte_rune c) @ lower cs) (Go_Strings.fields v)))"

subsection \<open>Templates\<close>

definition unlines :: "string list \<Rightarrow> string" where
  "unlines ls = concat (map (\<lambda>l. l @ [LF]) ls)"

definition sqlMigrationTemplate :: string where
  "sqlMigrationTemplate = unlines
     [''-- +goose Up'', ''-- +goose StatementBegin'', ''-- ** ADD YOUR SCHEMA CHANGES HERE **'', [], ''-- +goose StatementEnd'', [],
      ''-- +goose Down'', ''-- +goose StatementBegin'', ''-- ** ADD ROLLBACK LOGIC HERE **'', [], ''-- +goose StatementEnd'']"

definition tab :: string where
  "tab = [CHR 0x09]"

definition quoted :: "string \<Rightarrow> string" where
  "quoted s = [quote] @ s @ [quote]"

definition renderGoTemplate :: "(string \<Rightarrow> string) \<Rightarrow> (string \<Rightarrow> string) \<Rightarrow> string \<Rightarrow> string" where
  "renderGoTemplate upper lower i =
     (let c = toCamelCase upper lower i in unlines
       [''package migrations'', [], ''import ('', tab @ quoted ''context'', tab @ quoted ''database/sql'', [],
        tab @ quoted ''github.com/pressly/goose/v3'', '')'', [], ''//nolint:gochecknoinits // Goose wants it'', ''func init() {'',
        tab @ ''goose.AddMigrationContext(up'' @ c @ '', down'' @ c @ '')'', ''}'', [],
        ''func up'' @ c @ ''(ctx context.Context, tx *sql.Tx) error {'', tab @ ''// Implement migration logic here'', tab @ ''return nil'', ''}'', [],
        ''func down'' @ c @ ''(ctx context.Context, tx *sql.Tx) error {'', tab @ ''// Implement rollback logic here'', tab @ ''return nil'', ''}''])"

subsection \<open>Create\<close>

datatype MigrationType = SQLMigration | GoMigration

datatype create_err = BadDescription string | NormalizeErr string | MkdirErr string | WriteErr string

record create_env =
  ce_unaccent :: "string \<Rightarrow> string + string"
  ce_upper :: "string \<Rightarrow> string"
  ce_lower :: "string \<Rightarrow> string"
  ce_now :: time
  ce_mkdirAll :: "string \<Rightarrow> fsys \<Rightarrow> string option \<times> fsys"
  ce_writeErr :: "string \<Rightarrow> string option"
  ce_cwd :: "string + string"

definition migration_file :: "time \<Rightarrow> string \<Rightarrow> MigrationType \<Rightarrow> string" where
  "migration_file now desc mType =
     (let d = (if desc = ''test'' then ''try'' else desc) in
      time_format now @ ''_'' @ d @ (case mType of SQLMigration \<Rightarrow> ''.sql'' | GoMigration \<Rightarrow> ''.go''))"

definition migration_text :: "create_env \<Rightarrow> MigrationType \<Rightarrow> string" where
  "migration_text env mType = (case mType of SQLMigration \<Rightarrow> sqlMigrationTemplate
     | GoMigration \<Rightarrow> renderGoTemplate (ce_upper env) (ce_lower env) (time_format (ce_now env)))"

definition Migrator_Create ::
    "create_env \<Rightarrow> string \<Rightarrow> string \<Rightarrow> MigrationType \<Rightarrow> fsys \<Rightarrow> (create_err + string) \<times> fsys" where
  "Migrator_Create env targetDir description mType fs =
     (case ValidateDescription description of Some e \<Rightarrow> (Inl (BadDescription e), fs)
      | None \<Rightarrow> (case normalizeFileName (ce_unaccent env) description of Inl e \<Rightarrow> (Inl (NormalizeErr e), fs)
         | Inr desc \<Rightarrow>
            (let filePath = path_join [targetDir, migration_file (ce_now env) desc mType] in
             case ce_mkdirAll env targetDir fs of (Some e, fs1) \<Rightarrow> (Inl (MkdirErr e), fs1)
             | (None, fs1) \<Rightarrow> (case os_WriteFile (ce_writeErr env) fs1 filePath (migration_text env mType) of
                  Inl e \<Rightarrow> (Inl (WriteErr e), fs1)
                | Inr fs2 \<Rightarrow> (Inr (case path_abs (ce_cwd env) filePath of Inl _ \<Rightarrow> filePath | Inr p \<Rightarrow> p), fs2)))))"

subsection \<open>The migrate commands\<close>

text \<open>\<open>reader.ReadString\<close> up to a newline: the line with its newline and the rest of the input, or an
  error at the end of the input.\<close>

definition readString :: "string \<Rightarrow> string + string \<times> string" where
  "readString stdin = (case str_index stdin [LF] of None \<Rightarrow> Inl ''EOF''
     | Some i \<Rightarrow> Inr (take (Suc i) stdin, drop (Suc i) stdin))"

definition err_msg :: "string \<Rightarrow> string \<Rightarrow> string" where
  "err_msg msg e = msg @ '': '' @ e"

text \<open>The error of a command that ignores the version it gets.\<close>

definition discard :: "string \<Rightarrow> (string + int) \<times> 'f goose \<times> 'd \<Rightarrow> string option \<times> 'f goose \<times> 'd" where
  "discard msg r = (case r of (Inl e, g, d) \<Rightarrow> (Some (err_msg msg e), g, d) | (Inr _, g, d) \<Rightarrow> (None, g, d))"

datatype migrate_cmd = CmdUp | CmdDown | CmdVersion | CmdCreate string | CmdStatus | CmdFix | CmdReset

record ('f, 'd) migrate_state =
  ms_goose :: "'f goose"
  ms_db :: 'd
  ms_fs :: fsys

definition create_err_text :: "create_err \<Rightarrow> string" where
  "create_err_text e = (case e of BadDescription t \<Rightarrow> err_msg ''migration description is not valid'' t
     | NormalizeErr t \<Rightarrow> err_msg ''failed to normalize description'' t
     | MkdirErr t \<Rightarrow> err_msg ''failed to create migrations directory'' t
     | WriteErr t \<Rightarrow> err_msg ''failed to write migration file'' t)"

text \<open>The create command: description and type are read from the input; what it prints is left out.\<close>

definition migrateCreateCmd :: "create_env \<Rightarrow> string \<Rightarrow> string \<Rightarrow> fsys \<Rightarrow> string option \<times> fsys" where
  "migrateCreateCmd env targetDir stdin fs =
     (case readString stdin of Inl e \<Rightarrow> (Some (err_msg ''failed to read description'' e), fs)
      | Inr (line, rest) \<Rightarrow>
         (let description = trimSpace line in
          case ValidateDescription description of Some e \<Rightarrow> (Some (err_msg ''error retrieving description'' e), fs)
          | None \<Rightarrow> (case readString rest of Inl e \<Rightarrow> (Some (err_msg ''failed to read migration type'' e), fs)
             | Inr (choice, _) \<Rightarrow>
                (case (if trimSpace choice = ''1'' then Some SQLMigration else if trimSpace choice = ''2'' then Some GoMigration else None) of
                   None \<Rightarrow> (Some ''invalid migration type, choose 1 or 2'', fs)
                 | Some mType \<Rightarrow> (case Migrator_Create env targetDir description mType fs of
                      (Inl e, fs') \<Rightarrow> (Some (err_msg (''error retrieving migrations'' @ [CHR 0x27] @ '' version'') (create_err_text e)), fs')
                    | (Inr _, fs') \<Rightarrow> (None, fs'))))))"

definition migrateUpCmd :: "('f, 'd) goose_lib \<Rightarrow> 'f Migrator \<Rightarrow> 'f goose \<Rightarrow> 'd \<Rightarrow> string option \<times> 'f goose \<times> 'd" where
  "migrateUpCmd lib m g d = discard ''error running pending migrations'' (Migrator_Up lib m g d)"

definition migrateDownCmd :: "('f, 'd) goose_lib \<Rightarrow> 'f Migrator \<Rightarrow> 'f goose \<Rightarrow> 'd \<Rightarrow> string option \<times> 'f goose \<times> 'd" where
  "migrateDownCmd lib m g d = discard ''error rollbacking the last migration'' (Migrator_Down lib m g d)"

definition migrateVersionCmd :: "('f, 'd) goose_lib \<Rightarrow> 'f Migrator \<Rightarrow> 'f goose \<Rightarrow> 'd \<Rightarrow> string option \<times> 'f goose \<times> 'd" where
  "migrateVersionCmd lib m g d = discard (''error retrieving migrations'' @ [CHR 0x27] @ '' version'') (Migrator_Version lib m g d)"

definition migrateFixCmd :: "('f, 'd) goose_lib \<Rightarrow> 'f Migrator \<Rightarrow> 'f goose \<Rightarrow> 'd \<Rightarrow> string option \<times> 'f goose \<times> 'd" where
  "migrateFixCmd lib m g d = discard ''fixing migrations failed'' (Migrator_Fix lib m g d)"

definition migrateStatusCmd :: "('f, 'd) goose_lib \<Rightarrow> 'f Migrator \<Rightarrow> 'f goose \<Rightarrow> 'd \<Rightarrow> string option \<times> 'f goose \<times> 'd" where
  "migrateStatusCmd lib m g d = Migrator_Status lib m g d"

definition migrateResetCmd ::
    "('f, 'd) goose_lib \<Rightarrow> (string \<Rightarrow> string) \<Rightarrow> 'f Migrator \<Rightarrow> string \<Rightarrow> 'f goose \<Rightarrow> 'd \<Rightarrow> string option \<times> 'f goose \<times> 'd" where
  "migrateResetCmd lib lower m stdin g d =
     (case readString stdin of Inl e \<Rightarrow> (Some (err_msg ''failed to read response'' e), g, d)
      | Inr (choice, _) \<Rightarrow> (if lower (trimSpace choice) \<noteq> ''yes'' then (None, g, d)
          else discard ''rolling back all migrations'' (Migrator_Reset lib m g d)))"

definition with_db :: "('f, 'd) migrate_state \<Rightarrow> string option \<times> 'f goose \<times> 'd \<Rightarrow> string option \<times> ('f, 'd) migrate_state" where
  "with_db s r = (case r of (e, g, d) \<Rightarrow> (e, s\<lparr>ms_goose := g, ms_db := d\<rparr>))"

definition NewMigrateCmd ::
    "('f, 'd) goose_lib \<Rightarrow> create_env \<Rightarrow> 'f Migrator \<Rightarrow> migrate_cmd \<Rightarrow> string \<Rightarrow> ('f, 'd) migrate_state \<Rightarrow> string option \<times> ('f, 'd) migrate_state" where
  "NewMigrateCmd lib env m cmd stdin s = (case cmd of
     CmdUp \<Rightarrow> with_db s (migrateUpCmd lib m (ms_goose s) (ms_db s))
   | CmdDown \<Rightarrow> with_db s (migrateDownCmd lib m (ms_goose s) (ms_db s))
   | CmdVersion \<Rightarrow> with_db s (migrateVersionCmd lib m (ms_goose s) (ms_db s))
   | CmdCreate targetDir \<Rightarrow> (case migrateCreateCmd env targetDir stdin (ms_fs s) of (e, fs) \<Rightarrow> (e, s\<lparr>ms_fs := fs\<rparr>))
   | CmdStatus \<Rightarrow> with_db s (migrateStatusCmd lib m (ms_goose s) (ms_db s))
   | CmdFix \<Rightarrow> with_db s (migrateFixCmd lib m (ms_goose s) (ms_db s))
   | CmdReset \<Rightarrow> with_db s (migrateResetCmd lib (ce_lower env) m stdin (ms_goose s) (ms_db s)))"

text \<open>\<open>Migrate\<close>: \<open>openErr\<close>, \<open>pingErr\<close> and \<open>schemaErr\<close> are the errors of opening and pinging the database
  and of creating the schema; the schema itself is not part of the database state \<open>'d\<close>, which is what
  goose reads and writes.\<close>

definition Migrate ::
    "('f, 'd) goose_lib \<Rightarrow> create_env \<Rightarrow> string option \<Rightarrow> string option \<Rightarrow> string option \<Rightarrow> string \<Rightarrow> 'f \<Rightarrow> migrate_cmd \<Rightarrow> string \<Rightarrow>
     ('f, 'd) migrate_state \<Rightarrow> string option \<times> ('f, 'd) migrate_state" where
  "Migrate lib env openErr pingErr schemaErr schemaName migrationsFS cmd stdin s =
     (case openErr of Some e \<Rightarrow> (Some (err_msg ''can not open database connection'' e), s)
      | None \<Rightarrow> (case pingErr of Some e \<Rightarrow> (Some (err_msg ''can ping database connection'' e), s)
         | None \<Rightarrow> (case Migrator_New migrationsFS ''scripts'' schemaName schemaErr (ms_goose s) of
              (Inl e, g) \<Rightarrow> (Some (err_msg ''failed to create migrator'' e), s\<lparr>ms_goose := g\<rparr>)
            | (Inr m, g) \<Rightarrow> (case NewMigrateCmd lib env m cmd stdin (s\<lparr>ms_goose := g\<rparr>) of
                 (Some e, s') \<Rightarrow> (Some (err_msg ''failed to exceute migrate command'' e), s')
               | (None, s') \<Rightarrow> (None, s')))))"

subsection \<open>File names have no separator\<close>

lemma sanitize_chars: "c \<in> set (sanitize s) \<Longrightarrow> file_char c"
  by (induction s rule: sanitize.induct) (auto simp: file_char_def split: if_splits)

lemma set_collapse_dashes: "set (collapse_dashes s) \<subseteq> set s"
  by (induction s rule: collapse_dashes.induct) auto

lemma sanitize_stem_chars: "c \<in> set (sanitize_stem stem) \<Longrightarrow> file_char c"
  using set_collapse_dashes sanitize_chars by (fastforce simp: sanitize_stem_def split: if_splits)

lemma path_ext_no_slash: "slash \<notin> set (path_ext p)"
  by (auto simp: path_ext_def Let_def slash_def dest: set_takeWhileD)

lemma normalizeFileName_no_slash:
  assumes "normalizeFileName unaccent name = Inr n"
  shows "slash \<notin> set n"
proof -
  from assms obtain u where "n = sanitize_stem (trimSuffix u (path_ext u)) @ path_ext u"
    by (auto simp: normalizeFileName_def Let_def split: if_splits sum.splits)
  moreover have "\<not> file_char slash" by (simp add: file_char_def slash_def lower_char_def is_digit_def)
  ultimately show ?thesis using sanitize_stem_chars path_ext_no_slash by auto
qed

lemma time_format_no_slash: "slash \<notin> set (time_format t)"
proof -
  have p: "c \<in> set (pad w v) \<Longrightarrow> is_digit c" for c w v
    by (induction w arbitrary: v) (auto simp: is_digit_def)
  have "c \<in> set (time_format t) \<Longrightarrow> is_digit c" for c
    by (cases t) (auto simp: time_format_def dest: p show_nat_digits split: if_splits)
  then show ?thesis by (fastforce simp: is_digit_def slash_def)
qed

lemma migration_file_name:
  assumes "normalizeFileName unaccent name = Inr n"
  shows "path_name (migration_file now n mType)"
proof -
  have "slash \<notin> set (migration_file now n mType)"
    using normalizeFileName_no_slash [OF assms] time_format_no_slash [of now]
    by (cases mType) (auto simp: migration_file_def Let_def slash_def)
  moreover have "3 < length (migration_file now n mType)"
    by (cases now; cases mType) (auto simp: migration_file_def Let_def time_format_def)
  ultimately show ?thesis unfolding path_name_def by auto
qed

end
