(* ===== verification/Coverage.thy ===== *)
theory Coverage
  imports Go_OS Complex_Main
begin

text \<open>
  \<open>mmw test coverage\<close> (\<open>cmd/mmw/cmd/test/coverage.go\<close>): the module's name from go.mod, the arguments of
  \<open>go test\<close>, the rows read from its output, the table and the threshold. A finite \<open>float64\<close> is the
  rational number it stands for; \<open>strconv.ParseFloat\<close> and the two verbs that print one are the fields of
  \<open>float_lib\<close>. \<open>go test\<close> itself is a parameter: its standard output for given arguments.
\<close>

record float_lib =
  fl_parse :: "string \<Rightarrow> rat option"
  fl_fmt1 :: "rat \<Rightarrow> string"
  fl_fmt0 :: "rat \<Rightarrow> string"

record row =
  row_pkg :: string
  row_cov :: string
  row_pct :: rat
  row_status :: string
  row_hasTests :: bool

datatype cov_err = OpenGoMod string | ScanGoMod | NoModuleDirective | NoPackages | BelowMin string

subsection \<open>The module\<close>

definition module_line :: "string \<Rightarrow> string option" where
  "module_line raw = map_option trimSpace (cutPrefix (trimSpace raw) ''module '')"

fun first_some :: "('a \<Rightarrow> 'b option) \<Rightarrow> 'a list \<Rightarrow> 'b option" where
  "first_some f [] = None"
| "first_some f (x # xs) = (case f x of Some y \<Rightarrow> Some y | None \<Rightarrow> first_some f xs)"

definition moduleFromGoMod :: "fsys \<Rightarrow> cov_err + string" where
  "moduleFromGoMod fs =
     (case os_ReadFile fs ''go.mod'' of Inl e \<Rightarrow> Inl (OpenGoMod e)
      | Inr data \<Rightarrow> (case scan_default data of (ls, tooLong) \<Rightarrow>
          (case first_some module_line ls of Some m \<Rightarrow> Inr m
           | None \<Rightarrow> (if tooLong then Inl ScanGoMod else Inl NoModuleDirective))))"

subsection \<open>Rows\<close>

definition coverageStatus :: "rat \<Rightarrow> string" where
  "coverageStatus pct = (if pct = 100 then ''Full'' else if 80 \<le> pct then ''Good'' else if 50 \<le> pct then ''Partial''
     else if 20 \<le> pct then ''Low'' else ''Critical gap'')"

definition cutPercent :: "string \<Rightarrow> string option" where
  "cutPercent f = (if hasSuffix f ''%'' then Some (butlast f) else None)"

text \<open>The first field that ends in a percent sign decides, even when it is no number.\<close>

definition line_pct :: "float_lib \<Rightarrow> string list \<Rightarrow> rat" where
  "line_pct lib flds = (case first_some cutPercent flds of None \<Rightarrow> 0
     | Some before \<Rightarrow> (case fl_parse lib before of None \<Rightarrow> 0 | Some v \<Rightarrow> v))"

definition parseOKLine :: "float_lib \<Rightarrow> string \<Rightarrow> string \<Rightarrow> row option" where
  "parseOKLine lib line modName =
     (let flds = Go_Strings.fields line in
      if length flds < 2 then None
      else let pct = line_pct lib flds in
        Some \<lparr>row_pkg = trimPrefix (flds ! 1) (modName @ ''/''), row_cov = fl_fmt1 lib pct @ ''%'', row_pct = pct,
          row_status = coverageStatus pct, row_hasTests = True\<rparr>)"

definition em_dash :: string where
  "em_dash = [CHR 0xE2, CHR 0x80, CHR 0x94]"

definition parseNoTestLine :: "string \<Rightarrow> string \<Rightarrow> row option" where
  "parseNoTestLine line modName =
     (let flds = Go_Strings.fields line in
      if length flds < 2 then None
      else Some \<lparr>row_pkg = trimPrefix (flds ! 1) (modName @ ''/''), row_cov = em_dash, row_pct = 0,
        row_status = ''No test files'', row_hasTests = False\<rparr>)"

definition parse_line :: "float_lib \<Rightarrow> string \<Rightarrow> string \<Rightarrow> row option" where
  "parse_line lib modName raw =
     (let line = trimSpace raw in
      if hasPrefix line ''ok'' then parseOKLine lib line modName
      else if hasPrefix line ''?'' then parseNoTestLine line modName else None)"

definition parseOutput :: "float_lib \<Rightarrow> string \<Rightarrow> string \<Rightarrow> row list" where
  "parseOutput lib output modName = List.map_filter (parse_line lib modName) (split_on LF output)"

subsection \<open>The table\<close>

text \<open>A character of the box-drawing block, by its last byte.\<close>

definition box :: "char \<Rightarrow> string" where
  "box b = [CHR 0xE2, CHR 0x94, b]"

text \<open>Widths are counted in bytes, and \<open>%-*s\<close> pads to that many runes.\<close>

definition width :: "string \<Rightarrow> string list \<Rightarrow> nat" where
  "width title cells = foldl (\<lambda>w c. if w < length c then length c else w) (length title) cells"

definition pad_right :: "nat \<Rightarrow> string \<Rightarrow> string" where
  "pad_right w s = s @ replicate (w - runeCount s) CHR '' ''"

definition hline :: "nat \<times> nat \<times> nat \<Rightarrow> char \<Rightarrow> char \<Rightarrow> char \<Rightarrow> string" where
  "hline ws left mid right = (case ws of (w1, w2, w3) \<Rightarrow>
     (let fill = (\<lambda>w. concat (replicate (w + 2) (box CHR 0x80))) in
      box left @ fill w1 @ box mid @ fill w2 @ box mid @ fill w3 @ box right @ [LF]))"

definition dataRow :: "nat \<times> nat \<times> nat \<Rightarrow> string \<Rightarrow> string \<Rightarrow> string \<Rightarrow> string" where
  "dataRow ws p c s = (case ws of (w1, w2, w3) \<Rightarrow>
     (let bar = box CHR 0x82 in
      bar @ '' '' @ pad_right w1 p @ '' '' @ bar @ '' '' @ pad_right w2 c @ '' '' @ bar @ '' '' @ pad_right w3 s @ '' '' @ bar @ [LF]))"

definition printTable :: "row list \<Rightarrow> string" where
  "printTable rows =
     (let ws = (width ''Package'' (map row_pkg rows), width ''Coverage'' (map row_cov rows), width ''Status'' (map row_status rows));
          rule = hline ws CHR 0x9C CHR 0xBC CHR 0xA4 in
      hline ws CHR 0x8C CHR 0xAC CHR 0x90 @ dataRow ws ''Package'' ''Coverage'' ''Status'' @ rule @
      join rule (map (\<lambda>r. dataRow ws (row_pkg r) (row_cov r) (row_status r)) rows) @
      hline ws CHR 0x94 CHR 0xB4 CHR 0x98)"

subsection \<open>The command\<close>

record cov_options =
  co_tags :: "string list"
  co_short :: bool
  co_run :: string
  co_timeout :: string
  co_min :: rat

definition test_args :: "cov_options \<Rightarrow> string list \<Rightarrow> string list" where
  "test_args opts args =
     [''test''] @ (if args = [] then [''./...''] else args) @ [''-cover''] @
     (if co_short opts then [''-short''] else []) @
     (if co_run opts \<noteq> [] then [''-run'', co_run opts] else []) @
     (if co_timeout opts \<noteq> [] then [''-timeout'', co_timeout opts] else []) @
     (if co_tags opts \<noteq> [] then [''-tags'', join '','' (co_tags opts)] else [])"

definition below_min :: "cov_options \<Rightarrow> row list \<Rightarrow> row list" where
  "below_min opts rows = filter (\<lambda>r. row_hasTests r \<and> row_pct r < co_min opts) rows"

definition below_line :: "float_lib \<Rightarrow> row \<Rightarrow> string" where
  "below_line lib r = ''  '' @ pad_right 30 (row_pkg r) @ '' '' @ fl_fmt1 lib (row_pct r) @ ''%''"

text \<open>The result: the error, the standard output and the standard error.\<close>

definition coverage_run ::
    "float_lib \<Rightarrow> (string list \<Rightarrow> string) \<Rightarrow> cov_options \<Rightarrow> string list \<Rightarrow> fsys \<Rightarrow> cov_err option \<times> string \<times> string" where
  "coverage_run lib goTest opts args fs =
     (case moduleFromGoMod fs of Inl e \<Rightarrow> (Some e, [], [])
      | Inr modName \<Rightarrow>
         (let rows = parseOutput lib (goTest (test_args opts args)) modName in
          if rows = [] then (Some NoPackages, [], [])
          else let below = below_min opts rows in
            if 0 < co_min opts \<and> below \<noteq> []
            then (Some (BelowMin (fl_fmt0 lib (co_min opts) @ ''% minimum coverage threshold not met'')), printTable rows,
              [LF] @ ''coverage below '' @ fl_fmt0 lib (co_min opts) @ ''% threshold:'' @ [LF] @ join [LF] (map (below_line lib) below) @ [LF])
            else (None, printTable rows, [])))"

subsection \<open>What decides the result\<close>

lemma parseOutput_in: "r \<in> set (parseOutput lib output modName) \<longleftrightarrow> (\<exists>l \<in> set (split_on LF output). parse_line lib modName l = Some r)"
  by (auto simp: parseOutput_def map_filter_def) force+

lemma parse_line_tested:
  "parse_line lib modName l = Some r \<and> row_hasTests r \<longleftrightarrow>
   hasPrefix (trimSpace l) ''ok'' \<and> parseOKLine lib (trimSpace l) modName = Some r"
  by (auto simp: parse_line_def parseOKLine_def parseNoTestLine_def Let_def split: if_splits)

text \<open>A line that starts neither with \<open>ok\<close> nor with a question mark leaves no trace.\<close>

definition unread :: "string \<Rightarrow> bool" where
  "unread l \<longleftrightarrow> \<not> hasPrefix (trimSpace l) ''ok'' \<and> \<not> hasPrefix (trimSpace l) ''?''"

lemma parseOutput_unread:
  assumes "unread l" and "list_all (\<lambda>x. LF \<notin> set x) (pre @ l # post)" and "pre @ post \<noteq> []"
  shows "parseOutput lib (join [LF] (pre @ l # post)) modName = parseOutput lib (join [LF] (pre @ post)) modName"
proof -
  have "parse_line lib modName l = None" using assms(1) by (simp add: parse_line_def unread_def Let_def)
  moreover have "split_on LF (join [LF] (pre @ l # post)) = pre @ l # post" "split_on LF (join [LF] (pre @ post)) = pre @ post"
    using assms(2,3) by (auto intro!: split_on_join simp: list_all_iff)
  ultimately show ?thesis by (simp add: parseOutput_def map_filter_def)
qed

end
