(* ===== verification/Props_Tools.thy ===== *)
theory Props_Tools
  imports Archtest Migrator Platform_Core Coverage
begin

text \<open>
  Properties of the developer tools: what a passing architecture check guarantees and what it does not
  see, where the migrator writes, and what the coverage threshold looks at.
\<close>

subsection \<open>A passing architecture check\<close>










text \<open>A repository with one module and one contract definition; its \<open>go.work\<close> has the form the
  scaffold keeps, one use block. The contract requires the service module.\<close>

definition ex_arch_files :: "(string \<times> string) list" where
  "ex_arch_files =
     [(''/r/go.work'', work_text [''go 1.25'', []] [CHR 0x09 # ''./modules/core''] [[]]),
      (''/r/modules/core/go.mod'', ''module core'' @ [LF]),
      (''/r/modules/core/mise.toml'', ''[tasks.'' @ quoted ''arch:check'' @ '']'' @ [LF]),
      (''/r/contracts/definitions/core/go.mod'', join [LF] [''module contract'', ''require ('', ''core v0.1.0'', '')''])]"

definition ex_arch_fs :: fsys where
  "ex_arch_fs p = (case map_of ex_arch_files p of Some t \<Rightarrow> File t 420
     | None \<Rightarrow> (if p \<in> set [''/r/contracts/definitions'', ''/r/modules/core/internal/domain''] then Directory else Missing enoent))"

definition ex_arch :: arch_env where
  "ex_arch = \<lparr>ae_fs = ex_arch_fs,
     ae_readDir = (\<lambda>d. if d = ''/r/modules'' \<or> d = ''/r/contracts/definitions'' then Inr [(''core'', True)] else Inl enoent),
     ae_walk = (\<lambda>d. if d = ''/r/modules/core/internal/domain'' then [(''/r/modules/core/internal/domain/core.go'', None)] else []),
     ae_imports = (\<lambda>p. Inr [quoted ''fmt'']), ae_cwd = Inr ''/''\<rparr>"


lemma ex_arch_env [simp]:
  "ae_fs ex_arch = ex_arch_fs" "ae_readDir ex_arch ''/r/modules'' = Inr [(''core'', True)]"
  "ae_readDir ex_arch ''/r/contracts/definitions'' = Inr [(''core'', True)]"
  "ae_walk ex_arch ''/r/modules/core/internal/domain'' = [(''/r/modules/core/internal/domain/core.go'', None)]"
  "ae_walk ex_arch ''/r/contracts/definitions/core'' = []" "ae_imports ex_arch p = Inr [quoted ''fmt'']"
  by (simp_all add: ex_arch_def)




subsection \<open>What the architecture check does not see\<close>

lemma service_line_block:
  assumes "hasPrefix (trimSpace raw) ''use '' \<longrightarrow> trimSpace raw = ''use (''"
    and "path_abs (ae_cwd env) (path_join [repoRoot, ''('']) = Inr p"
    and "arch_readModuleName (ae_fs env) (path_join [p, ''go.mod'']) = None"
  shows "service_line env repoRoot absServices forbidden raw = forbidden"
proof (cases "hasPrefix (trimSpace raw) ''use ''")
  case True
  moreover have "trim (trimPrefix ''use ('' ''use '') [quote] = ''(''" by code_simp
  ultimately show ?thesis using assms by (simp add: service_line_def Let_def)
qed (simp add: service_line_def Let_def)

text \<open>Claim C24. The dependency check of contract definitions reads only single-line use directives. When
  \<open>go.work\<close> lists its modules in use blocks, as the scaffold requires and keeps it, no service module is
  forbidden, and the \<open>go.mod\<close> of a contract definition passes whatever it requires.\<close>

theorem contract_deps_unseen:
  assumes "repoRoot \<noteq> []" and "os_ReadFile (ae_fs env) (path_join [repoRoot, ''go.work'']) = Inr content"
    and "list_all (\<lambda>raw. hasPrefix (trimSpace raw) ''use '' \<longrightarrow> trimSpace raw = ''use ('') (split_on LF content)"
    and "path_abs (ae_cwd env) (path_join [repoRoot, ''('']) = Inr p"
    and "arch_readModuleName (ae_fs env) (path_join [p, ''go.mod'']) = None"
  shows "collectServiceModules env repoRoot = [] \<and>
     checkGoModPurity env (collectServiceModules env repoRoot) contractPath contractName = None"
proof -
  have "foldl (service_line env repoRoot absServices) [] ls = []"
    if "list_all (\<lambda>raw. hasPrefix (trimSpace raw) ''use '' \<longrightarrow> trimSpace raw = ''use ('') ls" for absServices ls
    using that by (induction ls) (simp_all add: service_line_block [OF _ assms(4,5)])
  with assms(1-3) have "collectServiceModules env repoRoot = []" by (simp add: collectServiceModules_def Let_def)
  then show ?thesis by (simp add: checkGoModPurity_def)
qed

theorem contract_deps_unseen_witness:
  "workModules ex_arch_fs ''/r'' = Inr [''modules/core''] \<and>
   arch_readModuleName ex_arch_fs ''/r/modules/core/go.mod'' = Some ''core'' \<and>
   checkGoModPurity ex_arch [''core''] ''/r/contracts/definitions/core'' ''core'' = Some (ForbiddenDependency ''core'' ''core'') \<and>
   checkGoModPurity ex_arch (collectServiceModules ex_arch ''/r'') ''/r/contracts/definitions/core'' ''core'' = None"
proof -
  let ?t = "work_text [''go 1.25'', []] [CHR 0x09 # ''./modules/core''] [[]]"
  have h: "os_ReadFile (ae_fs ex_arch) (path_join [''/r'', ''go.work'']) = Inr ?t"
    "list_all (\<lambda>raw. hasPrefix (trimSpace raw) ''use '' \<longrightarrow> trimSpace raw = ''use ('') (split_on LF ?t)"
    "path_abs (ae_cwd ex_arch) (path_join [''/r'', ''('']) = Inr ''/r/(''"
    "arch_readModuleName (ae_fs ex_arch) (path_join [''/r/('', ''go.mod'']) = None" by code_simp+
  have "workModules ex_arch_fs ''/r'' = Inr [''modules/core'']"
    "arch_readModuleName ex_arch_fs ''/r/modules/core/go.mod'' = Some ''core''"
    "checkGoModPurity ex_arch [''core''] ''/r/contracts/definitions/core'' ''core'' = Some (ForbiddenDependency ''core'' ''core'')"
    by code_simp+
  moreover have "checkGoModPurity ex_arch (collectServiceModules ex_arch ''/r'') ''/r/contracts/definitions/core'' ''core'' = None"
    by (rule conjunct2 [OF contract_deps_unseen [OF _ h]]) simp
  ultimately show ?thesis by simp
qed

subsection \<open>Where the migrator writes\<close>

lemma Migrator_Create_Inr:
  assumes "Migrator_Create env targetDir description mType fs = (Inr p, fs')"
  shows "\<exists>desc fs1. ValidateDescription description = None \<and> normalizeFileName (ce_unaccent env) description = Inr desc \<and>
     ce_mkdirAll env targetDir fs = (None, fs1) \<and>
     (let path = path_join [targetDir, migration_file (ce_now env) desc mType] in
      fs' = fs1(path := File (migration_text env mType) (node_mode (fs1 path))) \<and>
      p = (case path_abs (ce_cwd env) path of Inl _ \<Rightarrow> path | Inr q \<Rightarrow> q))"
  using assms by (auto simp: Migrator_Create_def os_WriteFile_def Let_def split: option.splits sum.splits prod.splits)

text \<open>Claim C21. Whatever the description contains, slashes and dots included, a created migration is one
  new file directly in the target directory, named after the current time with the extension of its
  type, holding the template; its path is what \<open>Create\<close> returns. When it fails it has written no file.\<close>

theorem create_in_directory:
  assumes "Migrator_Create env (abs_path es) description mType fs = (res, fs')" and "list_all path_name es"
    and "ce_mkdirAll env (abs_path es) fs = (mkErr, fs1)"
  shows "(\<forall>e. res = Inl e \<longrightarrow> fs' = fs \<or> fs' = fs1) \<and>
     (\<forall>p. res = Inr p \<longrightarrow> (\<exists>name. path_name name \<and> prefix (time_format (ce_now env) @ ''_'') name \<and>
        suffix (case mType of SQLMigration \<Rightarrow> ''.sql'' | GoMigration \<Rightarrow> ''.go'') name \<and>
        p = abs_path (es @ [name]) \<and> path_dir p = abs_path es \<and>
        fs' = fs1(p := File (migration_text env mType) (node_mode (fs1 p)))))"
proof (intro conjI allI impI)
  fix e assume "res = Inl e"
  with assms(1,3) show "fs' = fs \<or> fs' = fs1"
    by (auto simp: Migrator_Create_def os_WriteFile_def Let_def split: option.splits sum.splits prod.splits)
next
  fix p assume "res = Inr p"
  with Migrator_Create_Inr [of env "abs_path es" description mType fs p fs'] assms(1,3) obtain desc where
    n: "normalizeFileName (ce_unaccent env) description = Inr desc" and
    w: "let path = path_join [abs_path es, migration_file (ce_now env) desc mType] in
      fs' = fs1(path := File (migration_text env mType) (node_mode (fs1 path))) \<and>
      p = (case path_abs (ce_cwd env) path of Inl _ \<Rightarrow> path | Inr q \<Rightarrow> q)" by auto
  let ?name = "migration_file (ce_now env) desc mType"
  have es: "list_all path_name (es @ [?name])" using assms(2) migration_file_name [OF n] by simp
  have "path_abs (ce_cwd env) (abs_path (es @ [?name])) = Inr (abs_path (es @ [?name]))"
    using path_clean_abs(1) [OF es] by (simp add: path_abs_def abs_path_def)
  with w have "p = abs_path (es @ [?name])" "fs' = fs1(p := File (migration_text env mType) (node_mode (fs1 p)))"
    by (simp_all add: path_join_abs [OF es] Let_def)
  moreover have "prefix (time_format (ce_now env) @ ''_'') ?name"
    "suffix (case mType of SQLMigration \<Rightarrow> ''.sql'' | GoMigration \<Rightarrow> ''.go'') ?name"
    by (auto simp: migration_file_def Let_def suffix_def split: MigrationType.splits)
  ultimately show "\<exists>name. path_name name \<and> prefix (time_format (ce_now env) @ ''_'') name \<and>
      suffix (case mType of SQLMigration \<Rightarrow> ''.sql'' | GoMigration \<Rightarrow> ''.go'') name \<and>
      p = abs_path (es @ [name]) \<and> path_dir p = abs_path es \<and>
      fs' = fs1(p := File (migration_text env mType) (node_mode (fs1 p)))"
    using migration_file_name [OF n] path_dir_abs [OF es] by blast
qed

definition ex_create :: create_env where
  "ex_create = \<lparr>ce_unaccent = Inr, ce_upper = (\<lambda>s. s), ce_lower = (\<lambda>s. s), ce_now = (2025, 1, 2, 3, 4, 5),
     ce_mkdirAll = (\<lambda>_ fs. (None, fs)), ce_writeErr = (\<lambda>_. None), ce_cwd = Inr ''/''\<rparr>"

theorem create_in_directory_witness:
  "\<exists>name. path_name name \<and> fst (Migrator_Create ex_create (abs_path [''m'']) ''../etc/passwd'' SQLMigration (\<lambda>_. Missing enoent)) =
     Inr (abs_path [''m'', name])"
proof -
  have n: "normalizeFileName (ce_unaccent ex_create) ''../etc/passwd'' = Inr ''etc-passwd''"
    "ValidateDescription ''../etc/passwd'' = None"
    by code_simp+
  obtain p fs' where c: "Migrator_Create ex_create (abs_path [''m'']) ''../etc/passwd'' SQLMigration (\<lambda>_. Missing enoent) = (Inr p, fs')"
    by (simp add: Migrator_Create_def n Let_def) (simp add: ex_create_def os_WriteFile_def)
  have "list_all path_name [''m'']" "ce_mkdirAll ex_create (abs_path [''m'']) (\<lambda>_. Missing enoent) = (None, \<lambda>_. Missing enoent)"
    by (simp_all add: path_name_def slash_def ex_create_def)
  from create_in_directory [OF c this] c show ?thesis by auto
qed

subsection \<open>Several migrators in one process\<close>

text \<open>Goose keeps its file system in a package variable that only \<open>New\<close> sets, while every
  operation sets the version table again. After a second migrator has been created, an operation of the
  first one uses its own directory and its own version table, but the file system of the second.\<close>

theorem migrators_share_fs:
  assumes "Migrator_New fsA dirA schemaA None g = (Inr a, g1)" and "Migrator_New fsB dirB schemaB None g1 = (Inr b, g2)"
  shows "Migrator_Up lib a g2 d = then_version lib
       (let (err, d') = gl_apply lib (Some fsB) (schemaA @ ''.goose_db_version'') dirA GooseUp d in
        (err, g2\<lparr>g_tableName := schemaA @ ''.goose_db_version''\<rparr>, d')) \<and>
     Migrator_Up lib b g2 d = then_version lib
       (let (err, d') = gl_apply lib (Some fsB) (schemaB @ ''.goose_db_version'') dirB GooseUp d in
        (err, g2\<lparr>g_tableName := schemaB @ ''.goose_db_version''\<rparr>, d')) \<and> mg_fs a = fsA"
  using assms by (auto simp: Migrator_New_def Migrator_Up_def run_goose_def Let_def)

theorem migrators_share_fs_witness:
  "\<exists>a b g1 g2. Migrator_New (1::nat) ''x'' ''a'' None \<lparr>g_baseFS = None, g_tableName = []\<rparr> = (Inr a, g1) \<and>
     Migrator_New 2 ''y'' ''b'' None g1 = (Inr b, g2) \<and> mg_fs a = 1 \<and>
     fst (Migrator_Up \<lparr>gl_apply = (\<lambda>f t dir op d. (None, f)), gl_version = (\<lambda>t f. Inr (case f of None \<Rightarrow> 0 | Some v \<Rightarrow> int v))\<rparr> a g2 None) = Inr 2"
proof -
  obtain a b g1 g2 where m: "Migrator_New (1::nat) ''x'' ''a'' None \<lparr>g_baseFS = None, g_tableName = []\<rparr> = (Inr a, g1)"
    "Migrator_New 2 ''y'' ''b'' None g1 = (Inr b, g2)" by (simp add: Migrator_New_def)
  let ?lib = "\<lparr>gl_apply = (\<lambda>f t dir op d. (None, f)), gl_version = (\<lambda>t f. Inr (case f of None \<Rightarrow> 0 | Some v \<Rightarrow> int v))\<rparr>"
  have "fst (Migrator_Up ?lib a g2 None) = Inr 2" "mg_fs a = 1"
    using migrators_share_fs [OF m, of ?lib None] by (simp_all add: then_version_def)
  with m show ?thesis by blast
qed

subsection \<open>What a migrate command touches\<close>




lemma db_of [simp]:
  "snd (snd (discard msg r)) = snd (snd r)" "snd (snd (then_version lib q)) = snd (snd q)" "ms_db (snd (with_db s q)) = snd (snd q)"
  "ms_fs (snd (with_db s q)) = ms_fs s"
  by (auto simp: discard_def then_version_def with_db_def split: prod.splits sum.splits option.splits)





subsection \<open>Matching of forbidden imports\<close>

text \<open>The comment on the match gives \<open>/my-contracts-util\<close> as a path that is not matched, but it is; a
  package whose last element ends in \<open>-contracts\<close> is not.\<close>

lemma segment_match_examples:
  "names_segment ''contracts'' ''example.com/my-contracts-util'' \<and> \<not> names_segment ''contracts'' ''example.com/mmw-contracts''"
  by code_simp

subsection \<open>The coverage threshold\<close>

text \<open>
  \<open>mmw test coverage --min\<close> succeeds exactly when the module is known, some package was read, and every
  package that \<open>go test\<close> reported with \<open>ok\<close> has at least the coverage asked for; the exit code depends on
  nothing else of the output.
\<close>

theorem coverage_min_enforced:
  assumes "moduleFromGoMod fs = Inr m" and "0 < co_min opts"
  shows "fst (coverage_run lib goTest opts args fs) = None \<longleftrightarrow>
    parseOutput lib (goTest (test_args opts args)) m \<noteq> [] \<and>
    (\<forall>l r. l \<in> set (split_on LF (goTest (test_args opts args))) \<and> hasPrefix (trimSpace l) ''ok'' \<and>
       parseOKLine lib (trimSpace l) m = Some r \<longrightarrow> co_min opts \<le> row_pct r)"
proof -
  let ?o = "goTest (test_args opts args)"
  have "below_min opts (parseOutput lib ?o m) = [] \<longleftrightarrow>
      (\<forall>l r. l \<in> set (split_on LF ?o) \<and> parse_line lib m l = Some r \<and> row_hasTests r \<longrightarrow> co_min opts \<le> row_pct r)"
    by (auto simp: below_min_def filter_empty_conv parseOutput_in not_less)
  also have "\<dots> \<longleftrightarrow> (\<forall>l r. l \<in> set (split_on LF ?o) \<and> hasPrefix (trimSpace l) ''ok'' \<and>
      parseOKLine lib (trimSpace l) m = Some r \<longrightarrow> co_min opts \<le> row_pct r)"
    by (simp add: parse_line_tested)
  finally have "below_min opts (parseOutput lib ?o m) = [] \<longleftrightarrow> (\<forall>l r. l \<in> set (split_on LF ?o) \<and> hasPrefix (trimSpace l) ''ok'' \<and>
      parseOKLine lib (trimSpace l) m = Some r \<longrightarrow> co_min opts \<le> row_pct r)" .
  moreover have "fst (coverage_run lib goTest opts args fs) = None \<longleftrightarrow>
      parseOutput lib ?o m \<noteq> [] \<and> below_min opts (parseOutput lib ?o m) = []"
    using assms by (simp add: coverage_run_def Let_def)
  ultimately show ?thesis by (simp only:)
qed

definition ex_float :: float_lib where
  "ex_float = \<lparr>fl_parse = (\<lambda>s. if s = ''85.7'' then Some (857 / 10) else None), fl_fmt1 = (\<lambda>_. ''85.7''), fl_fmt0 = (\<lambda>_. ''80'')\<rparr>"

definition ex_gomod :: fsys where
  "ex_gomod = (\<lambda>_. Missing enoent)(''go.mod'' := File (''module m'' @ [LF]) 420)"

definition ex_output :: string where
  "ex_output = ''ok m/a 0.1s coverage: 85.7% of statements''"

definition ex_cov :: cov_options where
  "ex_cov = \<lparr>co_tags = [], co_short = False, co_run = [], co_timeout = [], co_min = 80\<rparr>"

lemma ex_rows: "parseOKLine ex_float ex_output ''m'' =
    Some \<lparr>row_pkg = ''a'', row_cov = ''85.7%'', row_pct = 857 / 10, row_status = ''Good'', row_hasTests = True\<rparr>"
proof -
  have "Go_Strings.fields ex_output = [''ok'', ''m/a'', ''0.1s'', ''coverage:'', ''85.7%'', ''of'', ''statements'']" by code_simp
  then show ?thesis
    by (simp add: parseOKLine_def line_pct_def cutPercent_def hasSuffix_def suffix_def ex_float_def trimPrefix_def coverageStatus_def)
qed

theorem coverage_min_enforced_witness:
  "fst (coverage_run ex_float (\<lambda>_. ex_output) ex_cov [] ex_gomod) = None"
proof -
  have "moduleFromGoMod ex_gomod = Inr ''m''" by code_simp
  moreover have s: "split_on LF ex_output = [ex_output]" "trimSpace ex_output = ex_output" "hasPrefix ex_output ''ok''" by code_simp+
  moreover have "parseOutput ex_float ex_output ''m'' \<noteq> []"
    by (simp add: parseOutput_def s parse_line_def ex_rows map_filter_simps)
  ultimately show ?thesis
    using coverage_min_enforced [of ex_gomod "''m''" ex_cov ex_float "\<lambda>_. ex_output" "[]"] ex_rows by (auto simp: ex_cov_def)
qed

text \<open>
  What the threshold does not see: a line of the output that starts neither with \<open>ok\<close> nor with a question
  mark changes nothing, and those are the lines \<open>go test\<close> prints for a package whose tests fail
  (\<open>FAIL m/a 0.1s\<close>) and, with coverage on, for one that has no test file (\<open>m/a coverage: 0.0% of statements\<close>).
\<close>

theorem coverage_unread_lines:
  assumes "unread l" and "list_all (\<lambda>x. LF \<notin> set x) (pre @ l # post)" and "pre @ post \<noteq> []"
    and "\<And>a. goTest a = join [LF] (pre @ l # post)" and "\<And>a. goTest' a = join [LF] (pre @ post)"
  shows "coverage_run lib goTest opts args fs = coverage_run lib goTest' opts args fs"
proof -
  have "parseOutput lib (goTest (test_args opts args)) m = parseOutput lib (goTest' (test_args opts args)) m" for m
    unfolding assms(4,5) by (rule parseOutput_unread [OF assms(1-3)])
  then show ?thesis by (simp only: coverage_run_def)
qed

theorem coverage_unread_lines_witness:
  "unread ''FAIL m/b 0.2s'' \<and> unread (CHR 0x09 # ''m/c coverage: 0.0% of statements'') \<and>
   coverage_run ex_float (\<lambda>_. join [LF] [ex_output, ''FAIL m/b 0.2s'']) ex_cov [] ex_gomod =
   coverage_run ex_float (\<lambda>_. join [LF] [ex_output]) ex_cov [] ex_gomod"
proof -
  have u: "unread ''FAIL m/b 0.2s''" "unread (CHR 0x09 # ''m/c coverage: 0.0% of statements'')" by code_simp+
  moreover have "LF \<notin> set ex_output" "LF \<notin> set ''FAIL m/b 0.2s''" by (simp_all add: ex_output_def LF_def)
  ultimately show ?thesis
    using coverage_unread_lines [OF u(1), of "[ex_output]" "[]" "\<lambda>_. join [LF] [ex_output, ''FAIL m/b 0.2s'']"
      "\<lambda>_. join [LF] [ex_output]" ex_float ex_cov "[]" ex_gomod] by simp
qed

end
