(* ===== verification/Http_Server.thy ===== *)
theory Http_Server
  imports Http_Middleware Platform_Core
begin

text \<open>
  The router of \<open>net/http\<close> as the server and the generated modules use it (\<open>http.ServeMux\<close>,
  \<open>http.StripPrefix\<close>, \<open>http.NotFound\<close>), and \<open>NewHTTPServer\<close> of \<open>pkg/platform/server\<close>: its routes, its
  chain of middlewares and its settings. Patterns have no wildcards and no host, paths no percent
  escapes. The CORS, pprof and reflection libraries and the encoders are parameters.
\<close>

subsection \<open>net/http: errors and routing\<close>

definition http_Error :: "string \<Rightarrow> nat \<Rightarrow> op list" where
  "http_Error msg code = [SetHeader ''Content-Type'' ''text/plain; charset=utf-8'',
     SetHeader ''X-Content-Type-Options'' ''nosniff'', WriteHeader code, WriteBody (msg @ [LF])]"

definition answer :: "op list \<Rightarrow> result" where
  "answer ops = \<lparr>r_exit = Returned, r_ops = ops, r_logs = []\<rparr>"

definition NotFound :: handler where
  "NotFound r = answer (http_Error ''404 page not found'' 404)"

definition StripPrefix :: "string \<Rightarrow> handler \<Rightarrow> handler" where
  "StripPrefix pre h r =
     (if pre = [] then h r
      else let p = trimPrefix (rq_path r) pre in
        if length p < length (rq_path r) then h (r\<lparr>rq_path := p\<rparr>) else NotFound r)"

record route =
  rt_method :: "string option"
  rt_path :: string
  rt_handler :: handler

definition handle :: "string \<Rightarrow> handler \<Rightarrow> route" where
  "handle p h = \<lparr>rt_method = None, rt_path = p, rt_handler = h\<rparr>"

definition handle_get :: "string \<Rightarrow> handler \<Rightarrow> route" where
  "handle_get p h = \<lparr>rt_method = Some ''GET'', rt_path = p, rt_handler = h\<rparr>"

text \<open>A pattern that ends in a slash matches the paths below it; a pattern for GET matches HEAD too.\<close>

definition path_matches :: "string \<Rightarrow> string \<Rightarrow> bool" where
  "path_matches pat p = (if hasSuffix pat [slash] then hasPrefix p pat else pat = p)"

definition method_matches :: "string option \<Rightarrow> string \<Rightarrow> bool" where
  "method_matches rm m = (case rm of None \<Rightarrow> True | Some x \<Rightarrow> x = m \<or> x = ''GET'' \<and> m = ''HEAD'')"

text \<open>The most specific of the matching patterns is chosen: the longer path, then the one with a
  method.\<close>

definition more_specific :: "route \<Rightarrow> route \<Rightarrow> bool" where
  "more_specific a b = (length (rt_path b) < length (rt_path a) \<or> rt_path a = rt_path b \<and> rt_method a \<noteq> None)"

definition pick :: "route option \<Rightarrow> route \<Rightarrow> route option" where
  "pick acc rt = (case acc of None \<Rightarrow> Some rt | Some b \<Rightarrow> if more_specific rt b then Some rt else Some b)"

definition mux_match :: "route list \<Rightarrow> string \<Rightarrow> string \<Rightarrow> route option" where
  "mux_match routes m p =
     foldl pick None (filter (\<lambda>rt. path_matches (rt_path rt) p \<and> method_matches (rt_method rt) m) routes)"

definition exact_match :: "route option \<Rightarrow> string \<Rightarrow> bool" where
  "exact_match n p = (case n of None \<Rightarrow> False | Some rt \<Rightarrow> rt_path rt = p)"

definition cleanPath :: "string \<Rightarrow> string" where
  "cleanPath p =
     (if p = [] then [slash]
      else let p1 = (if hd p = slash then p else slash # p); np = path_clean p1 in
        if last p1 = slash \<and> np \<noteq> [slash] then np @ [slash] else np)"

definition allowed_methods :: "route list \<Rightarrow> string \<Rightarrow> string list" where
  "allowed_methods routes p = remdups (List.map_filter rt_method (filter (\<lambda>rt. path_matches (rt_path rt) p) routes))"

text \<open>\<open>redirect\<close> is the answer of \<open>http.RedirectHandler\<close> for a location.\<close>

definition mux_serve :: "(string \<Rightarrow> handler) \<Rightarrow> route list \<Rightarrow> handler" where
  "mux_serve redirect routes r =
     (let m = rq_method r;
          p = (if m = ''CONNECT'' then rq_path r else cleanPath (rq_path r));
          n = mux_match routes m p in
      if \<not> exact_match n p \<and> \<not> hasSuffix p [slash] \<and> exact_match (mux_match routes m (p @ [slash])) (p @ [slash])
      then redirect (p @ [slash]) r
      else if p \<noteq> rq_path r then redirect p r
      else (case n of Some rt \<Rightarrow> rt_handler rt r
        | None \<Rightarrow> (let ms = allowed_methods routes p in
            if ms \<noteq> [] then answer (SetHeader ''Allow'' (join '', '' ms) # http_Error ''Method Not Allowed'' 405) else NotFound r)))"

subsection \<open>Routing does not depend on the handlers\<close>

text \<open>Two routers with the same patterns whose handlers answer one request alike.\<close>

definition same_at :: "request \<Rightarrow> route \<Rightarrow> route \<Rightarrow> bool" where
  "same_at r a b \<longleftrightarrow> rt_method a = rt_method b \<and> rt_path a = rt_path b \<and> rt_handler a r = rt_handler b r"

lemma pick_same:
  assumes "rel_option (same_at r) x y" and "same_at r a b"
  shows "rel_option (same_at r) (pick x a) (pick y b)"
  using assms by (cases x; cases y) (auto simp: pick_def more_specific_def same_at_def)

lemma foldl_pick_same:
  "list_all2 (same_at r) as bs \<Longrightarrow> rel_option (same_at r) x y \<Longrightarrow>
   rel_option (same_at r) (foldl pick x as) (foldl pick y bs)"
  by (induction arbitrary: x y rule: list_all2_induct) (simp_all add: pick_same)

lemma filter_same:
  assumes "list_all2 (same_at r) as bs" and "\<And>a b. same_at r a b \<Longrightarrow> P a = P b"
  shows "list_all2 (same_at r) (filter P as) (filter P bs)"
  using assms(1) by (induction rule: list_all2_induct) (auto dest: assms(2))

lemma mux_match_same:
  assumes "list_all2 (same_at r) as bs"
  shows "rel_option (same_at r) (mux_match as m p) (mux_match bs m p)"
  unfolding mux_match_def
  by (intro foldl_pick_same filter_same [OF assms]) (auto simp: same_at_def)

lemma allowed_methods_same:
  assumes "list_all2 (same_at r) as bs"
  shows "allowed_methods as p = allowed_methods bs p"
proof -
  have "List.map_filter rt_method (filter (\<lambda>rt. path_matches (rt_path rt) p) as) =
      List.map_filter rt_method (filter (\<lambda>rt. path_matches (rt_path rt) p) bs)"
    using assms by (induction rule: list_all2_induct) (auto simp: same_at_def map_filter_simps split: option.splits)
  then show ?thesis by (simp add: allowed_methods_def)
qed

lemma exact_match_same: "rel_option (same_at r) x y \<Longrightarrow> exact_match x p = exact_match y p"
  by (cases x; cases y) (auto simp: exact_match_def same_at_def)

lemma mux_serve_same:
  assumes "list_all2 (same_at r) as bs"
  shows "mux_serve redirect as r = mux_serve redirect bs r"
proof -
  note m = mux_match_same [OF assms]
  have "(case mux_match as (rq_method r) p of None \<Rightarrow> z | Some rt \<Rightarrow> rt_handler rt r) =
      (case mux_match bs (rq_method r) p of None \<Rightarrow> z | Some rt \<Rightarrow> rt_handler rt r)" for p z
    using m [of "rq_method r" p] by (cases rule: option.rel_cases) (auto simp: same_at_def)
  then show ?thesis
    unfolding mux_serve_def Let_def by (simp only: exact_match_same [OF m] allowed_methods_same [OF assms])
qed

subsection \<open>NewHTTPServer\<close>

text \<open>The libraries: \<open>sl_cors\<close> the handler of the CORS library for the origins allowed, \<open>sl_pprof\<close> the
  profiling handlers by name, \<open>sl_reflect\<close> the reflection routes of the service names, \<open>sl_encode\<close> the
  JSON of the health messages, \<open>sl_buildInfo\<close> the process information, if the binary has it.\<close>

record 'v server_lib =
  sl_redirect :: "string \<Rightarrow> handler"
  sl_cors :: "string list \<Rightarrow> middleware"
  sl_pprof :: "string \<Rightarrow> handler"
  sl_reflect :: "string list \<Rightarrow> route list"
  sl_encode :: "(string, 'v monit_value) gomap \<Rightarrow> string"
  sl_buildInfo :: "string option"

record 'v HTTPServerInfra =
  hi_Config :: Server
  hi_Handler :: handler
  hi_HealthFns :: "(string \<times> (go_error + 'v)) list"
  hi_LogPayloads :: bool
  hi_ServiceNames :: "string list"

record HTTPServer =
  hs_addr :: string
  hs_handler :: handler
  hs_readHeaderTimeout :: int
  hs_idleTimeout :: int
  hs_cfg :: Server

definition info_handler :: "string option \<Rightarrow> handler" where
  "info_handler buildInfo r = answer ([SetHeader ''Content-Type'' ''application/json; charset=utf-8'', WriteHeader 200] @
     (case buildInfo of None \<Rightarrow> [] | Some b \<Rightarrow> [WriteBody b]))"

definition CORSMiddleware :: "'v server_lib \<Rightarrow> Server \<Rightarrow> middleware" where
  "CORSMiddleware lib cfg = sl_cors lib (cors_allowed cfg)"

definition debug_routes :: "'v server_lib \<Rightarrow> string list \<Rightarrow> route list" where
  "debug_routes lib names =
     [handle_get ''/debug/info'' (info_handler (sl_buildInfo lib)), handle ''/debug/pprof/'' (sl_pprof lib ''index''),
      handle ''/debug/pprof/cmdline'' (sl_pprof lib ''cmdline''), handle ''/debug/pprof/profile'' (sl_pprof lib ''profile''),
      handle ''/debug/pprof/symbol'' (sl_pprof lib ''symbol''), handle ''/debug/pprof/trace'' (sl_pprof lib ''trace'')] @
     (if names \<noteq> [] then sl_reflect lib names else [])"

definition server_routes :: "'v server_lib \<Rightarrow> 'v HTTPServerInfra \<Rightarrow> route list" where
  "server_routes lib infra =
     [handle_get ''/debug/monit'' (monit_handler (sl_encode lib) (hi_HealthFns infra))] @
     (if cs_DebugEnabled (hi_Config infra) then debug_routes lib (hi_ServiceNames infra) else []) @
     [handle ''/'' (hi_Handler infra)]"

text \<open>\<open>newID\<close> and \<open>elapsed\<close> are the request ID and the duration of the request being served.\<close>

definition NewHTTPServer :: "'v server_lib \<Rightarrow> string \<Rightarrow> string \<Rightarrow> 'v HTTPServerInfra \<Rightarrow> HTTPServer" where
  "NewHTTPServer lib newID elapsed infra0 =
     (let cfg = SetDefaults (hi_Config infra0);
          infra = infra0\<lparr>hi_Config := cfg\<rparr>;
          mux = mux_serve (sl_redirect lib) (server_routes lib infra) in
      \<lparr>hs_addr = cs_Host cfg @ '':'' @ itoa (sint (cs_Port cfg)),
       hs_handler = server_chain newID elapsed (hi_LogPayloads infra) (CORSMiddleware lib cfg) mux,
       hs_readHeaderTimeout = cs_ReadHeaderTimeout cfg, hs_idleTimeout = cs_IdleTimeout cfg, hs_cfg = cfg\<rparr>)"

subsection \<open>What reaches the application\<close>

text \<open>What the CORS library promises: it passes a request on as it came, or answers itself.\<close>

definition passes_on :: "middleware \<Rightarrow> bool" where
  "passes_on mw \<longleftrightarrow> (\<forall>n n' r. n r = n' r \<longrightarrow> mw n r = mw n' r)"

text \<open>The request as the application's handler sees it: the logging middleware has added the request ID
  and, when reading the body failed, emptied it.\<close>

definition seen_as :: "request \<Rightarrow> request \<Rightarrow> bool" where
  "seen_as r r' \<longleftrightarrow> rq_headers r' = rq_headers r \<and> rq_ctx r' = rq_ctx r \<and> rq_method r' = rq_method r \<and> rq_path r' = rq_path r"

lemma logging_same:
  assumes "\<And>r'. seen_as r r' \<Longrightarrow> n r' = n' r'"
  shows "LoggingMiddleware newID elapsed logPayloads n r = LoggingMiddleware newID elapsed logPayloads n' r"
proof -
  have "n ((if c then r\<lparr>rq_body := b\<rparr> else r)\<lparr>rq_requestID := i\<rparr>) = n' ((if c then r\<lparr>rq_body := b\<rparr> else r)\<lparr>rq_requestID := i\<rparr>)" for c b i
    by (rule assms) (simp add: seen_as_def)
  then show ?thesis unfolding LoggingMiddleware_def Let_def by (simp only:)
qed

lemma recovery_same: "n r = n' r \<Longrightarrow> RecoveryMiddleware n r = RecoveryMiddleware n' r"
  by (simp add: RecoveryMiddleware_def)

lemma server_same:
  assumes "passes_on (CORSMiddleware lib (SetDefaults (hi_Config infra)))"
    and "\<And>r'. seen_as r r' \<Longrightarrow> h r' = hi_Handler infra r'"
  shows "hs_handler (NewHTTPServer lib newID elapsed (infra\<lparr>hi_Handler := h\<rparr>)) r =
    hs_handler (NewHTTPServer lib newID elapsed infra) r"
proof -
  let ?i = "infra\<lparr>hi_Config := SetDefaults (hi_Config infra)\<rparr>" and ?j = "infra\<lparr>hi_Handler := h, hi_Config := SetDefaults (hi_Config infra)\<rparr>"
  have "mux_serve (sl_redirect lib) (server_routes lib ?j) r' = mux_serve (sl_redirect lib) (server_routes lib ?i) r'"
    if "seen_as r r'" for r'
    using assms(2) [OF that]
    by (intro mux_serve_same) (auto simp: server_routes_def same_at_def handle_def intro!: list_all2_appendI list_all2_refl)
  then have "CORSMiddleware lib (SetDefaults (hi_Config infra)) (mux_serve (sl_redirect lib) (server_routes lib ?j)) r' =
      CORSMiddleware lib (SetDefaults (hi_Config infra)) (mux_serve (sl_redirect lib) (server_routes lib ?i)) r'" if "seen_as r r'" for r'
    using assms(1) that unfolding passes_on_def by blast
  then have "LoggingMiddleware newID elapsed logPayloads (RecoveryMiddleware (CORSMiddleware lib (SetDefaults (hi_Config infra))
        (mux_serve (sl_redirect lib) (server_routes lib ?j)))) r =
      LoggingMiddleware newID elapsed logPayloads (RecoveryMiddleware (CORSMiddleware lib (SetDefaults (hi_Config infra))
        (mux_serve (sl_redirect lib) (server_routes lib ?i)))) r" for logPayloads
    by (intro logging_same recovery_same)
  from this [of "hi_LogPayloads infra"] show ?thesis by (simp add: NewHTTPServer_def Let_def server_chain_def)
qed

end
