(* ===== verification/Slice_Services.thy ===== *)
theory Slice_Services
  imports Slice_Inbound
begin

text \<open>
  The application services of a generated slice (\<open>application/[[.Entity]].go\<close>), their wiring on the real
  adapters (\<open>[[.Entity]]_wiring.go\<close>) and on the fakes of \<open>testhelpers\<close>, the proto form of the events, and
  the remaining inbound operations. The service on fakes is shown to be a faithful stand-in: the locale
  \<open>service_match\<close> relates two services whose answers cannot be told apart.
\<close>

subsection \<open>Read models and rows\<close>

record read_model =
  rm_ID :: int
  rm_Label :: Label
  rm_CreatedAt :: time
  rm_UpdatedAt :: time

definition fromModel_read :: "Snapshot \<Rightarrow> read_model" where
  "fromModel_read m = \<lparr>rm_ID = sn_ID m, rm_Label = ReconstituteLabel (sn_Label m), rm_CreatedAt = sn_CreatedAt m,
     rm_UpdatedAt = sn_UpdatedAt m\<rparr>"

definition toModel :: "Snapshot \<Rightarrow> Snapshot" where
  "toModel snap = \<lparr>sn_ID = sn_ID snap, sn_Label = sn_Label snap, sn_CreatedAt = sn_CreatedAt snap, sn_UpdatedAt = sn_UpdatedAt snap\<rparr>"

subsection \<open>Proto form of the events\<close>

text \<open>The proto messages by their fields; \<open>timestamppb.New\<close> keeps the time.\<close>

datatype proto_event = DeletedEvent string uuid time | SentEvent string uuid time

fun eventToProto :: "shape \<Rightarrow> event \<Rightarrow> proto_event option" where
  "eventToProto Gateway (Sent b label) =
     Some (SentEvent label (GetUserID (Sent b label)) (GetOccurredAt (Sent b label)))"
| "eventToProto Gateway (Deleted b label) = None"
| "eventToProto sh (Deleted b label) =
     Some (DeletedEvent (GetAggregateID (Deleted b label)) (GetUserID (Deleted b label)) (GetOccurredAt (Deleted b label)))"
| "eventToProto sh (Sent b label) = None"

subsection \<open>Application services\<close>

text \<open>Health ports answer a number (of rows) or a status.\<close>

record 's AppService =
  as_Get :: "ctx \<Rightarrow> int \<Rightarrow> 's \<Rightarrow> go_error + aggregate"
  as_Delete :: "time \<Rightarrow> ctx \<Rightarrow> int \<Rightarrow> 's \<Rightarrow> go_error option \<times> 's"
  as_Health :: "ctx \<Rightarrow> 's \<Rightarrow> go_error + nat"

definition svc_Health :: "('c \<Rightarrow> 's \<Rightarrow> go_error + 'h) \<Rightarrow> 'c \<Rightarrow> 's \<Rightarrow> go_error + 'h" where
  "svc_Health health c s = (case health c s of Inl e \<Rightarrow> Inl (Wrap ''health check'' e) | Inr n \<Rightarrow> Inr n)"

definition NewAppService :: "string \<Rightarrow> 's delete_ports \<Rightarrow> (ctx \<Rightarrow> 's \<Rightarrow> go_error + nat) \<Rightarrow> 's AppService" where
  "NewAppService entity ps health = \<lparr>as_Get = svc_Get entity ps, as_Delete = (\<lambda>now. svc_Delete entity now ps),
     as_Health = svc_Health health\<rparr>"

definition svc_Send :: "string \<Rightarrow> time \<Rightarrow> 's send_ports \<Rightarrow> ctx \<Rightarrow> string \<Rightarrow> 's \<Rightarrow> go_error option \<times> 's" where
  "svc_Send entity now ps c label s =
     (case SendExecute entity now ps c label s of (err, s') \<Rightarrow> (eris_wrap err (''send '' @ entity), s'))"

subsection \<open>Wiring on Postgres\<close>

definition pg_Health :: "string \<Rightarrow> db_env \<Rightarrow> ctx \<Rightarrow> slice_db store \<Rightarrow> go_error + nat" where
  "pg_Health entity env c st =
     (case dv_select env of Some e \<Rightarrow> Inl (Wrap (''counting '' @ entity @ ''s'') (Opaque e))
      | None \<Rightarrow> Inr (card (dom (db_rows (exec_read (getExecutor c) st)))))"

definition newService :: "string \<Rightarrow> db_env \<Rightarrow> tx_faults \<Rightarrow> slice_db store AppService" where
  "newService entity env flt = NewAppService entity (pg_ports entity env flt) (pg_Health entity env)"

text \<open>A read model: the row is mapped to the read model, and there is no command.\<close>

record 's ReadAppService =
  rs_Get :: "ctx \<Rightarrow> int \<Rightarrow> 's \<Rightarrow> go_error + read_model"
  rs_Health :: "ctx \<Rightarrow> 's \<Rightarrow> go_error + nat"

definition pg_FindByID_read :: "string \<Rightarrow> db_env \<Rightarrow> ctx \<Rightarrow> int \<Rightarrow> slice_db store \<Rightarrow> go_error + read_model" where
  "pg_FindByID_read entity env c i st =
     (case dv_select env of Some e \<Rightarrow> Inl (Wrap (''querying '' @ entity) (Opaque e))
      | None \<Rightarrow>
         (case db_rows (exec_read (getExecutor c) st) i of None \<Rightarrow> Inl (ErrNotFound entity)
          | Some m \<Rightarrow> Inr (fromModel_read m)))"

definition read_Get :: "string \<Rightarrow> (ctx \<Rightarrow> int \<Rightarrow> 's \<Rightarrow> go_error + read_model) \<Rightarrow> ctx \<Rightarrow> int \<Rightarrow> 's \<Rightarrow> go_error + read_model" where
  "read_Get entity finder c i s =
     (case ParseID entity i of Inl e \<Rightarrow> Inl (Wrap (''get '' @ entity) (Wrap (''invalid '' @ entity @ '' ID'') e))
      | Inr j \<Rightarrow> (case finder c j s of Inl e \<Rightarrow> Inl (Wrap (''get '' @ entity) (Wrap (''finding '' @ entity) e)) | Inr a \<Rightarrow> Inr a))"

definition NewReadAppService :: "string \<Rightarrow> (ctx \<Rightarrow> int \<Rightarrow> 's \<Rightarrow> go_error + read_model) \<Rightarrow> (ctx \<Rightarrow> 's \<Rightarrow> go_error + nat) \<Rightarrow> 's ReadAppService" where
  "NewReadAppService entity finder health = \<lparr>rs_Get = read_Get entity finder, rs_Health = svc_Health health\<rparr>"

definition newReadService :: "string \<Rightarrow> db_env \<Rightarrow> slice_db store ReadAppService" where
  "newReadService entity env = NewReadAppService entity (pg_FindByID_read entity env) (pg_Health entity env)"

text \<open>A gateway slice: the HTTP gateway and the publisher on the bus, whose state is the messages published.\<close>

record 's GatewayAppService =
  gs_Send :: "time \<Rightarrow> ctx \<Rightarrow> string \<Rightarrow> 's \<Rightarrow> go_error option \<times> 's"
  gs_Health :: "ctx \<Rightarrow> 's \<Rightarrow> go_error + int"

definition NewGatewayAppService :: "string \<Rightarrow> 's send_ports \<Rightarrow> (ctx \<Rightarrow> 's \<Rightarrow> go_error + int) \<Rightarrow> 's GatewayAppService" where
  "NewGatewayAppService entity ps health = \<lparr>gs_Send = (\<lambda>now. svc_Send entity now ps), gs_Health = svc_Health health\<rparr>"

definition newGatewayService ::
    "string \<Rightarrow> db_env \<Rightarrow> (http_request \<Rightarrow> string + int) \<Rightarrow> string option \<Rightarrow> (string \<Rightarrow> go_error + string) \<Rightarrow> (message \<Rightarrow> go_error option) \<Rightarrow>
     string \<Rightarrow> string \<Rightarrow> message list GatewayAppService" where
  "newGatewayService entity env client newReq marshal bus url token =
     NewGatewayAppService entity
       \<lparr>p_send = (\<lambda>c a log. (gw_Send entity client newReq marshal url token a, log)),
        p_publish = (\<lambda>c es log. bus_Publish entity env bus es log)\<rparr>
       (\<lambda>c log. gw_Health entity client newReq url token)"

text \<open>The read model of a row is the aggregate of the row without its events, and both slices fail alike.\<close>

definition as_read :: "aggregate \<Rightarrow> read_model" where
  "as_read a = \<lparr>rm_ID = ag_id a, rm_Label = ag_label a, rm_CreatedAt = ag_createdAt a, rm_UpdatedAt = ag_updatedAt a\<rparr>"

lemma read_service_agrees: "rs_Get (newReadService entity env) c i st = map_sum id as_read (as_Get (newService entity env flt) c i st)"
  by (auto simp: newReadService_def NewReadAppService_def newService_def NewAppService_def read_Get_def svc_Get_def GetExecute_def
      pg_ports_def pg_FindByID_read_def pg_FindByID_def fromModel_read_def fromModel_def Reconstitute_def as_read_def split: sum.splits option.splits)

subsection \<open>Fakes\<close>

definition mem_Len :: "mem \<Rightarrow> nat" where
  "mem_Len m = card (dom (mem_items m))"

definition mem_Health :: "ctx \<Rightarrow> mem \<Rightarrow> go_error + nat" where
  "mem_Health c m = Inr (mem_Len m)"

definition NoopDispatch :: "ctx \<Rightarrow> event list \<Rightarrow> 's \<Rightarrow> go_error option \<times> 's" where
  "NoopDispatch c es s = (None, s)"

definition NewTestService :: "string \<Rightarrow> mem AppService" where
  "NewTestService entity = NewAppService entity (mem_ports entity) mem_Health"

definition NewInMemoryRepo :: mem where
  "NewInMemoryRepo = \<lparr>mem_items = Map.empty, mem_events = []\<rparr>"

text \<open>The repository of a read model and the service on it.\<close>

type_synonym read_mem = "int \<rightharpoonup> read_model"

definition read_mem_Seed :: "read_model \<Rightarrow> read_mem \<Rightarrow> read_mem" where
  "read_mem_Seed a m = m(rm_ID a \<mapsto> a)"

definition read_mem_FindByID :: "string \<Rightarrow> ctx \<Rightarrow> int \<Rightarrow> read_mem \<Rightarrow> go_error + read_model" where
  "read_mem_FindByID entity c i m = (case m i of None \<Rightarrow> Inl (ErrNotFound entity) | Some a \<Rightarrow> Inr a)"

definition read_mem_Health :: "ctx \<Rightarrow> read_mem \<Rightarrow> go_error + nat" where
  "read_mem_Health c m = Inr (card (dom m))"

definition NewTestReadService :: "string \<Rightarrow> read_mem ReadAppService" where
  "NewTestReadService entity = NewReadAppService entity (read_mem_FindByID entity) read_mem_Health"

text \<open>Seeded with the rows of a table that can be read, it answers as the service on Postgres.\<close>

lemma read_fake_faithful:
  assumes "dv_select env = None" and "m = map_option fromModel_read \<circ> db_rows (exec_read (getExecutor c) st)"
  shows "rs_Get (newReadService entity env) c i st = rs_Get (NewTestReadService entity) c i m"
    and "rs_Health (newReadService entity env) c st = rs_Health (NewTestReadService entity) c m"
proof -
  show "rs_Get (newReadService entity env) c i st = rs_Get (NewTestReadService entity) c i m"
    by (auto simp: assms newReadService_def NewTestReadService_def NewReadAppService_def read_Get_def pg_FindByID_read_def read_mem_FindByID_def
        split: sum.splits option.splits)
  have "dom m = dom (db_rows (exec_read (getExecutor c) st))" by (auto simp: assms(2) dom_def)
  then show "rs_Health (newReadService entity env) c st = rs_Health (NewTestReadService entity) c m"
    by (simp add: assms(1) newReadService_def NewTestReadService_def NewReadAppService_def svc_Health_def pg_Health_def read_mem_Health_def)
qed

record fake_gateway =
  fg_Sent :: "gmessage list"
  fg_Err :: "go_error option"
  fg_Events :: "event list"

definition fake_Send :: "ctx \<Rightarrow> gmessage \<Rightarrow> fake_gateway \<Rightarrow> go_error option \<times> fake_gateway" where
  "fake_Send c a g = (case fg_Err g of Some e \<Rightarrow> (Some e, g) | None \<Rightarrow> (None, g\<lparr>fg_Sent := fg_Sent g @ [a]\<rparr>))"

definition fake_Health :: "ctx \<Rightarrow> fake_gateway \<Rightarrow> go_error + string" where
  "fake_Health c g = (case fg_Err g of Some e \<Rightarrow> Inl e | None \<Rightarrow> Inr ''ok'')"

definition RecordingPublish :: "ctx \<Rightarrow> event list \<Rightarrow> fake_gateway \<Rightarrow> go_error option \<times> fake_gateway" where
  "RecordingPublish c es g = (None, g\<lparr>fg_Events := fg_Events g @ es\<rparr>)"

definition fake_ports :: "fake_gateway send_ports" where
  "fake_ports = \<lparr>p_send = fake_Send, p_publish = RecordingPublish\<rparr>"

text \<open>With the fakes, the events published are those of the messages sent: one for each, in order.\<close>

definition sent_event :: "gmessage \<Rightarrow> event \<Rightarrow> bool" where
  "sent_event a e = (case e of Sent b label \<Rightarrow> label = lbl_value (gm_label a) \<and> be_AggregateID b = label | Deleted _ _ \<Rightarrow> False)"

lemma fake_send_events:
  assumes "list_all2 sent_event (fg_Sent g) (fg_Events g)" and "svc_Send entity now fake_ports c label g = (r, g')"
  shows "list_all2 sent_event (fg_Sent g') (fg_Events g')"
  using assms
  by (auto simp: svc_Send_def SendExecute_def fake_ports_def fake_Send_def RecordingPublish_def Let_def NewMessage_def
      MarkSent_def newSentEvent_def sent_event_def list_all2_appendI split: sum.splits option.splits prod.splits)

subsection \<open>Remaining inbound operations\<close>

definition handler_Send ::
    "error_codes \<Rightarrow> (go_error, int) gomap list \<Rightarrow> (int \<times> string \<Rightarrow> bool) \<Rightarrow> string \<Rightarrow> time \<Rightarrow> 's send_ports \<Rightarrow>
     ctx \<Rightarrow> string \<Rightarrow> 's \<Rightarrow> connect_error option \<times> 's" where
  "handler_Send ec tables detailOk entity now ps c label s =
     (case svc_Send entity now ps c label s of (err, s') \<Rightarrow> (map_option (connectErrorFrom ec tables detailOk) err, s'))"

definition inproc_Get ::
    "(go_error, int) gomap list \<Rightarrow> string \<Rightarrow> 's delete_ports \<Rightarrow> ctx \<Rightarrow> int \<Rightarrow> 's \<Rightarrow> go_error + Snapshot" where
  "inproc_Get tables entity ps c i s =
     (case svc_Get entity ps c i s of Inl e \<Rightarrow> Inl (Wrap (''get '' @ entity) (DomainErrorFor tables e))
      | Inr a \<Rightarrow> Inr (ToProto a))"

definition inproc_Send ::
    "(go_error, int) gomap list \<Rightarrow> string \<Rightarrow> time \<Rightarrow> 's send_ports \<Rightarrow> ctx \<Rightarrow> string \<Rightarrow> 's \<Rightarrow> go_error option \<times> 's" where
  "inproc_Send tables entity now ps c label s =
     (case svc_Send entity now ps c label s of
        (err, s') \<Rightarrow> (map_option (\<lambda>e. Wrap (''send '' @ entity) (DomainErrorFor tables e)) err, s'))"

definition ToProto_read :: "read_model \<Rightarrow> Snapshot" where
  "ToProto_read a = \<lparr>sn_ID = rm_ID a, sn_Label = lbl_value (rm_Label a), sn_CreatedAt = rm_CreatedAt a, sn_UpdatedAt = rm_UpdatedAt a\<rparr>"

text \<open>On the wire a row looks the same through both shapes, and is the row itself.\<close>

lemma ToProto_row: "ToProto (Reconstitute m) = m" "ToProto_read (fromModel_read m) = m"
  by (simp_all add: ToProto_def ToProto_read_def Reconstitute_def fromModel_read_def ReconstituteLabel_def)

subsection \<open>Sequences of calls\<close>

datatype svc_op = OpGet int | OpDelete int | OpHealth

datatype svc_answer = AGet "go_error + aggregate" | ADelete "go_error option" | AHealth "go_error + nat"

text \<open>A call: the time it happens, its context and the operation.\<close>

type_synonym svc_call = "time \<times> ctx \<times> svc_op"

fun serve :: "'s AppService \<Rightarrow> svc_call \<Rightarrow> 's \<Rightarrow> svc_answer \<times> 's" where
  "serve svc (now, c, OpGet i) s = (AGet (as_Get svc c i s), s)"
| "serve svc (now, c, OpDelete i) s = (case as_Delete svc now c i s of (r, s') \<Rightarrow> (ADelete r, s'))"
| "serve svc (now, c, OpHealth) s = (AHealth (as_Health svc c s), s)"

fun serves :: "'s AppService \<Rightarrow> svc_call list \<Rightarrow> 's \<Rightarrow> svc_answer list \<times> 's" where
  "serves svc [] s = ([], s)"
| "serves svc (x # xs) s = (case serve svc x s of (a, s1) \<Rightarrow> (case serves svc xs s1 of (as, s2) \<Rightarrow> (a # as, s2)))"

locale service_match =
  fixes A :: "'a AppService" and B :: "'b AppService" and rel :: "'a \<Rightarrow> 'b \<Rightarrow> bool" and allowed :: "svc_call \<Rightarrow> bool"
  assumes step: "rel a b \<Longrightarrow> allowed x \<Longrightarrow>
    fst (serve A x a) = fst (serve B x b) \<and> rel (snd (serve A x a)) (snd (serve B x b))"
begin

lemma same_answers:
  assumes "rel a b" and "list_all allowed xs"
  shows "fst (serves A xs a) = fst (serves B xs b) \<and> rel (snd (serves A xs a)) (snd (serves B xs b))"
  using assms
proof (induction xs arbitrary: a b)
  case (Cons x xs)
  then have "fst (serve A x a) = fst (serve B x b)" "rel (snd (serve A x a)) (snd (serve B x b))"
    using step by auto
  moreover from Cons.IH [OF this(2)] Cons.prems have
    "fst (serves A xs (snd (serve A x a))) = fst (serves B xs (snd (serve B x b)))"
    "rel (snd (serves A xs (snd (serve A x a)))) (snd (serves B xs (snd (serve B x b))))" by simp_all
  ultimately show ?case by (simp add: case_prod_beta)
qed simp

end

subsection \<open>The service on fakes answers like the service on Postgres\<close>

text \<open>Nothing fails, and every deleted event can be encoded.\<close>

definition healthy :: "string \<Rightarrow> db_env \<Rightarrow> tx_faults \<Rightarrow> bool" where
  "healthy entity env flt \<longleftrightarrow> dv_select env = None \<and> dv_delete env = None \<and> dv_insert env = None \<and>
     tf_begin flt = None \<and> tf_commit flt = None \<and>
     (\<forall>b l. \<exists>m. encode_event entity env (Deleted b l) = Inr m)"

definition encoded :: "string \<Rightarrow> db_env \<Rightarrow> event \<Rightarrow> string \<times> string \<times> time" where
  "encoded entity env e = (case encode_event entity env e of Inr (t, p) \<Rightarrow> (t, p, GetOccurredAt e) | Inl _ \<Rightarrow> ([], [], 0))"

definition outbox_content :: "oevent \<Rightarrow> string \<times> string \<times> time" where
  "outbox_content e = (oe_type e, oe_payload e, oe_occurred e)"

text \<open>The rows are the items, and the outbox rows added since the start are the recorded events.\<close>

definition mirrors ::
    "string \<Rightarrow> db_env \<Rightarrow> tx_faults \<Rightarrow> oevent list \<Rightarrow> slice_db store \<Rightarrow> mem \<Rightarrow> bool" where
  "mirrors entity env flt old st m \<longleftrightarrow> healthy entity env flt \<and>
     mem_items m = (\<lambda>i. map_option Reconstitute (db_rows (st_committed st) i)) \<and>
     map outbox_content (db_outbox (st_committed st)) = map outbox_content old @ map (encoded entity env) (mem_events m)"

definition outside_tx :: "svc_call \<Rightarrow> bool" where
  "outside_tx x \<longleftrightarrow> ctx_tx (fst (snd x)) = None"

lemma mem_ports_simps [simp]:
  "p_find (mem_ports entity) = mem_FindByID entity" "p_delete (mem_ports entity) = mem_Delete entity"
  "p_uow (mem_ports entity) = PassthroughUoW" "p_dispatch (mem_ports entity) = RecordingDispatch"
  by (simp_all add: mem_ports_def)

lemma mirror_find:
  assumes "mirrors entity env flt old st m" and "ctx_tx c = None"
  shows "pg_FindByID entity env c i st = mem_FindByID entity c i m"
  using assms by (auto simp: mirrors_def healthy_def pg_FindByID_def mem_FindByID_def getExecutor_def exec_read_def
      split: option.splits)

lemma mirror_health:
  assumes "mirrors entity env flt old st m" and "ctx_tx c = None"
  shows "pg_Health entity env c st = mem_Health c m"
  using assms by (simp add: mirrors_def healthy_def pg_Health_def mem_Health_def mem_Len_def getExecutor_def exec_read_def dom_def)

text \<open>The body of the delete command in a fresh transaction, and on the fakes.\<close>

lemma mirror_delete_absent:
  assumes "mirrors entity env flt old st m" and "ctx_tx c = None" and "db_rows (st_committed st) i = None"
  shows "WithTransaction flt c (delete_body entity now u i (pg_ports entity env flt)) st =
      (Some (Wrap (''finding '' @ entity @ '' to delete'') (ErrNotFound entity)), st) \<and>
    PassthroughUoW c (delete_body entity now u i (mem_ports entity)) m =
      (Some (Wrap (''finding '' @ entity @ '' to delete'') (ErrNotFound entity)), m)"
  using assms
  by (simp add: mirrors_def healthy_def WithTransaction_def PassthroughUoW_def delete_body_def pg_FindByID_def
      mem_FindByID_def getExecutor_def exec_read_def begin_root_def rollback_def)

lemma mirror_delete_present:
  assumes m: "mirrors entity env flt old st m" and c: "ctx_tx c = None" and row: "db_rows (st_committed st) i = Some row"
  obtains st' m' where
    "WithTransaction flt c (delete_body entity now u i (pg_ports entity env flt)) st = (None, st')"
    "PassthroughUoW c (delete_body entity now u i (mem_ports entity)) m = (None, m')" "mirrors entity env flt old st' m'"
proof -
  let ?e = "newDeletedEvent now u (Reconstitute row)"
  obtain t p where enc: "encode_event entity env ?e = Inr (t, p)"
    using m unfolding mirrors_def healthy_def newDeletedEvent_def by (metis surj_pair)
  have at: "GetOccurredAt ?e = now" by (simp add: GetOccurredAt_def newDeletedEvent_def)
  have evs: "ag_events (Delete now u (Reconstitute row)) = [?e]" by (simp add: Delete_def addEvent_def Reconstitute_def)
  let ?d = "insert_rows [(t, p, now)] ((st_committed st)\<lparr>db_rows := (db_rows (st_committed st))(i := None)\<rparr>)"
  let ?m = "m\<lparr>mem_items := (mem_items m)(i := None), mem_events := mem_events m @ [?e]\<rparr>"
  have h: "dv_select env = None" "dv_delete env = None" "dv_insert env = None" "tf_begin flt = None" "tf_commit flt = None"
    using m by (simp_all add: mirrors_def healthy_def)
  have "WithTransaction flt c (delete_body entity now u i (pg_ports entity env flt)) st = (None, st\<lparr>st_committed := ?d\<rparr>)"
    using h c row enc at evs
    by (simp add: WithTransaction_def delete_body_def pg_FindByID_def pg_Delete_def pg_Dispatch_def getExecutor_def
        exec_read_def exec_write_def begin_root_def commit_root_def build_models_single Let_def)
  moreover have "mem_items m i = Some (Reconstitute row)" using m row by (simp add: mirrors_def)
  then have "PassthroughUoW c (delete_body entity now u i (mem_ports entity)) m = (None, ?m)"
    using evs by (simp add: PassthroughUoW_def delete_body_def mem_FindByID_def mem_Delete_def RecordingDispatch_def)
  moreover have "mirrors entity env flt old (st\<lparr>st_committed := ?d\<rparr>) ?m"
    using m enc at by (auto simp: mirrors_def insert_rows_def outbox_content_def encoded_def fun_eq_iff)
  ultimately show thesis by (rule that)
qed

lemma mirror_delete:
  assumes "mirrors entity env flt old st m" and "ctx_tx c = None"
  shows "fst (svc_Delete entity now (pg_ports entity env flt) c i st) = fst (svc_Delete entity now (mem_ports entity) c i m) \<and>
    mirrors entity env flt old (snd (svc_Delete entity now (pg_ports entity env flt) c i st))
      (snd (svc_Delete entity now (mem_ports entity) c i m))"
proof (cases "UserIDFromContext c")
  case (Inl e)
  with assms show ?thesis by (simp add: svc_Delete_def DeleteExecute_def)
next
  case (Inr u)
  show ?thesis
  proof (cases "0 < i \<and> db_rows (st_committed st) i \<noteq> None")
    case True
    then obtain row where row: "db_rows (st_committed st) i = Some row" by blast
    obtain st' m' where
      "WithTransaction flt c (delete_body entity now u i (pg_ports entity env flt)) st = (None, st')"
      "PassthroughUoW c (delete_body entity now u i (mem_ports entity)) m = (None, m')" "mirrors entity env flt old st' m'"
      by (rule mirror_delete_present [OF assms row])
    with Inr True show ?thesis by (simp add: svc_Delete_def DeleteExecute_def ParseID_def)
  next
    case False
    then show ?thesis
    proof (cases "0 < i")
      case pos: True
      with False have "db_rows (st_committed st) i = None" by simp
      from mirror_delete_absent [OF assms this, of now u] Inr pos assms(1) show ?thesis
        by (simp add: svc_Delete_def DeleteExecute_def ParseID_def)
    qed (use Inr assms(1) in \<open>simp add: svc_Delete_def DeleteExecute_def ParseID_def\<close>)
  qed
qed

interpretation stand_in: service_match "newService entity env flt" "NewTestService entity" "mirrors entity env flt old" outside_tx
  for entity env flt old
proof
  fix st :: "slice_db store" and m x
  assume r: "mirrors entity env flt old st m" and "outside_tx x"
  moreover obtain now c op where x: "x = (now, c, op)" by (cases x)
  ultimately have c: "ctx_tx c = None" by (simp add: outside_tx_def)
  show "fst (serve (newService entity env flt) x st) = fst (serve (NewTestService entity) x m) \<and>
      mirrors entity env flt old (snd (serve (newService entity env flt) x st)) (snd (serve (NewTestService entity) x m))"
  proof (cases op)
    case (OpGet i)
    then show ?thesis using r mirror_find [OF r c]
      by (simp add: x newService_def NewTestService_def NewAppService_def svc_Get_def GetExecute_def split: sum.splits)
  next
    case (OpDelete i)
    then show ?thesis using mirror_delete [OF r c, of now i]
      by (simp add: x newService_def NewTestService_def NewAppService_def case_prod_beta)
  next
    case OpHealth
    then show ?thesis using r mirror_health [OF r c]
      by (simp add: x newService_def NewTestService_def NewAppService_def svc_Health_def)
  qed
qed

end
