(* ===== verification/Platform_Services.thy ===== *)
theory Platform_Services
  imports Http_Middleware Platform_Core
begin

text \<open>
  The small services of the platform: the logger of \<open>pkg/platform/slog\<close>, the colours of the migrator's
  log, the error-logging interceptor of \<open>pkg/platform/connect\<close>, the two Watermill buses and the connection
  pool. What the logging and messaging libraries print or send is a parameter.
\<close>

subsection \<open>slog.go\<close>

datatype attr_value = AttrError go_error | AttrText string | AttrJSON string

type_synonym attr = "string \<times> attr_value"

definition HandlerJSON :: int where
  "HandlerJSON = 0"

definition HandlerText :: int where
  "HandlerText = 1"

text \<open>\<open>toJSON\<close> is \<open>eris.ToJSON(err, true)\<close>.\<close>

definition replaceErr :: "(go_error \<Rightarrow> string) \<Rightarrow> int \<Rightarrow> attr \<Rightarrow> attr" where
  "replaceErr toJSON handlerType a = (case a of
     (key, AttrError e) \<Rightarrow> (if handlerType = HandlerJSON then (key, AttrJSON (toJSON e)) else (key, AttrText (error_text e)))
   | _ \<Rightarrow> a)"

datatype sink = Stdout | Stderr | Writer

text \<open>A handler of a logging library: where it writes, its level, whether it colours, the attributes and
  groups it was given with \<open>With\<close>.\<close>

record base_handler =
  bh_json :: bool
  bh_sink :: sink
  bh_level :: slog_level
  bh_noColor :: bool
  bh_addSource :: bool
  bh_attrs :: "attr list"
  bh_groups :: "string list"

datatype slog_handler = Base base_handler | ErisPostPrint slog_handler

definition txt_handler :: "sink \<Rightarrow> bool \<Rightarrow> slog_level \<Rightarrow> base_handler" where
  "txt_handler w noColor lvl = \<lparr>bh_json = False, bh_sink = w, bh_level = lvl, bh_noColor = noColor, bh_addSource = True,
     bh_attrs = [], bh_groups = []\<rparr>"

definition StdoutTxtHandler :: "(sink \<Rightarrow> bool) \<Rightarrow> slog_level \<Rightarrow> slog_handler" where
  "StdoutTxtHandler isTerminal lvl = Base (txt_handler Stdout (\<not> isTerminal Stdout) lvl)"

definition StderrTxtHandler :: "(sink \<Rightarrow> bool) \<Rightarrow> slog_level \<Rightarrow> slog_handler" where
  "StderrTxtHandler isTerminal lvl = Base (txt_handler Stderr (\<not> isTerminal Stderr) lvl)"

definition IOTxtHandler :: "slog_level \<Rightarrow> bool \<Rightarrow> slog_handler" where
  "IOTxtHandler lvl colorized = Base (txt_handler Writer (\<not> colorized) lvl)"

fun WithAttrs :: "attr list \<Rightarrow> slog_handler \<Rightarrow> slog_handler" where
  "WithAttrs as (Base b) = Base (b\<lparr>bh_attrs := bh_attrs b @ as\<rparr>)"
| "WithAttrs as (ErisPostPrint h) = ErisPostPrint (WithAttrs as h)"

fun WithGroup :: "string \<Rightarrow> slog_handler \<Rightarrow> slog_handler" where
  "WithGroup g (Base b) = Base (b\<lparr>bh_groups := bh_groups b @ [g]\<rparr>)"
| "WithGroup g (ErisPostPrint h) = ErisPostPrint (WithGroup g h)"

definition slog_New :: "(sink \<Rightarrow> bool) \<Rightarrow> int \<Rightarrow> slog_level \<Rightarrow> go_error + slog_handler" where
  "slog_New isTerminal handlerType logLevel =
     (if handlerType = HandlerJSON
      then Inr (Base \<lparr>bh_json = True, bh_sink = Stdout, bh_level = logLevel, bh_noColor = True, bh_addSource = False,
        bh_attrs = [], bh_groups = []\<rparr>)
      else Inr (ErisPostPrint (StdoutTxtHandler isTerminal logLevel)))"

text \<open>\<open>Handle\<close> on the attributes of a record: \<open>handleErr\<close> is the error of the library's handler; the stack
  traces printed below the line are those of the record's own error attributes.\<close>

definition stack_trace :: "(go_error \<Rightarrow> string) \<Rightarrow> attr \<Rightarrow> string list" where
  "stack_trace toString a = (case a of (key, AttrError e) \<Rightarrow>
       [[CHR 0xE2, CHR 0x86, CHR 0xB3] @ '' Stack Trace for ['' @ key @ '']:'' @ [LF] @ toString e @ [LF]] | _ \<Rightarrow> [])"

fun Handle :: "(base_handler \<Rightarrow> go_error option) \<Rightarrow> (go_error \<Rightarrow> string) \<Rightarrow> slog_handler \<Rightarrow> attr list \<Rightarrow> go_error option \<times> string list" where
  "Handle handleErr toString (Base b) as = (handleErr b, [])"
| "Handle handleErr toString (ErisPostPrint h) as =
     (case Handle handleErr toString h as of
        (Some e, out) \<Rightarrow> (Some (Wrap ''eris post Print handler fails'' e), out)
      | (None, out) \<Rightarrow> (None, out @ concat (map (stack_trace toString) as)))"

text \<open>A text logger keeps printing the traces after \<open>With\<close> and \<open>WithGroup\<close>.\<close>

lemma Handle_With:
  assumes "\<And>b. handleErr b = None"
  shows "Handle handleErr toString (WithAttrs xs h) as = Handle handleErr toString h as"
    and "Handle handleErr toString (WithGroup g h) as = Handle handleErr toString h as"
  by (induction h) (simp_all add: assms)

subsection \<open>migrator/log.go\<close>

datatype colour = ColorOK | ColorComment | ColorGooseOption | ColorDefault

definition getColorizer :: "string \<Rightarrow> colour option" where
  "getColorizer msg =
     (if contains msg ''StateMachine: '' then None
      else if hasPrefix msg ''OK '' \<or> contains msg ''successfully'' then Some ColorOK
      else if hasPrefix msg ''-- +goose'' then Some ColorGooseOption
      else if hasPrefix msg ''-- '' then Some ColorComment
      else Some ColorDefault)"

text \<open>\<open>Printf\<close> on the formatted message, and \<open>Println\<close> on the texts of its arguments: what is printed, and
  in which colour.\<close>

definition fancy_Printf :: "string \<Rightarrow> (colour \<times> string) option" where
  "fancy_Printf msg = map_option (\<lambda>c. (c, msg @ [LF])) (getColorizer msg)"

definition fancy_Println :: "string list \<Rightarrow> (colour \<times> string) option" where
  "fancy_Println vs = (let line = concat vs in map_option (\<lambda>c. (c, line @ [LF])) (getColorizer line))"

subsection \<open>connect/interceptors.go\<close>

text \<open>The error of a handler: a \<open>connect.Error\<close> with the error it was made of, or another error.\<close>

datatype rpc_error = ConnectError code "go_error option" | OtherError go_error

definition logged_error :: "(rpc_error \<Rightarrow> go_error) \<Rightarrow> rpc_error \<Rightarrow> go_error" where
  "logged_error as_error err = (case err of ConnectError _ (Some cause) \<Rightarrow> cause | _ \<Rightarrow> as_error err)"

definition NewErrorLoggingInterceptor ::
    "(rpc_error \<Rightarrow> go_error) \<Rightarrow> string \<Rightarrow> ('r \<Rightarrow> rpc_error + 'a) \<Rightarrow> 'r \<Rightarrow> (rpc_error + 'a) \<times> entry list" where
  "NewErrorLoggingInterceptor as_error procedure next req =
     (case next req of Inr resp \<Rightarrow> (Inr resp, [])
      | Inl err \<Rightarrow> (Inl err, [log_error ''handler error'' [(''procedure'', LString procedure), (''err'', LErr (logged_error as_error err))]]))"

text \<open>The connect error a generated handler returns, by its code and the error it is made of: the error
  itself when it is no domain error, and otherwise a new error with its text.\<close>

definition connect_cause :: "error_codes \<Rightarrow> (go_error, int) gomap list \<Rightarrow> go_error \<Rightarrow> rpc_error" where
  "connect_cause ec tables err =
     (case as_domain_error (DomainErrorFor tables err) of
        None \<Rightarrow> ConnectError CodeInternal (Some err)
      | Some (dcode, msg) \<Rightarrow> ConnectError (gm_get CodeInternal dcode (domainConnectCodeMap ec)) (Some (Opaque msg)))"

subsection \<open>Buses and the pool\<close>

text \<open>\<open>pub\<close> is the Watermill publisher, on a topic and a message's payload, \<open>newUUID\<close> the message's ID.\<close>

definition WatermillBus_Publish ::
    "(string \<Rightarrow> uuid \<times> string \<Rightarrow> 'b \<Rightarrow> go_error option \<times> 'b) \<Rightarrow> uuid \<Rightarrow> string \<Rightarrow> string \<Rightarrow> 'b \<Rightarrow> go_error option \<times> 'b" where
  "WatermillBus_Publish pub newUUID eventType payload bus =
     (case pub eventType (newUUID, payload) bus of
        (Some e, bus') \<Rightarrow> (Some (Wrap (''publishing '' @ eventType @ '' to the topic failed'') e), bus')
      | (None, bus') \<Rightarrow> (None, bus'))"

definition ieventbus_Publish ::
    "(string \<Rightarrow> uuid \<times> string \<Rightarrow> 'b \<Rightarrow> go_error option \<times> 'b) \<Rightarrow> uuid \<Rightarrow> string \<Rightarrow> string \<Rightarrow> 'b \<Rightarrow> go_error option \<times> 'b" where
  "ieventbus_Publish pub newUUID eventType payload bus =
     (case pub eventType (newUUID, payload) bus of (e, bus') \<Rightarrow> (eris_wrap e ''watermillBus publishing error'', bus'))"

text \<open>\<open>GetPgxPool\<close>: whether there is a pool afterwards, the error and what was logged.\<close>

definition GetPgxPool :: "string \<Rightarrow> go_error option \<Rightarrow> go_error option \<Rightarrow> bool \<times> go_error option \<times> entry list" where
  "GetPgxPool dbURL newErr pingErr =
     (let info = (\<lambda>msg fs. \<lparr>lg_level = LevelInfo, lg_msg = msg, lg_fields = fs\<rparr>);
          first = info ''connecting to database'' [(''url'', LString (maskDatabaseURL dbURL))] in
      case newErr of Some e \<Rightarrow> (False, Some (Wrap ''connecting to database'' e), [first])
      | None \<Rightarrow> (case pingErr of Some e \<Rightarrow> (True, Some (Wrap ''pinging database'' e), [first])
         | None \<Rightarrow> (True, None, [first, info ''database connection established'' []])))"

end
