(* ===== verification/Module_Root.thy ===== *)
theory Module_Root
  imports Http_Server Slice_Services Migrator Config_URL Platform_Services
begin

text \<open>
  The composition root of a generated module (\<open>[[.Name]].go\<close>), its configuration (\<open>infra/config\<close>), its
  main program and its migration command. The module's goroutines run in the group of \<open>Errgroup\<close>; the
  platform's runner runs the modules in another, so that an application is a group of groups. The
  template's conditions (\<open>.Database\<close>, \<open>.Grpc\<close>) are arguments.
\<close>

subsection \<open>infra/config\<close>

text \<open>The package variable \<open>conf\<close> is never assigned: the variable of the same name that \<open>Load\<close> fills is
  its own. \<open>fill\<close> is \<open>pfconfig.NewContext(...).Fill\<close> on a new configuration.\<close>

record gateway_config =
  gc_URL :: string
  gc_Token :: string

record module_config =
  mc_Database :: Database
  mc_Gateway :: gateway_config
  mc_Server :: Server
  mc_AuthServer :: Server
  mc_LogLevel :: string

definition config_Load ::
    "bool \<Rightarrow> (go_error + module_config) \<Rightarrow> module_config option \<Rightarrow> (go_error + module_config) \<times> module_config option" where
  "config_Load database fill conf =
     (case conf of Some c \<Rightarrow> (Inr c, conf)
      | None \<Rightarrow> ((case fill of Inl e \<Rightarrow> Inl (Wrap ''error filling config'' e)
          | Inr c \<Rightarrow> if database \<and> cd_Password (mc_Database c) = [] then Inl (Opaque ''database password is empty'') else Inr c), conf))"

subsection \<open>The routes of a module\<close>

text \<open>A slice as \<open>New\<close> wires it: the path and handler of its Connect service, its service name and the
  answer of its health function.\<close>

record 'v slice =
  sv_entity :: string
  sv_path :: string
  sv_handler :: handler
  sv_serviceName :: string
  sv_health :: "go_error + 'v"

definition mount :: "middleware \<Rightarrow> string \<times> handler \<Rightarrow> route list" where
  "mount authMiddleware ph = (case ph of (path, handler) \<Rightarrow>
     [handle path (authMiddleware handler), handle (''/api'' @ path) (StripPrefix ''/api'' (authMiddleware handler))])"

definition module_routes :: "(ctx \<Rightarrow> string \<Rightarrow> go_error + TokenValidation) \<Rightarrow> 'v slice list \<Rightarrow> route list" where
  "module_routes validate slices =
     concat (map (\<lambda>s. mount (BearerAuthMiddleware validate []) (sv_path s, sv_handler s)) slices)"

definition newHTTPServer ::
    "'v server_lib \<Rightarrow> string \<Rightarrow> string \<Rightarrow> module_config \<Rightarrow> (ctx \<Rightarrow> string \<Rightarrow> go_error + TokenValidation) \<Rightarrow> 'v slice list \<Rightarrow> HTTPServer" where
  "newHTTPServer lib newID elapsed cfg validate slices =
     NewHTTPServer lib newID elapsed
       \<lparr>hi_Config = mc_Server cfg, hi_Handler = mux_serve (sl_redirect lib) (module_routes validate slices),
        hi_HealthFns = map (\<lambda>s. (sv_entity s, sv_health s)) slices, hi_LogPayloads = True,
        hi_ServiceNames = map sv_serviceName slices\<rparr>"

subsection \<open>The module\<close>

record Module =
  md_name :: string
  md_relay :: "EventsRelay option"
  md_server :: "HTTPServer option"

definition relayTableName :: "string \<Rightarrow> string" where
  "relayTableName name = name @ ''.event''"

text \<open>\<open>loaded\<close> is what \<open>config.Load\<close> gives and \<open>routerErr\<close> the error of \<open>message.NewRouter\<close>.\<close>

definition newEventRouter :: "go_error option \<Rightarrow> go_error option" where
  "newEventRouter routerErr = eris_wrap routerErr ''failed to create event router''"

definition Module_New ::
    "bool \<Rightarrow> bool \<Rightarrow> string \<Rightarrow> (go_error + module_config) \<Rightarrow> go_error option \<Rightarrow> (module_config \<Rightarrow> HTTPServer) \<Rightarrow> go_error + Module" where
  "Module_New database grpc name loaded routerErr server =
     (case loaded of Inl e \<Rightarrow> Inl (Wrap ''app failed to load config'' e)
      | Inr cfg \<Rightarrow> (case newEventRouter routerErr of Some e \<Rightarrow> Inl e
         | None \<Rightarrow> (case (if database then map_sum id Some (NewEventsRelay (relayTableName name)) else Inr None) of
              Inl e \<Rightarrow> Inl (Wrap ''failed to create events relay'' (Opaque e))
            | Inr relay \<Rightarrow> Inr \<lparr>md_name = name, md_relay = relay, md_server = (if grpc then Some (server cfg) else None)\<rparr>)))"

definition Module_Close :: "Module \<Rightarrow> go_error option" where
  "Module_Close m = None"

definition Module_Handler :: "Module \<Rightarrow> handler option" where
  "Module_Handler m = map_option hs_handler (md_server m)"

text \<open>\<open>Migrate\<close> on a module's own migrations and schema.\<close>

definition Module_Migrate ::
    "('f, 'd) goose_lib \<Rightarrow> 'f \<Rightarrow> string \<Rightarrow> string option \<Rightarrow> 'f goose \<Rightarrow> 'd \<Rightarrow> string option \<times> 'f goose \<times> 'd" where
  "Module_Migrate lib migrationsFS schema schemaErr g d =
     (case Migrator_New migrationsFS ''scripts'' schema schemaErr g of
        (Inl e, g1) \<Rightarrow> (Some (err_msg ''failed to create migrator'' e), g1, d)
      | (Inr m, g1) \<Rightarrow> (case Migrator_Up lib m g1 d of
           (Inl e, g2, d2) \<Rightarrow> (Some (err_msg ''failed to migrate up'' e), g2, d2)
         | (Inr _, g2, d2) \<Rightarrow> (None, g2, d2)))"

subsection \<open>Start\<close>

datatype task = TaskServer | TaskRelay | TaskRouter

definition module_tasks :: "Module \<Rightarrow> task list" where
  "module_tasks m = (if md_server m \<noteq> None then [TaskServer] else []) @ (if md_relay m \<noteq> None then [TaskRelay] else []) @ [TaskRouter]"

text \<open>\<open>context.AfterFunc(gCtx, ...)\<close> closes the router when the group's context is cancelled.\<close>

definition router_closed :: "bool \<Rightarrow> bool" where
  "router_closed cancelled = cancelled"

text \<open>What a goroutine may return. The server: \<open>ListenAndServe\<close> may return at any time, and once the
  context is done \<open>Shutdown\<close> ends within its timeout, with or without an error. The relay returns when
  the context is done. \<open>routerRun closed r\<close> is what \<open>Run\<close> of the watermill router may return.\<close>

inductive task_ret :: "(bool \<Rightarrow> go_error option \<Rightarrow> bool) \<Rightarrow> task \<Rightarrow> bool \<Rightarrow> go_error option \<Rightarrow> bool" for routerRun where
  serve_ended: "task_ret routerRun TaskServer cancelled (HTTPServer_Start (ServeReturned e))"
| shut_down: "task_ret routerRun TaskServer True (HTTPServer_Start (CtxDone r))"
| relay_stopped: "task_ret routerRun TaskRelay True None"
| router_ended: "routerRun (router_closed cancelled) r \<Longrightarrow> task_ret routerRun TaskRouter cancelled r"

inductive_simps task_ret_simps:
  "task_ret routerRun TaskServer c r" "task_ret routerRun TaskRelay c r" "task_ret routerRun TaskRouter c r"

definition start_ret :: "(bool \<Rightarrow> go_error option \<Rightarrow> bool) \<Rightarrow> Module \<Rightarrow> nat \<Rightarrow> bool \<Rightarrow> go_error option \<Rightarrow> bool" where
  "start_ret routerRun m i cancelled r = task_ret routerRun (module_tasks m ! i) cancelled r"

definition Module_Start_result :: "(string \<Rightarrow> string) \<Rightarrow> Module \<Rightarrow> group \<Rightarrow> go_error option" where
  "Module_Start_result pascal m g = eris_wrap (Group_Wait g) (pascal (md_name m) @ '' failure'')"

text \<open>What \<open>Start\<close> of a module may return while the context it was given is cancelled or not.\<close>

definition Module_Start ::
    "(string \<Rightarrow> string) \<Rightarrow> (bool \<Rightarrow> go_error option \<Rightarrow> bool) \<Rightarrow> Module \<Rightarrow> bool \<Rightarrow> go_error option \<Rightarrow> bool" where
  "Module_Start pascal routerRun m cancelled r \<longleftrightarrow>
     (\<exists>g. (group_step cancelled (start_ret routerRun m))\<^sup>*\<^sup>* (group_init (length (module_tasks m))) g \<and>
        group_done g \<and> r = Module_Start_result pascal m g)"

text \<open>The application of several modules.\<close>

definition app_start ::
    "(string \<Rightarrow> string) \<Rightarrow> (bool \<Rightarrow> go_error option \<Rightarrow> bool) \<Rightarrow> Module list \<Rightarrow> nat \<Rightarrow> bool \<Rightarrow> go_error option \<Rightarrow> bool" where
  "app_start pascal routerRun ms i cancelled r \<longleftrightarrow> i < length ms \<and> Module_Start pascal routerRun (ms ! i) cancelled r"

subsection \<open>Every goroutine heeds the cancellation\<close>

text \<open>What the module relies on: the router's \<open>Run\<close> returns once the router is closed. A router that
  does not promise it is replaced by one that does, so that the contract holds for every argument.\<close>

definition ends_closed :: "(bool \<Rightarrow> go_error option \<Rightarrow> bool) \<Rightarrow> bool" where
  "ends_closed routerRun \<longleftrightarrow> (\<exists>r. routerRun True r)"

definition promising :: "(bool \<Rightarrow> go_error option \<Rightarrow> bool) \<Rightarrow> bool \<Rightarrow> go_error option \<Rightarrow> bool" where
  "promising routerRun closed r \<longleftrightarrow> routerRun closed r \<or> \<not> ends_closed routerRun \<and> closed \<and> r = None"

lemma promising_id: "ends_closed routerRun \<Longrightarrow> promising routerRun = routerRun"
  by (auto simp: promising_def fun_eq_iff)

lemma task_heeds: "\<exists>r. task_ret (promising routerRun) t True r"
  by (cases t) (auto simp: task_ret_simps promising_def ends_closed_def router_closed_def)

interpretation goroutines: heeding_group "start_ret (promising routerRun) m" "length (module_tasks m)" for routerRun m
  by unfold_locales (simp add: start_ret_def task_heeds)

lemma Module_Start_returns: "\<exists>r. Module_Start pascal (promising routerRun) m True r"
proof -
  let ?g = "(group_init (length (module_tasks m)))\<lparr>gr_cancelled := True\<rparr>" and ?step = "group_step True (start_ret (promising routerRun) m)"
  have "?step\<^sup>*\<^sup>* (group_init (length (module_tasks m))) ?g" by (intro r_into_rtranclp group_step.cancel) simp
  moreover obtain g' where "?step\<^sup>*\<^sup>* ?g g'" "group_done g'"
    using goroutines.can_finish [of ?g m True routerRun] by (auto simp: group_init_def)
  ultimately show ?thesis unfolding Module_Start_def by (meson rtranclp_trans)
qed

text \<open>The modules, as goroutines of the runner, heed the cancellation because their own goroutines do.\<close>

interpretation modules: heeding_group "module_ret (app_start pascal (promising routerRun) ms)" "length ms" for pascal routerRun ms
  by unfold_locales (use Module_Start_returns in \<open>fastforce simp: module_ret_def app_start_def\<close>)

subsection \<open>The main programs\<close>

text \<open>\<open>main\<close>: \<open>newErr\<close> and \<open>pingErr\<close> are the errors of opening and pinging the pool, \<open>new\<close> and \<open>run\<close> what
  creating the module and running the application give.\<close>

record main_result =
  mr_exitCode :: nat
  mr_printed :: "go_error option"
  mr_logged :: "(string \<times> go_error) option"
  mr_poolOpened :: bool
  mr_poolClosed :: bool

definition main_exit :: "nat \<Rightarrow> go_error option \<Rightarrow> (string \<times> go_error) option \<Rightarrow> bool \<Rightarrow> main_result" where
  "main_exit exitCode printed logged dbPool = \<lparr>mr_exitCode = exitCode, mr_printed = printed, mr_logged = logged,
     mr_poolOpened = dbPool, mr_poolClosed = dbPool\<rparr>"

definition main_pool :: "bool \<Rightarrow> module_config \<Rightarrow> go_error option \<Rightarrow> go_error option \<Rightarrow> bool \<times> go_error option" where
  "main_pool database conf newErr pingErr =
     (if database then (case GetPgxPool (Database_URL (mc_Database conf)) newErr pingErr of (pool, e, _) \<Rightarrow> (pool, e)) else (False, None))"

definition main_run ::
    "bool \<Rightarrow> (sink \<Rightarrow> bool) \<Rightarrow> (go_error + module_config) \<Rightarrow> go_error option \<Rightarrow> go_error option \<Rightarrow>
     (module_config \<Rightarrow> go_error + Module) \<Rightarrow> (Module list \<Rightarrow> go_error option) \<Rightarrow> main_result" where
  "main_run database isTerminal loaded newErr pingErr new run =
     (case loaded of Inl e \<Rightarrow> main_exit 1 (Some e) None False
      | Inr conf \<Rightarrow> (case slog_New isTerminal HandlerText (SlogLevel (mc_LogLevel conf)) of Inl e \<Rightarrow> main_exit 1 (Some e) None False
         | Inr logger \<Rightarrow> (case main_pool database conf newErr pingErr of
              (pool, Some e) \<Rightarrow> main_exit 0 None (Some (''creating database pool'', e)) pool
            | (pool, None) \<Rightarrow> (case new conf of Inl e \<Rightarrow> main_exit 0 None (Some (''creating module failed'', e)) pool
                | Inr m \<Rightarrow> (case run [m] of Some e \<Rightarrow> main_exit 1 None (Some (''platform error'', e)) pool
                    | None \<Rightarrow> main_exit 0 None None pool)))))"

text \<open>The migration command; \<open>migrate\<close> is \<open>dbpgcli.Migrate\<close> on the module's schema and migrations.\<close>

definition migration_main :: "(go_error + module_config) \<Rightarrow> (string \<Rightarrow> string option \<times> 's) \<Rightarrow> 's \<Rightarrow> nat \<times> string option \<times> 's" where
  "migration_main loaded migrate s =
     (case loaded of Inl e \<Rightarrow> (1, Some ''loading config failed'', s)
      | Inr conf \<Rightarrow> (case migrate (Database_URL (mc_Database conf)) of (Some e, s') \<Rightarrow> (1, Some ''command failed'', s') | (None, s') \<Rightarrow> (0, None, s')))"

subsection \<open>Requests without a valid token\<close>

lemma bearer_same:
  assumes "\<not> bearer_admits validate [] r"
  shows "BearerAuthMiddleware validate [] h r = BearerAuthMiddleware validate [] h' r"
  using assms by (auto simp: bearer_admits_def BearerAuthMiddleware_def auth_skipped_def Let_def split: sum.splits)

lemma bearer_admits_path: "bearer_admits validate [] (r\<lparr>rq_path := p\<rparr>) = bearer_admits validate [] r"
  by (simp add: bearer_admits_def auth_skipped_def extractBearerToken_def headerGet_def)

lemma strip_same:
  assumes "\<not> bearer_admits validate [] r"
  shows "StripPrefix pre (BearerAuthMiddleware validate [] h) r = StripPrefix pre (BearerAuthMiddleware validate [] h') r"
  using assms bearer_same [of validate r h h'] bearer_same [of validate "r\<lparr>rq_path := trimPrefix (rq_path r) pre\<rparr>" h h']
  by (simp add: StripPrefix_def Let_def bearer_admits_path)

lemma module_routes_same:
  assumes "\<not> bearer_admits validate [] r" and "map sv_path slices = map sv_path slices'"
  shows "list_all2 (same_at r) (module_routes validate slices) (module_routes validate slices')"
proof -
  from assms(2) have "list_all2 (\<lambda>a b. sv_path a = sv_path b) slices slices'"
    by (auto simp: list_all2_conv_all_nth map_equality_iff)
  then show ?thesis
    using bearer_same [OF assms(1)] strip_same [OF assms(1)]
    by (induction rule: list_all2_induct) (auto simp: module_routes_def mount_def handle_def same_at_def)
qed

subsection \<open>Under its own path and under /api\<close>

text \<open>What generated Connect code promises: a service is served under its name.\<close>

definition service_paths :: "'v slice list \<Rightarrow> bool" where
  "service_paths slices \<longleftrightarrow> distinct (map sv_serviceName slices) \<and>
     list_all (\<lambda>s. path_name (sv_serviceName s) \<and> sv_serviceName s \<noteq> ''api'' \<and>
       sv_path s = slash # sv_serviceName s @ [slash]) slices"

lemma prefix_segment:
  "slash \<notin> set n \<Longrightarrow> slash \<notin> set a \<Longrightarrow> prefix (n @ [slash]) (a @ slash # x) \<longleftrightarrow> n = a"
proof (induction n arbitrary: a)
  case Nil
  then show ?case by (cases a) auto
next
  case (Cons c n)
  then show ?case by (cases a) auto
qed

lemma concat_one:
  assumes "distinct xs" and "s \<in> set xs" and "\<And>t. t \<in> set xs \<Longrightarrow> f t = (if t = s then [y] else [])"
  shows "concat (map f xs) = [y]"
proof -
  from split_list [OF assms(2)] obtain as bs where x: "xs = as @ s # bs" by blast
  with assms(1) have "s \<notin> set as" "s \<notin> set bs" by auto
  then have "f t = []" if "t \<in> set as \<union> set bs" for t using assms(3) [of t] x that by auto
  then have "concat (map f as) = []" "concat (map f bs) = []" by simp_all
  moreover have "f s = [y]" using assms(2,3) by simp
  ultimately show ?thesis unfolding x by (simp only: map_append list.map concat_append concat.simps append.simps)
qed

lemma module_match:
  fixes slices :: "'v slice list"
  assumes "service_paths slices" and "s \<in> set slices"
    and one: "\<And>t. t \<in> set slices \<Longrightarrow>
      filter (\<lambda>rt. path_matches (rt_path rt) p) (mount (BearerAuthMiddleware validate []) (sv_path t, sv_handler t)) = (if t = s then [y] else [])"
    and "rt_method y = None"
  shows "mux_match (module_routes validate slices) m p = Some y"
proof -
  have d: "distinct slices" using assms(1) by (auto simp: service_paths_def distinct_map)
  have n: "rt_method rt = None" if "rt \<in> set (module_routes validate slices)" for rt
    using that by (auto simp: module_routes_def mount_def handle_def)
  have "filter (\<lambda>rt. path_matches (rt_path rt) p \<and> method_matches (rt_method rt) m) (module_routes validate slices) =
      filter (\<lambda>rt. path_matches (rt_path rt) p) (module_routes validate slices)"
    using n by (intro filter_cong) (auto simp: method_matches_def)
  also have "\<dots> = [y]"
    using concat_one [OF d assms(2) one] by (simp add: module_routes_def filter_concat comp_def)
  finally show ?thesis by (simp add: mux_match_def pick_def)
qed

lemma service_name:
  assumes "service_paths slices" and "s \<in> set slices"
  shows "slash \<notin> set (sv_serviceName s)" "sv_serviceName s \<noteq> ''api''" "sv_path s = slash # sv_serviceName s @ [slash]"
    "path_name (sv_serviceName s)"
  using assms by (auto simp: service_paths_def list_all_iff path_name_def)

lemma same_service:
  assumes "service_paths slices" and "s \<in> set slices" and "t \<in> set slices"
  shows "sv_serviceName t = sv_serviceName s \<longleftrightarrow> t = s"
  using assms by (auto simp: service_paths_def distinct_map dest: inj_onD)

lemma match_plain:
  assumes "service_paths slices" and "s \<in> set slices"
  shows "mux_match (module_routes validate slices) m (slash # sv_serviceName s @ slash # x) =
    Some (handle (sv_path s) (BearerAuthMiddleware validate [] (sv_handler s)))"
proof (rule module_match [OF assms])
  note s = service_name [OF assms]
  fix t assume t: "t \<in> set slices"
  note n = service_name [OF assms(1) t]
  have "hasPrefix (slash # sv_serviceName s @ slash # x) (sv_path t) \<longleftrightarrow> t = s"
    using prefix_segment [OF n(1) s(1)] same_service [OF assms t] n(3) by (simp add: hasPrefix_def)
  moreover have "\<not> hasPrefix (slash # sv_serviceName s @ slash # x) (''/api'' @ sv_path t)"
  proof
    assume "hasPrefix (slash # sv_serviceName s @ slash # x) (''/api'' @ sv_path t)"
    then have "prefix (''api'' @ slash # sv_serviceName t @ [slash]) (sv_serviceName s @ slash # x)"
      using n(3) by (simp add: hasPrefix_def slash_def)
    then have "prefix (''api'' @ [slash]) (sv_serviceName s @ slash # x)" by (auto simp: prefix_def)
    moreover have "slash \<notin> set ''api''" by (simp add: slash_def)
    ultimately show False using prefix_segment [of "''api''" "sv_serviceName s" x] s(1,2) by simp
  qed
  ultimately show "filter (\<lambda>rt. path_matches (rt_path rt) (slash # sv_serviceName s @ slash # x))
      (mount (BearerAuthMiddleware validate []) (sv_path t, sv_handler t)) =
      (if t = s then [handle (sv_path s) (BearerAuthMiddleware validate [] (sv_handler s))] else [])"
    using n(3) by (auto simp: mount_def handle_def path_matches_def hasSuffix_def suffix_def)
qed (simp add: handle_def)

lemma match_api:
  assumes "service_paths slices" and "s \<in> set slices"
  shows "mux_match (module_routes validate slices) m (''/api'' @ slash # sv_serviceName s @ slash # x) =
    Some (handle (''/api'' @ sv_path s) (StripPrefix ''/api'' (BearerAuthMiddleware validate [] (sv_handler s))))"
proof (rule module_match [OF assms])
  note s = service_name [OF assms]
  fix t assume t: "t \<in> set slices"
  note n = service_name [OF assms(1) t]
  have "hasPrefix (''/api'' @ slash # sv_serviceName s @ slash # x) (''/api'' @ sv_path t) \<longleftrightarrow> t = s"
    using prefix_segment [OF n(1) s(1)] same_service [OF assms t] n(3) by (simp add: hasPrefix_def)
  moreover have "\<not> hasPrefix (''/api'' @ slash # sv_serviceName s @ slash # x) (sv_path t)"
  proof
    assume "hasPrefix (''/api'' @ slash # sv_serviceName s @ slash # x) (sv_path t)"
    then have "prefix (sv_serviceName t @ [slash]) (''api'' @ slash # sv_serviceName s @ slash # x)"
      using n(3) by (simp add: hasPrefix_def slash_def)
    moreover have "slash \<notin> set ''api''" by (simp add: slash_def)
    ultimately show False using prefix_segment [of "sv_serviceName t" "''api''" "sv_serviceName s @ slash # x"] n(1,2) by simp
  qed
  ultimately show "filter (\<lambda>rt. path_matches (rt_path rt) (''/api'' @ slash # sv_serviceName s @ slash # x))
      (mount (BearerAuthMiddleware validate []) (sv_path t, sv_handler t)) =
      (if t = s then [handle (''/api'' @ sv_path s) (StripPrefix ''/api'' (BearerAuthMiddleware validate [] (sv_handler s)))] else [])"
    using n(3) by (auto simp: mount_def handle_def path_matches_def hasSuffix_def suffix_def)
qed (simp add: handle_def)

lemma clean_abs:
  assumes "list_all path_name es" and "es \<noteq> []"
  shows "cleanPath (abs_path es) = abs_path es" and "\<not> hasSuffix (abs_path es) [slash]"
proof -
  obtain ys e where e: "es = ys @ [e]" using assms(2) by (cases es rule: rev_cases) auto
  with assms(1) have "e \<noteq> []" "slash \<notin> set e" by (auto simp: path_name_def)
  then have "last e \<noteq> slash" by (metis last_in_set)
  moreover have "last (abs_path es) = last e" using e \<open>e \<noteq> []\<close> by (cases "ys = []") (auto simp: abs_path_def join_append)
  ultimately have l: "last (abs_path es) \<noteq> slash" by simp
  then show "\<not> hasSuffix (abs_path es) [slash]" by (auto simp: hasSuffix_def suffix_def)
  have "hd (abs_path es) = slash" "abs_path es \<noteq> []" by (simp_all add: abs_path_def)
  with l path_clean_abs(1) [OF assms(1)] show "cleanPath (abs_path es) = abs_path es" by (simp add: cleanPath_def Let_def)
qed

text \<open>A request for a path whose pattern is shorter goes to the handler found.\<close>

lemma mux_serve_found:
  assumes "list_all path_name es" and "es \<noteq> []" and "rq_path r = abs_path es"
    and "mux_match routes (rq_method r) (abs_path es) = Some rt" and "mux_match routes (rq_method r) (abs_path es @ [slash]) = Some rt"
    and "length (rt_path rt) \<le> length (abs_path es)"
  shows "mux_serve redirect routes r = rt_handler rt r"
proof -
  have "rt_path rt \<noteq> abs_path es @ [slash]" using assms(6) by (metis length_append_singleton not_less_eq_eq le_refl)
  then have "\<not> exact_match (mux_match routes (rq_method r) (abs_path es @ [slash])) (abs_path es @ [slash])"
    using assms(5) by (simp add: exact_match_def)
  moreover have "(if rq_method r = ''CONNECT'' then rq_path r else cleanPath (rq_path r)) = abs_path es"
    using assms(3) clean_abs(1) [OF assms(1,2)] by simp
  ultimately show ?thesis using assms(3,4) by (simp add: mux_serve_def Let_def)
qed

end
