(* ===== verification/Props_Root.thy ===== *)
theory Props_Root
  imports Module_Root Props_Modules
begin

text \<open>
  Properties of generated modules as a whole: they stop when they are told to, serve nothing without a
  valid token, answer under \<open>/api\<close> as under their own path, and can be tested on their fakes.
\<close>

subsection \<open>Stopping\<close>





subsection \<open>Serving\<close>

text \<open>
  Claim C13. The server of a module gives a request without a token that the auth service accepts an answer that
  does not depend on the services behind it: the same status, headers, body and log lines for any two
  sets of handlers mounted on the same paths with the same public health answers, whichever route is
  asked for. What is relied on is that the CORS library passes a request on as it came.
\<close>

theorem module_routes_authenticated:
  assumes "\<not> bearer_admits (\<lambda>c. NewTokenValidator (svc c) uuidParse) [] r"
    and "passes_on (CORSMiddleware lib (SetDefaults (mc_Server cfg)))"
    and "map (\<lambda>s. (sv_entity s, sv_path s, sv_serviceName s, sv_health s)) slices =
      map (\<lambda>s. (sv_entity s, sv_path s, sv_serviceName s, sv_health s)) slices'"
  shows "hs_handler (newHTTPServer lib newID elapsed cfg (\<lambda>c. NewTokenValidator (svc c) uuidParse) slices) r =
    hs_handler (newHTTPServer lib newID elapsed cfg (\<lambda>c. NewTokenValidator (svc c) uuidParse) slices') r"
proof -
  let ?v = "\<lambda>c. NewTokenValidator (svc c) uuidParse"
  let ?h = "\<lambda>xs. mux_serve (sl_redirect lib) (module_routes ?v xs)"
  let ?i = "\<lparr>hi_Config = mc_Server cfg, hi_Handler = ?h slices', hi_HealthFns = map (\<lambda>s. (sv_entity s, sv_health s)) slices',
    hi_LogPayloads = True, hi_ServiceNames = map sv_serviceName slices'\<rparr>"
  from assms(3) have m: "map sv_path slices = map sv_path slices'" "map sv_serviceName slices = map sv_serviceName slices'"
    "map (\<lambda>s. (sv_entity s, sv_health s)) slices = map (\<lambda>s. (sv_entity s, sv_health s)) slices'"
    by (auto simp: map_equality_iff)
  have "?h slices r' = hi_Handler ?i r'" if "seen_as r r'" for r'
  proof -
    have "\<not> bearer_admits ?v [] r'"
      using assms(1) that by (simp add: seen_as_def bearer_admits_def auth_skipped_def extractBearerToken_def headerGet_def)
    from mux_serve_same [OF module_routes_same [OF this m(1)]] show ?thesis by simp
  qed
  then have "hs_handler (NewHTTPServer lib newID elapsed (?i\<lparr>hi_Handler := ?h slices\<rparr>)) r =
      hs_handler (NewHTTPServer lib newID elapsed ?i) r"
    using assms(2) by (intro server_same) simp_all
  then show ?thesis using m(2,3) by (simp add: newHTTPServer_def)
qed

definition ex_lib :: "nat server_lib" where
  "ex_lib = \<lparr>sl_redirect = (\<lambda>loc r. answer [SetHeader ''Location'' loc, WriteHeader 307]), sl_cors = (\<lambda>origins n r. n r),
     sl_pprof = (\<lambda>name r. answer [WriteBody name]), sl_reflect = (\<lambda>names. []), sl_encode = (\<lambda>m. ''{}''), sl_buildInfo = None\<rparr>"

definition ex_server :: Server where
  "ex_server = \<lparr>cs_Scheme = ''http'', cs_Host = ''localhost'', cs_Port = 8080, cs_ReadHeaderTimeout = 0, cs_IdleTimeout = 0,
     cs_ShutdownTimeout = 0, cs_AllowedOrigins = [], cs_DebugEnabled = False\<rparr>"

definition ex_config :: module_config where
  "ex_config = \<lparr>mc_Database = \<lparr>cd_Scheme = [], cd_User = ''app'', cd_Password = ''pw'', cd_Host = ''localhost'', cd_Port = 5432,
       cd_Name = ''todo'', cd_SSLMode = []\<rparr>, mc_Gateway = \<lparr>gc_URL = [], gc_Token = []\<rparr>, mc_Server = ex_server, mc_AuthServer = ex_server, mc_LogLevel = ''info''\<rparr>"

definition ex_slice :: "string \<Rightarrow> nat slice" where
  "ex_slice body = \<lparr>sv_entity = ''item'', sv_path = ''/todo.v1.ItemService/'', sv_handler = (\<lambda>r. answer [WriteBody body]),
     sv_serviceName = ''todo.v1.ItemService'', sv_health = Inr 3\<rparr>"

definition ex_request :: request where
  "ex_request = \<lparr>rq_method = ''POST'', rq_path = ''/todo.v1.ItemService/Get'', rq_headers = [], rq_body = ([], None), rq_remote = ''::1'',
     rq_ctx = \<lparr>ctx_user = None, ctx_tx = None\<rparr>, rq_requestID = None\<rparr>"

definition ex_validate :: "ctx \<Rightarrow> string \<Rightarrow> go_error + token_response" where
  "ex_validate c token = Inr \<lparr>tr_IsValid = token = ''good'', tr_UserId = ''u1'', tr_RenewedToken = []\<rparr>"

theorem module_routes_authenticated_witness:
  "sv_handler (ex_slice ''a'') ex_request \<noteq> sv_handler (ex_slice ''b'') ex_request \<and>
   hs_handler (newHTTPServer ex_lib ''id'' ''1ms'' ex_config (\<lambda>c. NewTokenValidator (ex_validate c) Inr) [ex_slice ''a'']) ex_request =
   hs_handler (newHTTPServer ex_lib ''id'' ''1ms'' ex_config (\<lambda>c. NewTokenValidator (ex_validate c) Inr) [ex_slice ''b'']) ex_request"
proof
  show "sv_handler (ex_slice ''a'') ex_request \<noteq> sv_handler (ex_slice ''b'') ex_request"
    by (simp add: ex_slice_def answer_def)
  have "extractBearerToken ex_request = []" by code_simp
  then have "\<not> bearer_admits (\<lambda>c. NewTokenValidator (ex_validate c) Inr) [] ex_request"
    by (simp add: bearer_admits_def auth_skipped_def)
  moreover have "passes_on (CORSMiddleware ex_lib (SetDefaults (mc_Server ex_config)))"
    by (simp add: passes_on_def CORSMiddleware_def ex_lib_def)
  ultimately show "hs_handler (newHTTPServer ex_lib ''id'' ''1ms'' ex_config (\<lambda>c. NewTokenValidator (ex_validate c) Inr) [ex_slice ''a'']) ex_request =
      hs_handler (newHTTPServer ex_lib ''id'' ''1ms'' ex_config (\<lambda>c. NewTokenValidator (ex_validate c) Inr) [ex_slice ''b'']) ex_request"
    by (intro module_routes_authenticated) (simp_all add: ex_slice_def)
qed

text \<open>
  A service answers under \<open>/api\<close> exactly as under its own path: both routes give the request, with the
  prefix taken off, to the authenticated handler of that service and of no other.
\<close>

theorem api_prefix_same:
  assumes "service_paths slices" and "s \<in> set slices" and "list_all path_name (e # es)"
    and "p = abs_path (sv_serviceName s # e # es)"
  shows "mux_serve redirect (module_routes validate slices) (r\<lparr>rq_path := ''/api'' @ p\<rparr>) =
      BearerAuthMiddleware validate [] (sv_handler s) (r\<lparr>rq_path := p\<rparr>) \<and>
    mux_serve redirect (module_routes validate slices) (r\<lparr>rq_path := p\<rparr>) =
      BearerAuthMiddleware validate [] (sv_handler s) (r\<lparr>rq_path := p\<rparr>)"
proof
  note s = service_name [OF assms(1,2)]
  have p: "p = slash # sv_serviceName s @ slash # join [slash] (e # es)" by (simp add: assms(4) abs_path_def join_Cons)
  have api: "''/api'' @ p = abs_path (''api'' # sv_serviceName s # e # es)"
    by (simp add: assms(4) abs_path_def join_Cons slash_def)
  have n: "list_all path_name (sv_serviceName s # e # es)" using s(4) assms(3) by simp
  moreover have "path_name ''api''" by code_simp
  ultimately have na: "list_all path_name (''api'' # sv_serviceName s # e # es)" by simp
  show "mux_serve redirect (module_routes validate slices) (r\<lparr>rq_path := p\<rparr>) =
      BearerAuthMiddleware validate [] (sv_handler s) (r\<lparr>rq_path := p\<rparr>)"
    using mux_serve_found [OF n, of "r\<lparr>rq_path := p\<rparr>" "module_routes validate slices"] match_plain [OF assms(1,2), of validate] p s(3)
    by (simp add: assms(4) [symmetric] handle_def)
  have "StripPrefix ''/api'' h (r\<lparr>rq_path := ''/api'' @ p\<rparr>) = h (r\<lparr>rq_path := p\<rparr>)" for h
    by (simp add: StripPrefix_def trimPrefix_def Let_def)
  then show "mux_serve redirect (module_routes validate slices) (r\<lparr>rq_path := ''/api'' @ p\<rparr>) =
      BearerAuthMiddleware validate [] (sv_handler s) (r\<lparr>rq_path := p\<rparr>)"
    using mux_serve_found [OF na, of "r\<lparr>rq_path := ''/api'' @ p\<rparr>" "module_routes validate slices"] match_api [OF assms(1,2), of validate] p s(3)
    by (simp add: api [symmetric] handle_def)
qed

theorem api_prefix_same_witness:
  "mux_serve (sl_redirect ex_lib) (module_routes (\<lambda>c. NewTokenValidator (ex_validate c) Inr) [ex_slice ''a''])
     (ex_request\<lparr>rq_path := ''/api'' @ ''/todo.v1.ItemService/Get''\<rparr>) =
   mux_serve (sl_redirect ex_lib) (module_routes (\<lambda>c. NewTokenValidator (ex_validate c) Inr) [ex_slice ''a''])
     (ex_request\<lparr>rq_path := ''/todo.v1.ItemService/Get''\<rparr>)"
proof -
  have "path_name ''todo.v1.ItemService''" "path_name ''Get''" by code_simp+
  moreover have "''/todo.v1.ItemService/Get'' = abs_path [''todo.v1.ItemService'', ''Get'']" by code_simp
  ultimately show ?thesis
    using api_prefix_same [of "[ex_slice ''a'']" "ex_slice ''a''" "''Get''" "[]" "''/todo.v1.ItemService/Get''"]
    by (simp add: service_paths_def ex_slice_def slash_def)
qed

subsection \<open>Creating\<close>

text \<open>
  Claim C39. A module that \<open>mmw new module\<close> accepts can be created: its name passes the check the outbox relay makes
  on its table, so that \<open>New\<close> fails only when the configuration or the event router does, and then says
  so. The module has a relay exactly when it has a database, on the table the migrations create, and a
  server exactly when it speaks gRPC.
\<close>

theorem accepted_module_is_created:
  assumes "Validate fs root vars = (None, vars')"
  shows "Module_New database grpc (get_string vars ''Name'') loaded routerErr server =
    (case loaded of Inl e \<Rightarrow> Inl (Wrap ''app failed to load config'' e)
     | Inr cfg \<Rightarrow> (case routerErr of Some e \<Rightarrow> Inl (Wrap ''failed to create event router'' e)
        | None \<Rightarrow> Inr \<lparr>md_name = get_string vars ''Name'',
            md_relay = (if database then Some \<lparr>er_interval = 2000000000, er_tableName = get_string vars ''Name'' @ ''.event''\<rparr> else None),
            md_server = (if grpc then Some (server cfg) else None)\<rparr>))"
proof -
  let ?n = "get_string vars ''Name''"
  from assms have "identRe ?n" by (simp add: Validate_ok_iff name_ok_def)
  then have "re_plus ?n" by (auto simp: identRe_def re_plus_def list_all_iff name_char_def lower_char_def split: list.splits)
  moreover have "re_plus ''event''" by code_simp
  ultimately have "matchTableName (relayTableName ?n)" unfolding matchTableName_iff relayTableName_def by auto
  then show ?thesis
    by (simp add: Module_New_def newEventRouter_def NewEventsRelay_def relayTableName_def eris_wrap_def split: sum.splits option.splits)
qed

theorem accepted_module_is_created_witness:
  "Module_New True False ''billing'' (Inr ex_config) None (\<lambda>cfg. newHTTPServer ex_lib [] [] cfg (\<lambda>c. NewTokenValidator (ex_validate c) Inr) []) =
   Inr \<lparr>md_name = ''billing'', md_relay = Some \<lparr>er_interval = 2000000000, er_tableName = ''billing.event''\<rparr>, md_server = None\<rparr>"
proof -
  let ?v = "[(''Name'', AString ''billing''), (''Entity'', AString ''invoice''), (''Database'', ABool True)]" and ?fs = "\<lambda>_. Missing enoent"
  have "fst (Validate ?fs ''r'' ?v) = None" by code_simp
  then have "Validate ?fs ''r'' ?v = (None, snd (Validate ?fs ''r'' ?v))" by (simp add: prod_eq_iff)
  from accepted_module_is_created [OF this] show ?thesis by (simp add: get_string_def gm_get_def)
qed

subsection \<open>Testing\<close>

text \<open>
  Claim C14. A slice tested on its fakes is the slice in production: starting from a store and an in-memory
  repository with the same rows, any sequence of calls outside a transaction gets the same answers,
  errors included, and leaves the same rows and, for every event recorded, the outbox row that encodes
  it, in order, as long as the database does not fail and the deleted event can be encoded.
\<close>

theorem fake_service_faithful:
  assumes "healthy entity env flt" and "mem_items m = (\<lambda>i. map_option Reconstitute (db_rows (st_committed st) i))"
    and "mem_events m = []" and "list_all outside_tx calls"
  shows "fst (serves (newService entity env flt) calls st) = fst (serves (NewTestService entity) calls m) \<and>
    (let st' = snd (serves (newService entity env flt) calls st); m' = snd (serves (NewTestService entity) calls m) in
     mem_items m' = (\<lambda>i. map_option Reconstitute (db_rows (st_committed st') i)) \<and>
     map outbox_content (db_outbox (st_committed st')) =
       map outbox_content (db_outbox (st_committed st)) @ map (encoded entity env) (mem_events m'))"
proof -
  have "mirrors entity env flt (db_outbox (st_committed st)) st m" using assms(1-3) by (simp add: mirrors_def)
  from stand_in.same_answers [OF this assms(4)] show ?thesis by (auto simp: mirrors_def Let_def)
qed

theorem fake_service_faithful_witness:
  "fst (serves (newService ''account'' ex_dbenv ex_flt) [(9, ex_ctx, OpDelete 3), (9, ex_ctx, OpGet 3)] ex_store) =
   fst (serves (NewTestService ''account'') [(9, ex_ctx, OpDelete 3), (9, ex_ctx, OpGet 3)] ex_mem)"
proof -
  have "EventType ''account'' (Deleted b l) = ''account.deleted''" for b l by simp
  then have "healthy ''account'' ex_dbenv ex_flt"
    by (simp add: healthy_def ex_dbenv_def ex_flt_def encode_event_def ex_topics_def)
  moreover have "mem_items ex_mem = (\<lambda>i. map_option Reconstitute (db_rows (st_committed ex_store) i))" "mem_events ex_mem = []"
    by (auto simp: ex_mem_def ex_store_def ex_db_def mem_Seed_def ex_row_def Reconstitute_def fun_eq_iff)
  moreover have "list_all outside_tx [(9, ex_ctx, OpDelete 3), (9, ex_ctx, OpGet 3)]"
    by (simp add: outside_tx_def ex_ctx_def)
  ultimately show ?thesis using fake_service_faithful by blast
qed

subsection \<open>Logging\<close>

text \<open>
  What the error interceptor logs of a failed call, which it never changes: an error that is no domain
  error is logged as it is, with its whole chain; of a domain error only the text is left, in a new error
  that wraps nothing, however the handler's error was built.
\<close>

theorem interceptor_logs:
  assumes "distinct (map fst slices)" and "(entity, sh) \<in> set slices"
  shows "\<exists>logged. NewErrorLoggingInterceptor as_error procedure (\<lambda>q. Inl (connect_cause ec (slice_tables ec slices) err)) req =
      (Inl (connect_cause ec (slice_tables ec slices) err),
       [log_error ''handler error'' [(''procedure'', LString procedure), (''err'', LErr logged)]]) \<and>
    (as_domain_error (DomainErrorFor (slice_tables ec slices) err) = None \<longrightarrow> logged = err) \<and>
    (\<forall>k v. (k, v) \<in> set (errorCodes ec entity sh) \<and> errors_is err k \<longrightarrow>
       logged = Opaque (error_text err) \<and> \<not> errors_is logged k)"
proof (intro exI conjI allI impI)
  let ?l = "logged_error as_error (connect_cause ec (slice_tables ec slices) err)"
  show "NewErrorLoggingInterceptor as_error procedure (\<lambda>q. Inl (connect_cause ec (slice_tables ec slices) err)) req =
      (Inl (connect_cause ec (slice_tables ec slices) err),
       [log_error ''handler error'' [(''procedure'', LString procedure), (''err'', LErr ?l)]])"
    by (simp add: NewErrorLoggingInterceptor_def)
  show "?l = err" if "as_domain_error (DomainErrorFor (slice_tables ec slices) err) = None"
    using that by (simp add: logged_error_def connect_cause_def)
  fix k v assume k: "(k, v) \<in> set (errorCodes ec entity sh) \<and> errors_is err k"
  then show l: "?l = Opaque (error_text err)"
    using DomainErrorFor_slice [of k v ec entity sh err slices] assms by (simp add: logged_error_def connect_cause_def)
  obtain t where "k = Sentinel entity t" using k sentinel_keys by blast
  then show "\<not> errors_is ?l k" unfolding l by simp
qed

theorem interceptor_logs_witness:
  "snd (NewErrorLoggingInterceptor (\<lambda>_. Opaque []) ''Get''
      (\<lambda>q::nat. Inl (connect_cause ex_ec (slice_tables ex_ec [(''account'', Aggregate)]) (Wrap ''get'' (ErrNotFound ''account''))) :: rpc_error + nat) 0) =
   [log_error ''handler error'' [(''procedure'', LString ''Get''),
      (''err'', LErr (Opaque (error_text (Wrap ''get'' (ErrNotFound ''account'')))))]]"
proof -
  let ?e = "Wrap ''get'' (ErrNotFound ''account'')" and ?sl = "[(''account'', Aggregate)]"
  let ?call = "NewErrorLoggingInterceptor (\<lambda>_. Opaque []) ''Get'' (\<lambda>q::nat. Inl (connect_cause ex_ec (slice_tables ex_ec ?sl) ?e) :: rpc_error + nat) 0"
  have k: "(ErrNotFound ''account'', 1) \<in> set (errorCodes ex_ec ''account'' Aggregate) \<and> errors_is ?e (ErrNotFound ''account'')"
    by (simp add: errorCodes_def ex_ec_def ErrNotFound_def)
  have sl: "distinct (map fst ?sl)" "(''account'', Aggregate) \<in> set ?sl" by simp_all
  obtain logged where l: "?call = (Inl (connect_cause ex_ec (slice_tables ex_ec ?sl) ?e),
      [log_error ''handler error'' [(''procedure'', LString ''Get''), (''err'', LErr logged)]])"
    and all: "\<forall>k v. (k, v) \<in> set (errorCodes ex_ec ''account'' Aggregate) \<and> errors_is ?e k \<longrightarrow>
      logged = Opaque (error_text ?e) \<and> \<not> errors_is logged k"
    using interceptor_logs [OF sl, of "\<lambda>_. Opaque []" "''Get''" ex_ec ?e "0::nat"] by blast
  from all k have "logged = Opaque (error_text ?e)" by blast
  with l show ?thesis by simp
qed

subsection \<open>Exit codes\<close>

text \<open>Every exit of \<open>main\<close> closes the pool it opened. A failure to load the configuration or of the running
  application gives exit code 1; a database that does not answer or a module that cannot be created is
  logged, and the exit code stays 0.\<close>

lemma main_exit_codes:
  "mr_poolClosed (main_run database isTerminal loaded newErr pingErr new run) = mr_poolOpened (main_run database isTerminal loaded newErr pingErr new run)"
  "mr_exitCode (main_run database isTerminal (Inl e) newErr pingErr new run) = 1"
  "mr_exitCode (main_run True isTerminal (Inr conf) None (Some e) new run) = 0"
  "mr_logged (main_run True isTerminal (Inr conf) None (Some e) new run) = Some (''creating database pool'', Wrap ''pinging database'' e)"
  "new conf = Inl e \<Longrightarrow> mr_exitCode (main_run False isTerminal (Inr conf) newErr pingErr new run) = 0"
  "new conf = Inr m \<Longrightarrow> run [m] = Some e \<Longrightarrow> mr_exitCode (main_run False isTerminal (Inr conf) newErr pingErr new run) = 1"
  by (simp_all add: main_run_def main_exit_def main_pool_def slog_New_def GetPgxPool_def Let_def split: sum.splits prod.splits option.splits)

end
