(* ===== verification/Pg_Catalog.thy ===== *)
theory Pg_Catalog
  imports Dump_Catalog
begin

text \<open>
  The three catalog queries of \<open>internal/pkg/dump/catalog.go\<close> (\<open>tablesQuery\<close>, \<open>foreignKeysQuery\<close>,
  \<open>sequencesQuery\<close>) as functions of the system tables they read. A system table is the list of its
  rows, a join is a nested comprehension, \<open>array(SELECT ... ORDER BY k)\<close> a sorted list and \<open>UNION\<close>
  removes duplicates; the order of the rows of a whole query is the server's. The functions
  \<open>format_type\<close> and \<open>quote_ident\<close> (the \<open>%I\<close> of \<open>format\<close>) of the server and its oids for type and
  catalog names are parameters, part of the database. \<open>pg_ok\<close> collects what PostgreSQL documents of
  its system tables: their unique indexes, and that keys name live columns.
\<close>

subsection \<open>System tables\<close>

type_synonym oid = nat

record pg_namespace =
  ns_oid :: oid
  ns_nspname :: string

record pg_class =
  cl_oid :: oid
  cl_relname :: string
  cl_relnamespace :: oid
  cl_relkind :: char

record pg_attribute =
  at_attrelid :: oid
  at_attname :: string
  at_atttypid :: oid
  at_atttypmod :: int
  at_attnum :: int
  at_attisdropped :: bool

record pg_constraint =
  co_contype :: char
  co_conrelid :: oid
  co_confrelid :: oid
  co_conkey :: "int list"
  co_confkey :: "int list"

record pg_attrdef =
  ad_oid :: oid
  ad_adrelid :: oid
  ad_adnum :: int

record pg_depend =
  de_classid :: oid
  de_objid :: oid
  de_refclassid :: oid
  de_refobjid :: oid
  de_refobjsubid :: int
  de_deptype :: char

record pg_db =
  pg_namespaces :: "pg_namespace list"
  pg_classes :: "pg_class list"
  pg_attributes :: "pg_attribute list"
  pg_constraints :: "pg_constraint list"
  pg_attrdefs :: "pg_attrdef list"
  pg_depends :: "pg_depend list"
  format_type :: "oid \<Rightarrow> int \<Rightarrow> string"
  quote_ident :: "string \<Rightarrow> string"
  regclass :: "string \<Rightarrow> oid"
  regtype :: "string \<Rightarrow> oid"

subsection \<open>SQL\<close>

text \<open>\<open>LIKE\<close>: a percent sign stands for any text, an underscore for one character, and a backslash
  takes the next character of the pattern literally.\<close>

fun sql_like :: "string \<Rightarrow> string \<Rightarrow> bool" where
  "sql_like [] s = (s = [])"
| "sql_like (p # ps) s =
     (if p = CHR ''%'' then list_ex (\<lambda>k. sql_like ps (drop k s)) [0..<Suc (length s)]
      else if p = CHR ''_'' then s \<noteq> [] \<and> sql_like ps (tl s)
      else if p = CHR 0x5C then ps \<noteq> [] \<and> s \<noteq> [] \<and> hd s = hd ps \<and> sql_like (tl ps) (tl s)
      else s \<noteq> [] \<and> hd s = p \<and> sql_like ps (tl s))"

text \<open>\<open>unnest(xs) WITH ORDINALITY\<close>, and \<open>array(SELECT v ... ORDER BY k)\<close> of pairs of key and value.\<close>

definition unnest :: "'a list \<Rightarrow> ('a \<times> nat) list" where
  "unnest xs = zip xs [1..<Suc (length xs)]"

definition array_by :: "('k::linorder \<times> 'v) list \<Rightarrow> 'v list" where
  "array_by kvs = map snd (sort_key fst kvs)"

subsection \<open>The queries\<close>

definition live_attributes :: "pg_db \<Rightarrow> oid \<Rightarrow> pg_attribute list" where
  "live_attributes db rel =
     filter (\<lambda>a. at_attrelid a = rel \<and> 0 < at_attnum a \<and> \<not> at_attisdropped a) (pg_attributes db)"

definition key_names :: "pg_db \<Rightarrow> oid \<Rightarrow> int list \<Rightarrow> (nat \<times> string) list" where
  "key_names db rel nums =
     [(ord, at_attname a). (num, ord) \<leftarrow> unnest nums, a \<leftarrow> pg_attributes db, at_attrelid a = rel \<and> at_attnum a = num]"

definition extension_owned :: "pg_db \<Rightarrow> oid \<Rightarrow> bool" where
  "extension_owned db rel =
     list_ex (\<lambda>d. de_classid d = regclass db ''pg_class'' \<and> de_objid d = rel \<and> de_deptype d = CHR ''e'') (pg_depends db)"

definition user_schema :: "string \<Rightarrow> bool" where
  "user_schema nspname \<longleftrightarrow> nspname \<noteq> ''information_schema'' \<and> \<not> sql_like (''pg'' @ CHR 0x5C # ''_%'') nspname"

definition tablesQuery :: "pg_db \<Rightarrow> table_row list" where
  "tablesQuery db =
     [(ns_nspname n, cl_relname c,
       array_by (map (\<lambda>a. (at_attnum a, at_attname a)) (live_attributes db (cl_oid c))),
       array_by (map (\<lambda>a. (at_attnum a, format_type db (at_atttypid a) (at_atttypmod a))) (live_attributes db (cl_oid c))),
       array_by (concat (map (\<lambda>k. key_names db (co_conrelid k) (co_conkey k))
         (filter (\<lambda>k. co_conrelid k = cl_oid c \<and> co_contype k = CHR ''p'') (pg_constraints db))))).
      c \<leftarrow> pg_classes db, n \<leftarrow> pg_namespaces db,
      ns_oid n = cl_relnamespace c \<and> cl_relkind c = CHR ''r'' \<and> user_schema (ns_nspname n) \<and> \<not> extension_owned db (cl_oid c)]"

definition foreignKeysQuery :: "pg_db \<Rightarrow> fk_row list" where
  "foreignKeysQuery db =
     [(ns_nspname cn, cl_relname cc, ns_nspname pn, cl_relname pc,
       array_by (key_names db (co_conrelid k) (co_conkey k)),
       array_by (key_names db (co_confrelid k) (co_confkey k))).
      k \<leftarrow> pg_constraints db,
      cc \<leftarrow> pg_classes db, cl_oid cc = co_conrelid k,
      cn \<leftarrow> pg_namespaces db, ns_oid cn = cl_relnamespace cc,
      pc \<leftarrow> pg_classes db, cl_oid pc = co_confrelid k,
      pn \<leftarrow> pg_namespaces db, ns_oid pn = cl_relnamespace pc,
      co_contype k = CHR ''f'']"

definition sequence_name :: "pg_db \<Rightarrow> pg_namespace \<Rightarrow> pg_class \<Rightarrow> string" where
  "sequence_name db sn s = quote_ident db (ns_nspname sn) @ ''.'' @ quote_ident db (cl_relname s)"

definition default_sequences :: "pg_db \<Rightarrow> seq_row list" where
  "default_sequences db =
     [(sequence_name db sn s, ns_nspname n, cl_relname c, at_attname a).
      d \<leftarrow> pg_depends db,
      ad \<leftarrow> pg_attrdefs db, de_classid d = regclass db ''pg_attrdef'' \<and> de_objid d = ad_oid ad,
      s \<leftarrow> pg_classes db, de_refclassid d = regclass db ''pg_class'' \<and> de_refobjid d = cl_oid s \<and> cl_relkind s = CHR ''S'',
      sn \<leftarrow> pg_namespaces db, ns_oid sn = cl_relnamespace s,
      c \<leftarrow> pg_classes db, cl_oid c = ad_adrelid ad,
      n \<leftarrow> pg_namespaces db, ns_oid n = cl_relnamespace c,
      a \<leftarrow> pg_attributes db, at_attrelid a = ad_adrelid ad \<and> at_attnum a = ad_adnum ad,
      at_atttypid a \<in> set (map (regtype db) [''int2'', ''int4'', ''int8'', ''numeric''])]"

definition identity_sequences :: "pg_db \<Rightarrow> seq_row list" where
  "identity_sequences db =
     [(sequence_name db sn s, ns_nspname n, cl_relname c, at_attname a).
      d \<leftarrow> pg_depends db,
      s \<leftarrow> pg_classes db, de_classid d = regclass db ''pg_class'' \<and> de_objid d = cl_oid s \<and> cl_relkind s = CHR ''S'',
      sn \<leftarrow> pg_namespaces db, ns_oid sn = cl_relnamespace s,
      c \<leftarrow> pg_classes db, de_refclassid d = regclass db ''pg_class'' \<and> de_refobjid d = cl_oid c,
      n \<leftarrow> pg_namespaces db, ns_oid n = cl_relnamespace c,
      a \<leftarrow> pg_attributes db, at_attrelid a = cl_oid c \<and> at_attnum a = de_refobjsubid d,
      de_deptype d = CHR ''i'']"

definition sequencesQuery :: "pg_db \<Rightarrow> seq_row list" where
  "sequencesQuery db = remdups (default_sequences db @ identity_sequences db)"

subsection \<open>What the server guarantees\<close>

text \<open>A column of a table: system columns have negative numbers, dropped ones keep their row.\<close>

definition is_column :: "oid \<Rightarrow> pg_attribute \<Rightarrow> bool" where
  "is_column rel a \<longleftrightarrow> at_attrelid a = rel \<and> 0 < at_attnum a \<and> \<not> at_attisdropped a"

lemma live_attributes_columns: "live_attributes db rel = filter (is_column rel) (pg_attributes db)"
  by (simp add: live_attributes_def is_column_def [abs_def])

definition key_ok :: "pg_db \<Rightarrow> oid \<Rightarrow> int list \<Rightarrow> bool" where
  "key_ok db rel nums = list_all (\<lambda>num. list_ex (\<lambda>a. is_column rel a \<and> at_attnum a = num) (pg_attributes db)) nums"

definition constraint_ok :: "pg_db \<Rightarrow> pg_constraint \<Rightarrow> bool" where
  "constraint_ok db k \<longleftrightarrow>
     (co_contype k = CHR ''p'' \<longrightarrow> distinct (co_conkey k) \<and> key_ok db (co_conrelid k) (co_conkey k)) \<and>
     (co_contype k = CHR ''f'' \<longrightarrow> length (co_conkey k) = length (co_confkey k) \<and>
        key_ok db (co_conrelid k) (co_conkey k) \<and> key_ok db (co_confrelid k) (co_confkey k))"

definition identity_ok :: "pg_db \<Rightarrow> pg_depend \<Rightarrow> bool" where
  "identity_ok db d \<longleftrightarrow>
     (de_deptype d = CHR ''i'' \<and> de_refclassid d = regclass db ''pg_class'' \<and>
      list_ex (\<lambda>s. cl_oid s = de_objid d \<and> cl_relkind s = CHR ''S'') (pg_classes db) \<longrightarrow>
        key_ok db (de_refobjid d) [de_refobjsubid d])"

definition pg_ok :: "pg_db \<Rightarrow> bool" where
  "pg_ok db \<longleftrightarrow>
     distinct (map ns_oid (pg_namespaces db)) \<and> distinct (map ns_nspname (pg_namespaces db)) \<and>
     distinct (map cl_oid (pg_classes db)) \<and> distinct (map (\<lambda>c. (cl_relnamespace c, cl_relname c)) (pg_classes db)) \<and>
     distinct (map (\<lambda>a. (at_attrelid a, at_attnum a)) (pg_attributes db)) \<and>
     distinct (map (\<lambda>a. (at_attrelid a, at_attname a)) (pg_attributes db)) \<and>
     distinct (map co_conrelid (filter (\<lambda>k. co_contype k = CHR ''p'') (pg_constraints db))) \<and>
     list_all (constraint_ok db) (pg_constraints db) \<and>
     list_all (\<lambda>ad. key_ok db (ad_adrelid ad) [ad_adnum ad]) (pg_attrdefs db) \<and>
     list_all (identity_ok db) (pg_depends db)"

text \<open>No schema has a dot in its name. The code joins schema and table with a dot and no quotes, so
  two tables could otherwise share a key.\<close>

definition undotted :: "pg_db \<Rightarrow> bool" where
  "undotted db = list_all (\<lambda>n. CHR ''.'' \<notin> set (ns_nspname n)) (pg_namespaces db)"

subsection \<open>What the queries mean\<close>

text \<open>A dumpable table: an ordinary table of a user schema that no extension owns.\<close>

definition dumpable :: "pg_db \<Rightarrow> pg_class \<Rightarrow> pg_namespace \<Rightarrow> bool" where
  "dumpable db c n \<longleftrightarrow> c \<in> set (pg_classes db) \<and> n \<in> set (pg_namespaces db) \<and> ns_oid n = cl_relnamespace c \<and>
     cl_relkind c = CHR ''r'' \<and> ns_nspname n \<noteq> ''information_schema'' \<and> \<not> prefix ''pg_'' (ns_nspname n) \<and>
     \<not> (\<exists>d \<in> set (pg_depends db). de_classid d = regclass db ''pg_class'' \<and> de_objid d = cl_oid c \<and> de_deptype d = CHR ''e'')"

definition rel_key :: "pg_class \<Rightarrow> pg_namespace \<Rightarrow> string" where
  "rel_key c n = ns_nspname n @ ''.'' @ cl_relname c"

definition column_name :: "pg_db \<Rightarrow> oid \<Rightarrow> int \<Rightarrow> string" where
  "column_name db rel num = hd (map at_attname (filter (\<lambda>a. at_attrelid a = rel \<and> at_attnum a = num) (pg_attributes db)))"

definition columns_of :: "pg_db \<Rightarrow> oid \<Rightarrow> pg_attribute list" where
  "columns_of db rel = sort_key at_attnum (filter (is_column rel) (pg_attributes db))"

lemma columns_of_live: "columns_of db rel = sort_key at_attnum (live_attributes db rel)"
  by (simp add: columns_of_def live_attributes_columns)

definition primary_key :: "pg_db \<Rightarrow> oid \<Rightarrow> int list" where
  "primary_key db rel =
     concat (map co_conkey (filter (\<lambda>k. co_conrelid k = rel \<and> co_contype k = CHR ''p'') (pg_constraints db)))"

definition pg_table :: "pg_db \<Rightarrow> pg_class \<Rightarrow> pg_namespace \<Rightarrow> table" where
  "pg_table db c n =
     \<lparr>tbl_Schema = ns_nspname n, tbl_Name = cl_relname c,
      tbl_Columns = map at_attname (columns_of db (cl_oid c)),
      tbl_Types = map (\<lambda>a. format_type db (at_atttypid a) (at_atttypmod a)) (columns_of db (cl_oid c)),
      tbl_PK = map (column_name db (cl_oid c)) (primary_key db (cl_oid c)), tbl_Transforms = []\<rparr>"

lemma like_pg: "sql_like (''pg'' @ CHR 0x5C # ''_%'') s \<longleftrightarrow> prefix ''pg_'' s"
proof -
  have "list_ex (\<lambda>k. sql_like [] (drop k r)) [0..<Suc (length r)]" for r :: string
    by (auto simp: list_ex_iff intro!: bexI [of _ "length r"])
  then show ?thesis
    by (cases s; cases "tl s"; cases "tl (tl s)") (auto simp del: upt_Suc)
qed

lemma insort_map: "insort_key fst (k x, v x) (map (\<lambda>x. (k x, v x)) xs) = map (\<lambda>x. (k x, v x)) (insort_key k x xs)"
  by (induction xs) auto

lemma sort_key_map: "sort_key fst (map (\<lambda>x. (k x, v x)) xs) = map (\<lambda>x. (k x, v x)) (sort_key k xs)"
  by (induction xs) (auto simp: insort_map)

lemma array_by_map: "array_by (map (\<lambda>x. (k x, v x)) xs) = map v (sort_key k xs)"
  by (simp add: array_by_def sort_key_map)

text \<open>Whatever the system tables hold, both arrays of a table have one entry per column.\<close>

lemma tablesQuery_lengths: "(s, n, cols, types, pk) \<in> set (tablesQuery db) \<Longrightarrow> length types = length cols"
  by (auto simp: tablesQuery_def array_by_map split: if_splits)

lemma unnest_sorted: "sort_key snd (unnest xs) = unnest xs" "map fst (unnest xs) = xs"
proof -
  have "map snd (unnest xs) = [1..<Suc (length xs)]" unfolding unnest_def by (simp del: upt_Suc)
  then have "sorted (map snd (unnest xs))" by (metis sorted_upt)
  then show "sort_key snd (unnest xs) = unnest xs" by (rule sort_key_id_if_sorted)
  show "map fst (unnest xs) = xs" unfolding unnest_def by (simp del: upt_Suc)
qed

text \<open>With one attribute per relation and number, the columns of a key are found by their numbers, in
  key order.\<close>

lemma pg_okD:
  assumes "pg_ok db"
  shows "inj_on ns_oid (set (pg_namespaces db))" "inj_on ns_nspname (set (pg_namespaces db))"
    "inj_on cl_oid (set (pg_classes db))" "inj_on (\<lambda>c. (cl_relnamespace c, cl_relname c)) (set (pg_classes db))"
    "inj_on (\<lambda>a. (at_attrelid a, at_attnum a)) (set (pg_attributes db))"
    "inj_on (\<lambda>a. (at_attrelid a, at_attname a)) (set (pg_attributes db))"
    "distinct (pg_namespaces db)" "distinct (pg_classes db)" "distinct (pg_attributes db)"
  using assms by (simp_all add: pg_ok_def distinct_map)

lemma distinct_singleton: "distinct xs \<Longrightarrow> set xs = {a} \<Longrightarrow> xs = [a]"
  by (cases xs; cases "tl xs") auto

lemma the_attribute:
  assumes "pg_ok db" and "key_ok db rel [num]"
  obtains a where "filter (\<lambda>a. at_attrelid a = rel \<and> at_attnum a = num) (pg_attributes db) = [a]"
    and "a \<in> set (live_attributes db rel)" and "at_attnum a = num" and "column_name db rel num = at_attname a"
proof -
  let ?f = "filter (\<lambda>a. at_attrelid a = rel \<and> at_attnum a = num) (pg_attributes db)"
  from assms(2) obtain a where a: "a \<in> set (live_attributes db rel)" "at_attnum a = num"
    by (auto simp: key_ok_def list_ex_iff live_attributes_columns)
  then have s: "set ?f = {a}"
    using pg_okD(5) [OF assms(1)] by (auto simp: live_attributes_def inj_on_def)
  moreover have "distinct ?f" using pg_okD(9) [OF assms(1)] by simp
  ultimately have "?f = [a]" by (rule distinct_singleton [rotated])
  then show ?thesis using a by (intro that) (simp_all add: column_name_def)
qed

lemma key_names_ok:
  assumes "pg_ok db" and "key_ok db rel nums"
  shows "key_names db rel nums = map (\<lambda>(num, ord). (ord, column_name db rel num)) (unnest nums)"
proof -
  have one: "concat (map (\<lambda>a. if at_attrelid a = rel \<and> at_attnum a = num then [(ord, at_attname a)] else []) (pg_attributes db))
      = [(ord, column_name db rel num)]" if "num \<in> set nums" for num and ord :: nat
  proof -
    have "concat (map (\<lambda>a. if at_attrelid a = rel \<and> at_attnum a = num then [(ord, at_attname a)] else []) as)
      = map (\<lambda>a. (ord, at_attname a)) (filter (\<lambda>a. at_attrelid a = rel \<and> at_attnum a = num) as)" for as :: "pg_attribute list"
      by (induction as) auto
    moreover have "key_ok db rel [num]" using assms(2) that by (simp add: key_ok_def list_all_iff)
    moreover from this obtain a where
      "filter (\<lambda>a. at_attrelid a = rel \<and> at_attnum a = num) (pg_attributes db) = [a]" "column_name db rel num = at_attname a"
      by (elim the_attribute [OF assms(1)])
    ultimately show ?thesis by simp
  qed
  have "fst ` set (unnest nums) = set nums" by (metis set_map unnest_sorted(2))
  then have "\<forall>x \<in> set (unnest nums). fst x \<in> set nums" by blast
  then show ?thesis
    unfolding key_names_def by (subst concat_map_singleton [symmetric], intro arg_cong [of _ _ concat] map_cong) (auto simp: one)
qed

lemma array_by_key:
  assumes "pg_ok db" and "key_ok db rel nums"
  shows "array_by (key_names db rel nums) = map (column_name db rel) nums"
proof -
  have "array_by (key_names db rel nums) = map (\<lambda>x. column_name db rel (fst x)) (sort_key snd (unnest nums))"
    unfolding key_names_ok [OF assms] using array_by_map [of snd "\<lambda>x. column_name db rel (fst x)" "unnest nums"]
    by (simp add: case_prod_unfold)
  also have "\<dots> = map (column_name db rel) (map fst (unnest nums))" by (simp add: unnest_sorted(1))
  finally show ?thesis by (simp add: unnest_sorted(2))
qed

lemma column_name_inj:
  assumes "pg_ok db" and "key_ok db rel nums"
  shows "inj_on (column_name db rel) (set nums)"
    and "set (map (column_name db rel) nums) \<subseteq> set (map at_attname (columns_of db rel))"
proof -
  have k: "key_ok db rel [num]" if "num \<in> set nums" for num
    using that assms(2) by (simp add: key_ok_def list_all_iff)
  show "inj_on (column_name db rel) (set nums)"
  proof (rule inj_onI)
    fix x y assume "x \<in> set nums" "y \<in> set nums" "column_name db rel x = column_name db rel y"
    with k obtain a b where "a \<in> set (live_attributes db rel)" "at_attnum a = x" "b \<in> set (live_attributes db rel)"
      "at_attnum b = y" "at_attname a = at_attname b" by (metis the_attribute [OF assms(1)])
    moreover from this have "a = b"
      by (intro inj_onD [OF pg_okD(6) [OF assms(1)]]) (auto simp: live_attributes_def)
    ultimately show "x = y" by simp
  qed
  show "set (map (column_name db rel) nums) \<subseteq> set (map at_attname (columns_of db rel))"
    using k by (auto simp: columns_of_live elim!: the_attribute [OF assms(1) k])
qed

subsection \<open>The rows of the queries\<close>

lemma filter_key_unique:
  "distinct (map f xs) \<Longrightarrow> filter (\<lambda>x. f x = y) xs = [] \<or> (\<exists>x \<in> set xs. f x = y \<and> filter (\<lambda>x. f x = y) xs = [x])"
proof (induction xs)
  case (Cons a xs)
  show ?case
  proof (cases "f a = y")
    case True
    with Cons.prems have "filter (\<lambda>x. f x = y) xs = []" by (auto simp: filter_empty_conv image_iff)
    with True show ?thesis by simp
  next
    case False
    with Cons show ?thesis by auto
  qed
qed simp

lemma primary_key_cases:
  assumes "pg_ok db"
  shows "array_by (concat (map (\<lambda>k. key_names db (co_conrelid k) (co_conkey k))
      (filter (\<lambda>k. co_conrelid k = rel \<and> co_contype k = CHR ''p'') (pg_constraints db))))
    = map (column_name db rel) (primary_key db rel) \<and> distinct (primary_key db rel) \<and> key_ok db rel (primary_key db rel)"
proof -
  let ?ps = "filter (\<lambda>k. co_conrelid k = rel \<and> co_contype k = CHR ''p'') (pg_constraints db)"
  let ?qs = "filter (\<lambda>k. co_contype k = CHR ''p'') (pg_constraints db)"
  have "distinct (map co_conrelid ?qs)" using assms by (simp add: pg_ok_def)
  from filter_key_unique [OF this, of rel] consider "?ps = []"
    | k where "?ps = [k]" "k \<in> set (pg_constraints db)" "co_conrelid k = rel" "co_contype k = CHR ''p''"
    by (auto simp: conj_commute)
  then show ?thesis
  proof cases
    case 1
    then show ?thesis by (simp add: primary_key_def array_by_def key_ok_def)
  next
    case 2
    then have "constraint_ok db k" using assms by (simp add: pg_ok_def list_all_iff)
    with 2 array_by_key [OF assms, of rel "co_conkey k"] show ?thesis
      by (simp add: primary_key_def constraint_ok_def)
  qed
qed

lemma concat_product:
  "concat (map (\<lambda>x. concat (map (\<lambda>y. if P x y then [f x y] else []) ys)) xs)
     = map (\<lambda>(x, y). f x y) (filter (\<lambda>(x, y). P x y) (List.product xs ys))"
proof -
  have "concat (map (\<lambda>y. if P x y then [f x y] else []) zs) = map (\<lambda>(x, y). f x y) (filter (\<lambda>(x, y). P x y) (map (Pair x) zs))"
    for x zs by (induction zs) auto
  then show ?thesis by (induction xs) auto
qed

definition dumpable_pairs :: "pg_db \<Rightarrow> (pg_class \<times> pg_namespace) list" where
  "dumpable_pairs db = filter (\<lambda>(c, n). dumpable db c n) (List.product (pg_classes db) (pg_namespaces db))"

lemma set_dumpable_pairs [simp]: "(c, n) \<in> set (dumpable_pairs db) \<longleftrightarrow> dumpable db c n"
  by (auto simp: dumpable_pairs_def dumpable_def)

lemma tablesQuery_rows:
  assumes "pg_ok db"
  shows "map row_table (tablesQuery db) = map (\<lambda>(c, n). pg_table db c n) (dumpable_pairs db)"
proof -
  have "filter (\<lambda>(c, n). ns_oid n = cl_relnamespace c \<and> cl_relkind c = CHR ''r'' \<and> user_schema (ns_nspname n) \<and>
      \<not> extension_owned db (cl_oid c)) (List.product (pg_classes db) (pg_namespaces db)) = dumpable_pairs db"
    unfolding dumpable_pairs_def by (rule filter_cong) (auto simp: dumpable_def extension_owned_def list_ex_iff user_schema_def like_pg simp del: sql_like.simps append_Cons append_Nil)
  then show ?thesis
    unfolding tablesQuery_def concat_product
    by (simp add: array_by_map primary_key_cases [OF assms] pg_table_def row_table_def columns_of_live comp_def case_prod_unfold)
qed

subsection \<open>The catalog of a database\<close>

definition in_db :: "pg_db \<Rightarrow> pg_class \<Rightarrow> pg_namespace \<Rightarrow> bool" where
  "in_db db c n \<longleftrightarrow> c \<in> set (pg_classes db) \<and> n \<in> set (pg_namespaces db) \<and> ns_oid n = cl_relnamespace c"

lemma dumpable_in_db: "dumpable db c n \<Longrightarrow> in_db db c n"
  by (simp add: dumpable_def in_db_def)

lemma append_sep_inj: "xs @ x # ys = xs' @ x # ys' \<Longrightarrow> x \<notin> set xs \<Longrightarrow> x \<notin> set xs' \<Longrightarrow> xs = xs' \<and> ys = ys'"
proof (induction xs arbitrary: xs')
  case (Cons a xs)
  then show ?case by (cases xs') auto
qed (auto simp: Cons_eq_append_conv)

lemma rel_key_inj:
  assumes "pg_ok db" and "undotted db" and "in_db db c n" and "in_db db c' n'" and "rel_key c n = rel_key c' n'"
  shows "c = c' \<and> n = n'"
proof -
  have "CHR ''.'' \<notin> set (ns_nspname n)" "CHR ''.'' \<notin> set (ns_nspname n')"
    using assms(2-4) by (auto simp: undotted_def in_db_def list_all_iff)
  with assms(5) have "ns_nspname n = ns_nspname n' \<and> cl_relname c = cl_relname c'"
    using append_sep_inj by (simp add: rel_key_def)
  moreover from this have "n = n'"
    using assms(3,4) by (intro inj_onD [OF pg_okD(2) [OF assms(1)]]) (auto simp: in_db_def)
  ultimately have "c = c'"
    using assms(3,4) by (intro inj_onD [OF pg_okD(4) [OF assms(1)]]) (auto simp: in_db_def)
  with \<open>n = n'\<close> show ?thesis by simp
qed

lemma table_key_pg: "table_key (pg_table db c n) = rel_key c n"
  by (simp add: table_key_def pg_table_def rel_key_def)

lemma tablesQuery_keys:
  assumes "pg_ok db" and "undotted db"
  shows "distinct (map (table_key \<circ> row_table) (tablesQuery db))"
proof -
  have "distinct (dumpable_pairs db)"
    unfolding dumpable_pairs_def using pg_okD(7,8) [OF assms(1)] by (simp add: distinct_product)
  moreover have "inj_on (\<lambda>(c, n). rel_key c n) (set (dumpable_pairs db))"
  proof (rule inj_onI, clarify)
    fix c n c' n'
    assume "(c, n) \<in> set (dumpable_pairs db)" "(c', n') \<in> set (dumpable_pairs db)" and k: "rel_key c n = rel_key c' n'"
    then have "in_db db c n" "in_db db c' n'" by (simp_all add: dumpable_in_db)
    from rel_key_inj [OF assms this k] show "c = c' \<and> n = n'" .
  qed
  ultimately have "distinct (map (\<lambda>(c, n). rel_key c n) (dumpable_pairs db))" by (simp add: distinct_map)
  moreover have "map (table_key \<circ> row_table) (tablesQuery db) = map (\<lambda>(c, n). rel_key c n) (dumpable_pairs db)"
    unfolding map_map [symmetric] tablesQuery_rows [OF assms(1)] by (auto simp: table_key_pg)
  ultimately show ?thesis by simp
qed

lemma loaded_tables:
  assumes "pg_ok db" and "undotted db" and "mset trs = mset (tablesQuery db)"
  shows "map_of (foldl scan_table [] trs) k = Some t \<longleftrightarrow> (\<exists>c n. dumpable db c n \<and> k = rel_key c n \<and> t = pg_table db c n)"
proof -
  have d: "distinct (map (table_key \<circ> row_table) trs)"
    using tablesQuery_keys [OF assms(1,2)] assms(3) by (metis mset_eq_imp_distinct_iff mset_map)
  have "row_table ` set trs = set (map row_table (tablesQuery db))" using mset_eq_setD [OF assms(3)] by simp
  then have im: "row_table ` set trs = (\<lambda>(c, n). pg_table db c n) ` set (dumpable_pairs db)"
    by (simp add: tablesQuery_rows [OF assms(1)])
  have "map_of (foldl scan_table [] trs) k = Some t \<longleftrightarrow> (k, t) \<in> (\<lambda>r. (table_key (row_table r), row_table r)) ` set trs"
    using d by (simp add: tables_distinct map_of_eq_Some_iff comp_def)
  also have "\<dots> \<longleftrightarrow> t \<in> row_table ` set trs \<and> k = table_key t" by auto
  also have "\<dots> \<longleftrightarrow> (\<exists>c n. dumpable db c n \<and> k = rel_key c n \<and> t = pg_table db c n)"
    unfolding im by (force simp: table_key_pg)
  finally show ?thesis .
qed

lemma loaded_known:
  assumes "pg_ok db" and "undotted db" and "mset trs = mset (tablesQuery db)" and "in_db db c n"
  shows "known (foldl scan_table [] trs) (rel_key c n) \<longleftrightarrow> dumpable db c n"
proof -
  have "known (foldl scan_table [] trs) (rel_key c n) \<longleftrightarrow> (\<exists>c' n'. dumpable db c' n' \<and> rel_key c n = rel_key c' n')"
    using loaded_tables [OF assms(1-3), of "rel_key c n"] by (auto simp: known_def)
  with rel_key_inj [OF assms(1,2) assms(4)] dumpable_in_db show ?thesis by metis
qed

definition pg_fk :: "pg_db \<Rightarrow> pg_constraint \<Rightarrow> pg_class \<Rightarrow> pg_namespace \<Rightarrow> pg_class \<Rightarrow> pg_namespace \<Rightarrow> foreignKey" where
  "pg_fk db k cc cn pc pn =
     \<lparr>fk_Child = rel_key cc cn, fk_Parent = rel_key pc pn,
      fk_ChildCols = map (column_name db (cl_oid cc)) (co_conkey k),
      fk_ParentCols = map (column_name db (cl_oid pc)) (co_confkey k)\<rparr>"

definition fk_between :: "pg_db \<Rightarrow> pg_constraint \<Rightarrow> pg_class \<Rightarrow> pg_class \<Rightarrow> bool" where
  "fk_between db k cc pc \<longleftrightarrow> k \<in> set (pg_constraints db) \<and> co_contype k = CHR ''f'' \<and> cl_oid cc = co_conrelid k \<and> cl_oid pc = co_confrelid k"

lemma in_set_if: "x \<in> set (if P then ys else []) \<longleftrightarrow> P \<and> x \<in> set ys" "x \<in> set [y] \<longleftrightarrow> x = y"
  by auto

lemma in_set_comp: "x \<in> set (concat (map f xs)) \<longleftrightarrow> (\<exists>a. a \<in> set xs \<and> x \<in> set (f a))"
  by auto

lemmas in_query = in_set_comp in_set_if

lemma foreignKeysQuery_rows:
  assumes "pg_ok db"
  shows "fk \<in> fk_of_row ` set (foreignKeysQuery db) \<longleftrightarrow>
    (\<exists>k cc cn pc pn. fk_between db k cc pc \<and> in_db db cc cn \<and> in_db db pc pn \<and> fk = pg_fk db k cc cn pc pn)" (is "?L = ?R")
proof -
  have arr: "array_by (key_names db (co_conrelid k) (co_conkey k)) = map (column_name db (co_conrelid k)) (co_conkey k)"
    "array_by (key_names db (co_confrelid k) (co_confkey k)) = map (column_name db (co_confrelid k)) (co_confkey k)"
    if "fk_between db k cc pc" for k cc pc
    using that assms by (auto intro!: array_by_key simp: pg_ok_def constraint_ok_def list_all_iff fk_between_def)
  let ?row = "\<lambda>k cc cn pc pn. (ns_nspname cn, cl_relname cc, ns_nspname pn, cl_relname pc,
       array_by (key_names db (co_conrelid k) (co_conkey k)), array_by (key_names db (co_confrelid k) (co_confkey k)))"
  have "r \<in> set (foreignKeysQuery db) \<longleftrightarrow>
      (\<exists>k cc cn pc pn. fk_between db k cc pc \<and> in_db db cc cn \<and> in_db db pc pn \<and> r = ?row k cc cn pc pn)" for r
    unfolding foreignKeysQuery_def in_query fk_between_def in_db_def by blast
  then have "?L \<longleftrightarrow> (\<exists>k cc cn pc pn. fk_between db k cc pc \<and> in_db db cc cn \<and> in_db db pc pn \<and> fk = fk_of_row (?row k cc cn pc pn))"
    unfolding image_iff Bex_def by metis
  moreover have "fk_of_row (?row k cc cn pc pn) = pg_fk db k cc cn pc pn" if "fk_between db k cc pc" for k cc cn pc pn
    using that arr [OF that] by (simp add: pg_fk_def rel_key_def fk_between_def)
  ultimately show ?thesis by metis
qed

lemma loaded_fks:
  assumes "pg_ok db" and "undotted db" and "mset trs = mset (tablesQuery db)" and "mset frs = mset (foreignKeysQuery db)"
  shows "fk \<in> set (foldl (scan_fk (foldl scan_table [] trs)) [] frs) \<longleftrightarrow>
    (\<exists>k cc cn pc pn. fk_between db k cc pc \<and> dumpable db cc cn \<and> dumpable db pc pn \<and> fk = pg_fk db k cc cn pc pn)"
proof -
  let ?ts = "foldl scan_table [] trs"
  have "known ?ts (fk_Child (pg_fk db k cc cn pc pn)) \<and> known ?ts (fk_Parent (pg_fk db k cc cn pc pn))
      \<longleftrightarrow> dumpable db cc cn \<and> dumpable db pc pn" if "in_db db cc cn" "in_db db pc pn" for k cc cn pc pn
    using that loaded_known [OF assms(1-3)] by (simp add: pg_fk_def)
  moreover have "fk \<in> set (foldl (scan_fk ?ts) [] frs) \<longleftrightarrow>
      fk \<in> fk_of_row ` set (foreignKeysQuery db) \<and> known ?ts (fk_Child fk) \<and> known ?ts (fk_Parent fk)"
    using mset_eq_setD [OF assms(4)] by (auto simp: foldl_scan_fk)
  ultimately show ?thesis
    unfolding foreignKeysQuery_rows [OF assms(1)] using dumpable_in_db by metis
qed

subsection \<open>Columns\<close>

lemma pg_table_columns:
  assumes "pg_ok db"
  shows "distinct (tbl_Columns (pg_table db c n)) \<and> length (tbl_Types (pg_table db c n)) = length (tbl_Columns (pg_table db c n)) \<and>
    distinct (tbl_PK (pg_table db c n)) \<and> set (tbl_PK (pg_table db c n)) \<subseteq> set (tbl_Columns (pg_table db c n))"
proof -
  have pk: "distinct (primary_key db (cl_oid c))" "key_ok db (cl_oid c) (primary_key db (cl_oid c))"
    using primary_key_cases [OF assms, of "cl_oid c"] by blast+
  have "inj_on at_attname (set (live_attributes db (cl_oid c)))"
  proof (rule inj_onI)
    fix a b assume "a \<in> set (live_attributes db (cl_oid c))" "b \<in> set (live_attributes db (cl_oid c))" "at_attname a = at_attname b"
    then show "a = b" by (intro inj_onD [OF pg_okD(6) [OF assms]]) (auto simp: live_attributes_def)
  qed
  moreover have "distinct (live_attributes db (cl_oid c))"
    using pg_okD(9) [OF assms] by (simp add: live_attributes_def)
  ultimately have "distinct (map at_attname (columns_of db (cl_oid c)))"
    by (simp add: columns_of_live distinct_map)
  moreover have "distinct (map (column_name db (cl_oid c)) (primary_key db (cl_oid c)))"
    using column_name_inj(1) [OF assms pk(2)] pk(1) by (simp add: distinct_map)
  ultimately show ?thesis
    using column_name_inj(2) [OF assms pk(2)] by (simp add: pg_table_def)
qed

lemma pg_fk_columns:
  assumes "pg_ok db" and "fk_between db k cc pc"
  shows "length (fk_ChildCols (pg_fk db k cc cn pc pn)) = length (fk_ParentCols (pg_fk db k cc cn pc pn)) \<and>
    set (fk_ChildCols (pg_fk db k cc cn pc pn)) \<subseteq> set (tbl_Columns (pg_table db cc cn)) \<and>
    set (fk_ParentCols (pg_fk db k cc cn pc pn)) \<subseteq> set (tbl_Columns (pg_table db pc pn))"
proof -
  have "length (co_conkey k) = length (co_confkey k)" and c: "key_ok db (cl_oid cc) (co_conkey k)" and p: "key_ok db (cl_oid pc) (co_confkey k)"
    using assms by (auto simp: pg_ok_def constraint_ok_def list_all_iff fk_between_def)
  with column_name_inj(2) [OF assms(1) c] column_name_inj(2) [OF assms(1) p] show ?thesis
    by (simp add: pg_fk_def pg_table_def)
qed

lemma live_column:
  assumes "pg_ok db" and "key_ok db rel [num]" and "a \<in> set (pg_attributes db)" and "at_attrelid a = rel" and "at_attnum a = num"
  shows "at_attname a \<in> set (map at_attname (columns_of db rel))"
proof -
  from the_attribute [OF assms(1,2)] obtain b where
    f: "filter (\<lambda>a. at_attrelid a = rel \<and> at_attnum a = num) (pg_attributes db) = [b]" and b: "b \<in> set (live_attributes db rel)" .
  have "a \<in> set (filter (\<lambda>a. at_attrelid a = rel \<and> at_attnum a = num) (pg_attributes db))" using assms(3-5) by simp
  then have "a = b" unfolding f by simp
  with b show ?thesis by (simp add: columns_of_live)
qed

lemma sequencesQuery_rows:
  assumes "pg_ok db" and "(name, s, t, col) \<in> set (sequencesQuery db)"
  shows "\<exists>c n. in_db db c n \<and> s = ns_nspname n \<and> t = cl_relname c \<and> col \<in> set (tbl_Columns (pg_table db c n))"
proof -
  from assms(2) consider "(name, s, t, col) \<in> set (default_sequences db)" | "(name, s, t, col) \<in> set (identity_sequences db)"
    by (auto simp: sequencesQuery_def)
  then show ?thesis
  proof cases
    case 1
    then obtain ad c n a where "ad \<in> set (pg_attrdefs db)" "in_db db c n" "a \<in> set (pg_attributes db)" "cl_oid c = ad_adrelid ad"
      "at_attrelid a = ad_adrelid ad" "at_attnum a = ad_adnum ad" "s = ns_nspname n" "t = cl_relname c" "col = at_attname a"
      unfolding default_sequences_def in_query in_db_def by blast
    moreover from this have "key_ok db (cl_oid c) [ad_adnum ad]" using assms(1) by (simp add: pg_ok_def list_all_iff)
    ultimately show ?thesis using live_column [OF assms(1)] by (fastforce simp: pg_table_def)
  next
    case 2
    then obtain d sq c n a where d: "d \<in> set (pg_depends db)" "sq \<in> set (pg_classes db)" "de_objid d = cl_oid sq" "cl_relkind sq = CHR ''S''"
      "de_refclassid d = regclass db ''pg_class''" "de_deptype d = CHR ''i''" "de_refobjid d = cl_oid c"
      and "in_db db c n" "a \<in> set (pg_attributes db)" "at_attrelid a = cl_oid c" "at_attnum a = de_refobjsubid d"
      "s = ns_nspname n" "t = cl_relname c" "col = at_attname a"
      unfolding identity_sequences_def in_query in_db_def by blast
    moreover from d assms(1) have "identity_ok db d" by (simp add: pg_ok_def list_all_iff)
    then have "key_ok db (cl_oid c) [de_refobjsubid d]" using d by (auto simp: identity_ok_def list_ex_iff)
    ultimately show ?thesis using live_column [OF assms(1)] by (fastforce simp: pg_table_def)
  qed
qed

lemma loaded_sequences:
  assumes "pg_ok db" and "undotted db" and "mset trs = mset (tablesQuery db)" and "mset srs = mset (sequencesQuery db)"
    and "u \<in> set (gm_get [] name (foldl (scan_sequence (foldl scan_table [] trs)) [] srs))"
  shows "\<exists>t. map_of (foldl scan_table [] trs) (su_Table u) = Some t \<and> su_Column u \<in> set (tbl_Columns t)"
proof -
  let ?ts = "foldl scan_table [] trs"
  have "u \<in> set (row_uses ?ts name srs)"
    using assms(5) foldl_scan_sequence [of name ?ts "[]" srs] by simp
  then obtain s t col where "(name, s, t, col) \<in> set srs" and k: "known ?ts (s @ ''.'' @ t)"
    and u: "u = \<lparr>su_Table = s @ ''.'' @ t, su_Column = col\<rparr>"
    by (auto simp: row_uses_def)
  then have "(name, s, t, col) \<in> set (sequencesQuery db)" using mset_eq_setD [OF assms(4)] by simp
  from sequencesQuery_rows [OF assms(1) this] obtain c n where i: "in_db db c n" and e: "s = ns_nspname n" "t = cl_relname c"
    and col: "col \<in> set (tbl_Columns (pg_table db c n))" by blast
  have "dumpable db c n" using loaded_known [OF assms(1-3) i] k by (simp add: e rel_key_def)
  then have "map_of ?ts (rel_key c n) = Some (pg_table db c n)" using loaded_tables [OF assms(1-3)] by blast
  with col show ?thesis by (auto simp: u e rel_key_def)
qed

end
