(* ===== verification/Props_Catalog.thy ===== *)
theory Props_Catalog
  imports Pg_Catalog Dump_Example
begin

text \<open>
  The catalog queries together with the code that reads their rows: the catalog is that of the
  database, every column it names exists, and a dump of a PostgreSQL database does not panic.
\<close>

subsection \<open>A database\<close>

text \<open>Two tables of the schema \<open>public\<close>, one with a serial column and one referencing it, a table of an
  extension and one of the server.\<close>

definition ex_attr :: "oid \<Rightarrow> string \<Rightarrow> int \<Rightarrow> bool \<Rightarrow> pg_attribute" where
  "ex_attr rel name num dropped = \<lparr>at_attrelid = rel, at_attname = name, at_atttypid = 20, at_atttypmod = - 1, at_attnum = num,
     at_attisdropped = dropped\<rparr>"

definition ex_class :: "oid \<Rightarrow> string \<Rightarrow> oid \<Rightarrow> char \<Rightarrow> pg_class" where
  "ex_class rel name ns kind = \<lparr>cl_oid = rel, cl_relname = name, cl_relnamespace = ns, cl_relkind = kind\<rparr>"

definition ex_pg :: pg_db where
  "ex_pg = \<lparr>pg_namespaces = [\<lparr>ns_oid = 1, ns_nspname = ''public''\<rparr>, \<lparr>ns_oid = 2, ns_nspname = ''pg_catalog''\<rparr>],
     pg_classes = [ex_class 10 ''u'' 1 CHR ''r'', ex_class 11 ''o'' 1 CHR ''r'', ex_class 12 ''u_id_seq'' 1 CHR ''S'',
       ex_class 13 ''ext'' 1 CHR ''r'', ex_class 14 ''pg_class'' 2 CHR ''r''],
     pg_attributes = [ex_attr 11 ''ref'' 3 False, ex_attr 10 ''id'' 1 False, ex_attr 11 ''gone'' 2 True, ex_attr 11 ''id'' 1 False,
       ex_attr 10 ''ctid'' (- 1) False],
     pg_constraints = [\<lparr>co_contype = CHR ''p'', co_conrelid = 10, co_confrelid = 0, co_conkey = [1], co_confkey = []\<rparr>,
       \<lparr>co_contype = CHR ''f'', co_conrelid = 11, co_confrelid = 10, co_conkey = [3], co_confkey = [1]\<rparr>],
     pg_attrdefs = [\<lparr>ad_oid = 30, ad_adrelid = 10, ad_adnum = 1\<rparr>],
     pg_depends = [\<lparr>de_classid = 2604, de_objid = 30, de_refclassid = 1259, de_refobjid = 12, de_refobjsubid = 0, de_deptype = CHR ''n''\<rparr>,
       \<lparr>de_classid = 1259, de_objid = 13, de_refclassid = 3079, de_refobjid = 40, de_refobjsubid = 0, de_deptype = CHR ''e''\<rparr>],
     format_type = (\<lambda>t m. if t = 20 then ''bigint'' else ''text''), quote_ident = (\<lambda>s. s),
     regclass = (\<lambda>s. if s = ''pg_class'' then 1259 else 2604), regtype = (\<lambda>s. if s = ''int8'' then 20 else 23)\<rparr>"

lemma ex_pg_ok: "pg_ok ex_pg" "undotted ex_pg"
  by code_simp+

lemma ex_pg_tables:
  "tablesQuery ex_pg = [(''public'', ''u'', [''id''], [''bigint''], [''id'']), (''public'', ''o'', [''id'', ''ref''], [''bigint'', ''bigint''], [])]"
  by code_simp

lemma ex_pg_fks: "foreignKeysQuery ex_pg = [(''public'', ''o'', ''public'', ''u'', [''ref''], [''id''])]"
  by code_simp

lemma ex_pg_seqs: "sequencesQuery ex_pg = [(''public.u_id_seq'', ''public'', ''u'', ''id'')]"
  by code_simp

lemmas ex_pg_queries = ex_pg_tables ex_pg_fks ex_pg_seqs

text \<open>The three answers of the server, in an order of its own.\<close>

definition from_db :: "pg_db \<Rightarrow> table_row list \<Rightarrow> fk_row list \<Rightarrow> seq_row list \<Rightarrow> bool" where
  "from_db db trs frs srs \<longleftrightarrow>
     mset trs = mset (tablesQuery db) \<and> mset frs = mset (foreignKeysQuery db) \<and> mset srs = mset (sequencesQuery db)"

subsection \<open>The catalog of the database\<close>

text \<open>
  Claim C16. \<open>loadCatalog\<close> on the answers of a PostgreSQL server gives the catalog of its database: its
  tables are exactly the ordinary tables of user schemas that no extension owns, each with its live
  columns in ordinal order and its primary key in key order, and its foreign keys are exactly the
  constraints between two such tables, with the columns of both sides in the order of the
  constraint. The names of schemas are assumed to have no dot.
\<close>

theorem catalog_reads_database:
  assumes "pg_ok db" and "undotted db" and "from_db db trs frs srs"
  shows "\<exists>cat. loadCatalog (Rows (map Inr trs) None) (Rows (map Inr frs) None) (Rows (map Inr srs) None) = Inr cat \<and>
    (\<forall>k t. map_of (cat_Tables cat) k = Some t \<longleftrightarrow>
       (\<exists>c n. dumpable db c n \<and> k = ns_nspname n @ ''.'' @ cl_relname c \<and> t = pg_table db c n)) \<and>
    (\<forall>fk. fk \<in> set (cat_FKs cat) \<longleftrightarrow>
       (\<exists>k cc cn pc pn. fk_between db k cc pc \<and> dumpable db cc cn \<and> dumpable db pc pn \<and> fk = pg_fk db k cc cn pc pn))"
  using loaded_tables [OF assms(1,2), of trs] loaded_fks [OF assms(1,2), of trs frs] assms(3)
  by (simp add: loadCatalog_rows from_db_def rel_key_def)

definition ex_loaded :: "dump_err + catalog" where
  "ex_loaded = loadCatalog (Rows (map Inr (rev (tablesQuery ex_pg))) None) (Rows (map Inr (foreignKeysQuery ex_pg)) None)
      (Rows (map Inr (sequencesQuery ex_pg)) None)"

lemma ex_from_db: "from_db ex_pg (rev (tablesQuery ex_pg)) (foreignKeysQuery ex_pg) (sequencesQuery ex_pg)"
  by (simp add: from_db_def)

theorem catalog_reads_database_witness:
  "\<exists>cat. ex_loaded = Inr cat \<and>
    (\<exists>c n. dumpable ex_pg c n \<and> ''public.o'' = ns_nspname n @ ''.'' @ cl_relname c \<and>
      \<lparr>tbl_Schema = ''public'', tbl_Name = ''o'', tbl_Columns = [''id'', ''ref''], tbl_Types = [''bigint'', ''bigint''], tbl_PK = [], tbl_Transforms = []\<rparr>
        = pg_table ex_pg c n)"
proof -
  have e: "case ex_loaded of Inl _ \<Rightarrow> False | Inr cat \<Rightarrow> map_of (cat_Tables cat) ''public.o'' =
      Some \<lparr>tbl_Schema = ''public'', tbl_Name = ''o'', tbl_Columns = [''id'', ''ref''], tbl_Types = [''bigint'', ''bigint''], tbl_PK = [], tbl_Transforms = []\<rparr>"
    unfolding ex_loaded_def ex_pg_queries by code_simp
  from catalog_reads_database [OF ex_pg_ok ex_from_db, folded ex_loaded_def] obtain cat where c: "ex_loaded = Inr cat"
    and t: "\<And>k t. map_of (cat_Tables cat) k = Some t \<longleftrightarrow>
       (\<exists>c n. dumpable ex_pg c n \<and> k = ns_nspname n @ ''.'' @ cl_relname c \<and> t = pg_table ex_pg c n)" by blast
  from e have "map_of (cat_Tables cat) ''public.o'' =
      Some \<lparr>tbl_Schema = ''public'', tbl_Name = ''o'', tbl_Columns = [''id'', ''ref''], tbl_Types = [''bigint'', ''bigint''], tbl_PK = [], tbl_Transforms = []\<rparr>"
    by (simp only: c sum.case)
  with c t show ?thesis by blast
qed



subsection \<open>Panics\<close>

text \<open>The rows a query scans are rows of the query, whatever order they come in and wherever reading
  them stops.\<close>

definition rows_of :: "'r list \<Rightarrow> 'r rows_result \<Rightarrow> bool" where
  "rows_of rs res \<longleftrightarrow> (case res of QErr _ \<Rightarrow> True | Rows rows _ \<Rightarrow> list_all (\<lambda>r. case r of Inl _ \<Rightarrow> True | Inr x \<Rightarrow> x \<in> set rs) rows)"

lemma scanned_types:
  assumes "rows_of (tablesQuery db) tr" and "queryRows tr scan_table [] = Inr ts"
  shows "\<forall>k t. map_of ts k = Some t \<longrightarrow> length (tbl_Columns t) \<le> length (tbl_Types t)"
proof -
  from assms(2) obtain rows fin where tr: "tr = Rows rows fin"
    and "foldM (\<lambda>s r. case r of Inl e \<Rightarrow> Inl (ScanFailed e) | Inr row \<Rightarrow> Inr (scan_table s row)) [] rows = Inr ts"
    by (auto simp: queryRows_def split: rows_result.splits sum.splits option.splits)
  have r: "row \<in> set (tablesQuery db)" if "Inr row \<in> set rows" for row
    using assms(1) that by (cases row) (force simp: tr rows_of_def list_all_iff)
  from \<open>foldM _ _ _ = _\<close> show ?thesis
  proof (rule foldM_invariant)
    fix s x s'
    assume x: "x \<in> set rows" and inv: "\<forall>k t. map_of s k = Some t \<longrightarrow> length (tbl_Columns t) \<le> length (tbl_Types t)"
      and s': "(case x of Inl e \<Rightarrow> Inl (ScanFailed e) | Inr row \<Rightarrow> Inr (scan_table s row)) = Inr s'"
    from s' obtain row where row: "x = Inr row" "s' = scan_table s row" by (auto split: sum.splits)
    obtain a b cols types pk where "row = (a, b, cols, types, pk)" by (cases row)
    moreover from this r x row(1) have "length types = length cols" using tablesQuery_lengths by blast
    ultimately show "\<forall>k t. map_of s' k = Some t \<longrightarrow> length (tbl_Columns t) \<le> length (tbl_Types t)"
      using inv by (auto simp: row(2) gm_set_def update_conv Let_def split: if_splits)
  qed simp
qed

text \<open>
  Claim C18. A dump never panics: with the rows of the catalog queries coming from a PostgreSQL
  database, in any order and with any failure while reading them, no run ends in the nil dereference
  that \<open>cat.Tables[...]\<close> could give or in the index out of range that \<open>t.Types[i]\<close> could give, whatever
  the configuration, the answers to the other queries and the failures of the writer.
\<close>

theorem dump_never_panics:
  assumes "rows_of (tablesQuery db) (dc_tables cn)"
  shows "Dump cn wr cfg \<noteq> Some (Some (NilTable k), r) \<and> Dump cn wr cfg \<noteq> Some (Some (MissingType k), r)"
proof -
  have "types_ok c" if "loadCatalog (dc_tables cn) (dc_fks cn) (dc_seqs cn) = Inr c" for c
    using that scanned_types [OF assms] by (auto simp: loadCatalog_def types_ok_def split: sum.splits)
  then have "\<not> panic e" if "Dump cn wr cfg = Some (Some e, r)" for e
    using Dump_no_panic that by blast
  then show ?thesis by (force simp: panic_def)
qed

definition ex_pgconn :: dconn where
  "ex_pgconn = \<lparr>conn_query = (\<lambda>q args. if args = [] then Rows [Inr ''(0,1)''] None else Rows [] None),
     conn_fields = (\<lambda>_. [TIDOID]), conn_typeName = (\<lambda>_. None), dc_begin = None,
     dc_tables = Rows (map Inr (tablesQuery ex_pg)) None, dc_fks = Rows (map Inr (foreignKeysQuery ex_pg)) None,
     dc_seqs = Rows (map Inr (sequencesQuery ex_pg)) None, dc_copy = (\<lambda>_. ([], None))\<rparr>"

theorem dump_never_panics_witness:
  "Dump ex_pgconn (\<lambda>_ _. Some (0, ''disk full'')) ex_cfg \<noteq> Some (Some (NilTable ''public.u''), ([], []), []) \<and>
   Dump ex_pgconn (\<lambda>_ _. Some (0, ''disk full'')) ex_cfg \<noteq> Some (Some (MissingType ''public.u''), ([], []), [])"
proof -
  have "rows_of (tablesQuery ex_pg) (dc_tables ex_pgconn)" by (simp add: rows_of_def ex_pgconn_def list_all_iff)
  from dump_never_panics [OF this, of "\<lambda>_ _. Some (0, ''disk full'')" ex_cfg "''public.u''" "(([], []), [])"] show ?thesis by simp
qed

subsection \<open>Dots in names\<close>

text \<open>Keys join schema and table with a dot: \<open>"a.b".c\<close> and \<open>a."b.c"\<close> are different tables with one key, and the
  catalog keeps the last one read.\<close>

definition dotted_db :: pg_db where
  "dotted_db = ex_pg\<lparr>pg_namespaces := [\<lparr>ns_oid = 1, ns_nspname = ''a.b''\<rparr>, \<lparr>ns_oid = 2, ns_nspname = ''a''\<rparr>],
     pg_classes := [ex_class 10 ''c'' 1 CHR ''r'', ex_class 11 ''b.c'' 2 CHR ''r'']\<rparr>"

lemma dotted_schema_loses_table:
  "pg_ok dotted_db \<and> length (tablesQuery dotted_db) = 2 \<and>
   (case loadCatalog (Rows (map Inr (tablesQuery dotted_db)) None) (Rows (map Inr (foreignKeysQuery dotted_db)) None)
       (Rows (map Inr (sequencesQuery dotted_db)) None) of
      Inl _ \<Rightarrow> False | Inr cat \<Rightarrow> cat_Keys cat = [''a.b.c''] \<and> map tbl_Name (map snd (cat_Tables cat)) = [''b.c''])"
  by code_simp

end
