(* ===== verification/Cli.thy ===== *)
theory Cli
  imports Check_Commands Coverage Scaffold_Slice Dump_Run
begin

text \<open>
  The command line of \<open>mmw\<close> (\<open>cmd/mmw/main.go\<close>, \<open>cmd/mmw/cmd\<close>): the tree of commands with their flags,
  built as the constructors build it, the action of every command, and the exit status of \<open>main\<close>. The
  long help texts are left out. Cobra's parsing of an argument list into a command path, the flags
  given and the remaining arguments is a parameter; what it documents of a command (the first word of
  \<open>Use\<close> is its name, \<open>Args\<close> and required flags are checked before the action, a command without an
  action prints its help) is part of \<open>execute\<close>.
\<close>

subsection \<open>Commands\<close>

datatype fval = FBool bool | FString string | FStrings "string list" | FFloat rat

record flag =
  fl_name :: string
  fl_short :: string
  fl_default :: fval
  fl_required :: bool

datatype args_rule = AnyArgs | NoArgs | MaximumNArgs nat

datatype action =
    ActNewModule | ActNewEntity
  | ActArch | ActFiles | ActFormat | ActTOML | ActYAML | ActLint | ActPreCommit
  | ActDump | ActCoverage | ActVersion | ActTidy | ActStatus | ActSync

datatype command =
  Command (cmd_Use: string) (cmd_Short: string) (cmd_SilenceUsage: bool) (cmd_SilenceErrors: bool)
    (cmd_Args: args_rule) (cmd_Action: "action option") (cmd_Flags: "flag list") (cmd_Commands: "command list")

fun AddCommand :: "command \<Rightarrow> command \<Rightarrow> command" where
  "AddCommand (Command use short su se args act flags cmds) sub = Command use short su se args act flags (cmds @ [sub])"

definition flag_of :: "string \<Rightarrow> string \<Rightarrow> fval \<Rightarrow> flag" where
  "flag_of name short v = \<lparr>fl_name = name, fl_short = short, fl_default = v, fl_required = False\<rparr>"

definition required :: "flag \<Rightarrow> flag" where
  "required f = f\<lparr>fl_required := True\<rparr>"

subsection \<open>new\<close>

definition NewModuleCmd :: command where
  "NewModuleCmd = Command ''module'' ''Scaffold a new hexagonal module under modules/<name>'' False False AnyArgs (Some ActNewModule)
     [flag_of ''template'' [] (FString []), flag_of ''var'' [] (FStrings [])] []"

definition NewEntityCmd :: command where
  "NewEntityCmd = Command ''entity [MODULE]'' ''Add a slice (a new entity) to an existing module'' False False (MaximumNArgs 1) (Some ActNewEntity)
     [flag_of ''module'' [] (FString []), flag_of ''template'' [] (FString []), flag_of ''var'' [] (FStrings [])] []"

definition new_NewCmd :: command where
  "new_NewCmd = AddCommand (AddCommand (Command ''new'' ''Scaffold a new module or slice'' False False AnyArgs None [] []) NewModuleCmd) NewEntityCmd"

subsection \<open>check\<close>

definition checker_command :: "string \<Rightarrow> string \<Rightarrow> action \<Rightarrow> string \<Rightarrow> command" where
  "checker_command use short act fixFlagDesc = Command use short True True AnyArgs (Some act)
     (if fixFlagDesc \<noteq> [] then [flag_of ''fix'' [] (FBool False)] else []) []"

definition NewArchCmd :: command where
  "NewArchCmd = Command ''arch'' ''Validate architectural boundaries'' False False AnyArgs (Some ActArch) [] []"

definition NewFilesCmd :: command where
  "NewFilesCmd = checker_command ''files [files...]'' ''Check files for trailing whitespace, missing EOF newline, and size > 500 KB''
     ActFiles ''rewrite files in-place (strips trailing whitespace, adds EOF newline)''"

definition NewFormatCmd :: command where
  "NewFormatCmd = checker_command ''format [files...]'' ''Check Go source formatting using gofumpt''
     ActFormat ''rewrite .go files in-place with gofumpt output''"

definition NewTOMLCmd :: command where
  "NewTOMLCmd = checker_command ''toml [files...]'' ''Check TOML files for syntax errors'' ActTOML []"

definition NewYAMLCmd :: command where
  "NewYAMLCmd = checker_command ''yaml [files...]'' ''Check YAML files for syntax errors using yamllint'' ActYAML []"

definition NewLintCmd :: command where
  "NewLintCmd = Command ''lint [packages...]'' ''Run golangci-lint against Go packages'' True True AnyArgs (Some ActLint)
     [flag_of ''workspace'' [] (FBool False)] []"

definition NewPreCommitCmd :: command where
  "NewPreCommitCmd = Command ''pre-commit'' ''Run all pre-commit checks (read-only orchestrator)'' True True AnyArgs (Some ActPreCommit)
     [flag_of ''modified'' [] (FBool False), flag_of ''fail-fast'' [] (FBool False)] []"

definition check_NewCmd :: command where
  "check_NewCmd = foldl AddCommand (Command ''check'' ''Run validators and pre-commit checks'' True True AnyArgs None [] [])
     [NewArchCmd, NewFilesCmd, NewFormatCmd, NewTOMLCmd, NewYAMLCmd, NewLintCmd, NewPreCommitCmd]"

subsection \<open>db, test, version, workspace\<close>

definition NewDumpCmd :: command where
  "NewDumpCmd = Command ''dump'' ''Dump a consistent subset of a database as a psql data script'' False False NoArgs (Some ActDump)
     [required (flag_of ''conn'' ''c'' (FString [])), required (flag_of ''config'' [] (FString [])), flag_of ''output'' ''o'' (FString [])] []"

definition db_NewCmd :: command where
  "db_NewCmd = AddCommand (Command ''db'' ''Database tools'' True True AnyArgs None [] []) NewDumpCmd"

definition NewCoverageCmd :: command where
  "NewCoverageCmd = Command ''coverage'' ''Print a test coverage table for all packages'' True True AnyArgs (Some ActCoverage)
     [flag_of ''short'' ''s'' (FBool False), flag_of ''run'' ''r'' (FString []), flag_of ''timeout'' ''t'' (FString []),
      flag_of ''min'' ''m'' (FFloat 0), flag_of ''tags'' [] (FStrings [])] []"

definition test_NewCmd :: command where
  "test_NewCmd = AddCommand (Command ''test'' ''Run test helpers'' False False AnyArgs None [] []) NewCoverageCmd"

definition version_NewCmd :: command where
  "version_NewCmd = Command ''version'' ''Print the mmw version'' False False AnyArgs (Some ActVersion) [] []"

definition NewTidyCmd :: command where
  "NewTidyCmd = Command ''tidy'' ''Run go mod tidy in every workspace module then go work sync'' True True AnyArgs (Some ActTidy) [] []"

definition NewStatusCmd :: command where
  "NewStatusCmd = Command ''status'' ''Verify all workspace modules and sync the workspace'' True True AnyArgs (Some ActStatus) [] []"

definition NewSyncCmd :: command where
  "NewSyncCmd = Command ''sync [module-dir]'' (''Update a workspace module'' @ CHR 0x27 # ''s commit across all dependents'') True True
     AnyArgs (Some ActSync) [flag_of ''all'' [] (FBool False)] []"

definition workspace_NewCmd :: command where
  "workspace_NewCmd = foldl AddCommand (Command ''workspace'' ''Manage Go workspace modules'' True True AnyArgs None [] [])
     [NewTidyCmd, NewStatusCmd, NewSyncCmd]"

definition NewRootCmd :: command where
  "NewRootCmd = foldl AddCommand (Command ''mmw'' ''MMW platform CLI'' False False AnyArgs None [] [])
     [new_NewCmd, check_NewCmd, db_NewCmd, test_NewCmd, version_NewCmd, workspace_NewCmd]"

fun PersistentPreRun :: "command \<Rightarrow> command" where
  "PersistentPreRun (Command use short su se args act flags cmds) = Command use short True True args act flags cmds"

subsection \<open>Finding a command\<close>

definition cmd_name :: "command \<Rightarrow> string" where
  "cmd_name c = hd (Go_Strings.fields (cmd_Use c))"

fun command_at :: "string list \<Rightarrow> command \<Rightarrow> command option" where
  "command_at [] c = Some c"
| "command_at (n # ns) c =
     (case List.find (\<lambda>s. cmd_name s = n) (cmd_Commands c) of None \<Rightarrow> None | Some s \<Rightarrow> command_at ns s)"

fun all_commands :: "command \<Rightarrow> (string list \<times> command) list" where
  "all_commands (Command use short su se args act flags cmds) =
     ([], Command use short su se args act flags cmds) #
     concat (map (\<lambda>s. map (\<lambda>(p, c). (cmd_name s # p, c)) (all_commands s)) cmds)"

text \<open>The commands that do something, by their path.\<close>

definition actions :: "command \<Rightarrow> (string list \<times> action) list" where
  "actions tree = concat (map (\<lambda>(p, c). case cmd_Action c of None \<Rightarrow> [] | Some a \<Rightarrow> [(p, a)]) (all_commands tree))"

lemma root_actions:
  "actions NewRootCmd =
    [([''new'', ''module''], ActNewModule), ([''new'', ''entity''], ActNewEntity),
     ([''check'', ''arch''], ActArch), ([''check'', ''files''], ActFiles), ([''check'', ''format''], ActFormat),
     ([''check'', ''toml''], ActTOML), ([''check'', ''yaml''], ActYAML), ([''check'', ''lint''], ActLint),
     ([''check'', ''pre-commit''], ActPreCommit), ([''db'', ''dump''], ActDump), ([''test'', ''coverage''], ActCoverage),
     ([''version''], ActVersion), ([''workspace'', ''tidy''], ActTidy), ([''workspace'', ''status''], ActStatus),
     ([''workspace'', ''sync''], ActSync)]"
  by code_simp

text \<open>No command hides another: each is found at its own path, and no path belongs to two.\<close>

lemma root_paths:
  "list_all (\<lambda>(p, c). command_at p NewRootCmd = Some c) (all_commands NewRootCmd)"
  "distinct (map fst (all_commands NewRootCmd))"
  by code_simp+

lemma root_flags:
  "list_all (\<lambda>(p, c). distinct (map fl_name (cmd_Flags c)) \<and> distinct (filter (\<lambda>x. x \<noteq> []) (map fl_short (cmd_Flags c)))) (all_commands NewRootCmd)"
  by code_simp

subsection \<open>Running a command\<close>

definition flag_value :: "command \<Rightarrow> (string, fval) gomap \<Rightarrow> string \<Rightarrow> fval" where
  "flag_value c given name =
     (case map_of given name of Some v \<Rightarrow> v
      | None \<Rightarrow> (case List.find (\<lambda>f. fl_name f = name) (cmd_Flags c) of Some f \<Rightarrow> fl_default f | None \<Rightarrow> FBool False))"

fun as_bool :: "fval \<Rightarrow> bool" where
  "as_bool (FBool b) = b"
| "as_bool _ = False"

fun as_string :: "fval \<Rightarrow> string" where
  "as_string (FString x) = x"
| "as_string _ = []"

fun as_strings :: "fval \<Rightarrow> string list" where
  "as_strings (FStrings xs) = xs"
| "as_strings _ = []"

fun as_float :: "fval \<Rightarrow> rat" where
  "as_float (FFloat x) = x"
| "as_float _ = 0"

text \<open>What the commands use of their surroundings, each part as its own theory takes it.\<close>

record mmw_env =
  me_root :: string
  me_scaffold :: scaffold_env
  me_tools :: tools
  me_toolsAt :: "string \<Rightarrow> tools"
  me_arch :: arch_env
  me_trust :: "string \<Rightarrow> string option"
  me_archCheck :: "string \<Rightarrow> run_end"
  me_cwd :: string
  me_dump :: run_env
  me_float :: float_lib
  me_goTest :: "string list \<Rightarrow> string"
  me_runner :: runner
  me_head :: "string \<Rightarrow> string + string"
  me_Version :: string
  me_settings :: "(string \<times> string) list option"
  me_world :: world
  me_dumpState :: run_state

datatype cli_result =
    UsageError string
  | Help
  | NewResult "new_err option \<times> world"
  | CheckResult "(checkcmd_err + fsys) \<times> string"
  | LintResult "checkcmd_err option \<times> string"
  | ArchResult "checkcmd_err option"
  | PreCommitResult "outcome \<times> string"
  | DumpResult "(run_err option \<times> run_state) option"
  | CoverageResult "cov_err option \<times> string \<times> string"
  | VersionResult string
  | WorkspaceResult "cmd_err option \<times> world"

definition entity_positional :: "string list \<Rightarrow> string" where
  "entity_positional args = (if 0 < length args then args ! 0 else [])"

definition dump_options :: "(string \<Rightarrow> fval) \<Rightarrow> Options" where
  "dump_options fv = \<lparr>opt_URL = as_string (fv ''conn''), opt_Config = as_string (fv ''config''), opt_Output = as_string (fv ''output'')\<rparr>"

definition coverage_options :: "(string \<Rightarrow> fval) \<Rightarrow> cov_options" where
  "coverage_options fv = \<lparr>co_tags = as_strings (fv ''tags''), co_short = as_bool (fv ''short''), co_run = as_string (fv ''run''),
     co_timeout = as_string (fv ''timeout''), co_min = as_float (fv ''min'')\<rparr>"

fun run_action :: "mmw_env \<Rightarrow> action \<Rightarrow> (string \<Rightarrow> fval) \<Rightarrow> string list \<Rightarrow> cli_result" where
  "run_action e ActNewModule fv args =
     NewResult (runNewModule (me_scaffold e) (me_root e) (as_string (fv ''template'')) (as_strings (fv ''var'')) (me_world e))"
| "run_action e ActNewEntity fv args =
     NewResult (runNewEntity (me_scaffold e) (me_root e) (entity_positional args) (as_string (fv ''module''))
       (as_string (fv ''template'')) (as_strings (fv ''var'')) (me_world e))"
| "run_action e ActArch fv args = ArchResult (ArchCmd (me_arch e) (me_trust e) (me_archCheck e) (me_cwd e))"
| "run_action e ActFiles fv args = CheckResult (FilesCmd (me_tools e) (as_bool (fv ''fix'')) args (w_fs (me_world e)))"
| "run_action e ActFormat fv args = CheckResult (FormatCmd (me_tools e) (as_bool (fv ''fix'')) args (w_fs (me_world e)))"
| "run_action e ActTOML fv args = CheckResult (TOMLCmd (me_tools e) args (w_fs (me_world e)))"
| "run_action e ActYAML fv args = CheckResult (YAMLCmd (me_tools e) args (w_fs (me_world e)))"
| "run_action e ActLint fv args =
     LintResult (LintCmd (me_tools e) (me_toolsAt e) (me_root e) (as_bool (fv ''workspace'')) args (w_fs (me_world e)))"
| "run_action e ActPreCommit fv args =
     PreCommitResult (runPreCommit (me_tools e) (w_fs (me_world e)) (as_bool (fv ''modified'')) (as_bool (fv ''fail-fast'')))"
| "run_action e ActDump fv args = DumpResult (Run (me_dump e) (dump_options fv) (me_dumpState e))"
| "run_action e ActCoverage fv args =
     CoverageResult (coverage_run (me_float e) (me_goTest e) (coverage_options fv) args (w_fs (me_world e)))"
| "run_action e ActVersion fv args = VersionResult (version_buildInfo (me_Version e) (me_settings e) @ [LF])"
| "run_action e ActTidy fv args = WorkspaceResult (tidy_cmd (me_runner e) (me_root e) (me_world e))"
| "run_action e ActStatus fv args = WorkspaceResult (runStatus (me_runner e) (me_root e) (me_world e))"
| "run_action e ActSync fv args =
     WorkspaceResult (sync_cmd (me_runner e) (me_head e) (me_root e) (as_bool (fv ''all'')) args (me_world e))"

fun args_ok :: "args_rule \<Rightarrow> string list \<Rightarrow> bool" where
  "args_ok AnyArgs args = True"
| "args_ok NoArgs args = (args = [])"
| "args_ok (MaximumNArgs n) args = (length args \<le> n)"

type_synonym cobra_parse = "command \<Rightarrow> string list \<Rightarrow> string + (string list \<times> (string, fval) gomap \<times> string list)"

definition execute :: "cobra_parse \<Rightarrow> mmw_env \<Rightarrow> string list \<Rightarrow> cli_result" where
  "execute parse e argv =
     (case parse NewRootCmd argv of Inl msg \<Rightarrow> UsageError msg
      | Inr (path, given, args) \<Rightarrow>
         (case command_at path NewRootCmd of None \<Rightarrow> UsageError ''unknown command''
          | Some c \<Rightarrow>
             (case cmd_Action c of None \<Rightarrow> Help
              | Some act \<Rightarrow>
                 (if \<not> args_ok (cmd_Args c) args then UsageError ''unexpected arguments''
                  else if list_ex (\<lambda>f. fl_required f \<and> map_of given (fl_name f) = None) (cmd_Flags c)
                  then UsageError ''required flag not set''
                  else run_action e act (flag_value (PersistentPreRun c) given) args))))"

text \<open>Whether \<open>Execute\<close> returned an error; \<open>None\<close> when it does not return.\<close>

fun cli_failed :: "cli_result \<Rightarrow> bool option" where
  "cli_failed (UsageError msg) = Some True"
| "cli_failed Help = Some False"
| "cli_failed (NewResult r) = Some (fst r \<noteq> None)"
| "cli_failed (CheckResult r) = Some (isl (fst r))"
| "cli_failed (LintResult r) = Some (fst r \<noteq> None)"
| "cli_failed (ArchResult r) = Some (r \<noteq> None)"
| "cli_failed (PreCommitResult r) = Some (fst r \<noteq> NothingToCheck \<and> fst r \<noteq> AllPassed)"
| "cli_failed (DumpResult r) = map_option (\<lambda>(e, st). e \<noteq> None) r"
| "cli_failed (CoverageResult r) = Some (fst r \<noteq> None)"
| "cli_failed (VersionResult out) = Some False"
| "cli_failed (WorkspaceResult r) = Some (fst r \<noteq> None)"

definition mmw_exit :: "cobra_parse \<Rightarrow> mmw_env \<Rightarrow> string list \<Rightarrow> nat option" where
  "mmw_exit parse e argv = map_option (\<lambda>failed. if failed then 1 else 0) (cli_failed (execute parse e argv))"

end
