(* ===== verification/Props_Cli.thy ===== *)
theory Props_Cli
  imports Cli Props_Checks Props_Dump_Output
begin

text \<open>
  What the exit status of \<open>mmw\<close> tells its caller: a git hook that runs the checks, and a script that
  reads the dump afterwards.
\<close>

lemma flag_value_PreRun [simp]: "flag_value (PersistentPreRun c) = flag_value c"
proof -
  have "cmd_Flags (PersistentPreRun c) = cmd_Flags c" by (cases c) simp
  then show ?thesis by (intro ext) (simp only: flag_value_def)
qed

lemma execute_at:
  assumes "parse NewRootCmd argv = Inr (path, given, args)" and "command_at path NewRootCmd = Some c" and "cmd_Action c = Some act"
  shows "execute parse e argv =
    (if \<not> args_ok (cmd_Args c) args then UsageError ''unexpected arguments''
     else if list_ex (\<lambda>f. fl_required f \<and> map_of given (fl_name f) = None) (cmd_Flags c) then UsageError ''required flag not set''
     else run_action e act (flag_value c given) args)"
  using assms by (simp add: execute_def)


lemma at_pre_commit: "command_at [''check'', ''pre-commit''] NewRootCmd = Some NewPreCommitCmd"
  by code_simp


subsection \<open>The commit hook\<close>

text \<open>
  Claim C20. \<open>mmw check pre-commit\<close> ends with status 0 exactly when git selected no file, or every check
  command run by hand on the selected files succeeds (\<open>files\<close>, \<open>yaml\<close>, \<open>toml\<close>, \<open>format\<close>, and the linter on
  the packages of those files), with or without \<open>--fail-fast\<close>; otherwise it ends with status 1. \<open>--modified\<close>
  decides which files git selects.
\<close>

theorem pre_commit_exit:
  assumes "parse NewRootCmd argv = Inr ([''check'', ''pre-commit''], given, args)"
  shows "mmw_exit parse e argv =
    (let w = me_tools e; fs = w_fs (me_world e); selected = SelectFiles w (as_bool (flag_value NewPreCommitCmd given ''modified'')) in
     Some (if selected = Inr [] \<or>
         (\<exists>files. selected = Inr files \<and> cmd_passes (FilesCmd w False files fs) \<and> cmd_passes (YAMLCmd w files fs) \<and>
            cmd_passes (TOMLCmd w files fs) \<and> cmd_passes (FormatCmd w False files fs) \<and>
            (\<exists>r. lintCheck w True files = Inr r \<and> \<not> HasViolations r))
       then 0 else 1))"
proof -
  let ?w = "me_tools e" and ?fs = "w_fs (me_world e)"
  let ?m = "as_bool (flag_value NewPreCommitCmd given ''modified'')" and ?ff = "as_bool (flag_value NewPreCommitCmd given ''fail-fast'')"
  have "cmd_Action NewPreCommitCmd = Some ActPreCommit" by (simp add: NewPreCommitCmd_def)
  from execute_at [where parse = parse and argv = argv, OF assms at_pre_commit this, where e = e] have "execute parse e argv = PreCommitResult (runPreCommit ?w ?fs ?m ?ff)"
    by (simp add: NewPreCommitCmd_def flag_of_def)
  moreover have "fst (runPreCommit ?w ?fs ?m ?ff) = NothingToCheck \<longleftrightarrow> SelectFiles ?w ?m = Inr []"
    by (auto simp: runPreCommit_def Let_def split: sum.splits prod.splits option.splits if_splits)
  ultimately show ?thesis
    using runPreCommit_passes [of ?w ?fs ?m ?ff] by (auto simp: mmw_exit_def Let_def)
qed

definition ex_hook :: tools where
  "ex_hook = \<lparr>tl_diffCached = Inr [], tl_diff = Inr [], tl_lsFiles = Inr [], tl_lookPath = (\<lambda>_. True), tl_golangci = (\<lambda>_. True),
     tl_yamllint = (\<lambda>_. (True, [])), tl_cancelled = False, tl_gofumpt = Inr, tl_toml = (\<lambda>_. None), tl_writeErr = (\<lambda>_. None)\<rparr>"

definition ex_parse :: cobra_parse where
  "ex_parse tree argv = Inr (take 2 argv, [], drop 2 argv)"

theorem pre_commit_exit_witness:
  "\<forall>e. mmw_exit ex_parse (e\<lparr>me_tools := ex_hook\<rparr>) [''check'', ''pre-commit''] = Some 0"
proof
  fix e :: mmw_env
  have p: "ex_parse NewRootCmd [''check'', ''pre-commit''] = Inr ([''check'', ''pre-commit''], [], [])" by (simp add: ex_parse_def)
  have "SelectFiles ex_hook (as_bool (flag_value NewPreCommitCmd [] ''modified'')) = Inr []" by code_simp
  with pre_commit_exit [where parse = ex_parse, OF p, where e = "e\<lparr>me_tools := ex_hook\<rparr>"] show "mmw_exit ex_parse (e\<lparr>me_tools := ex_hook\<rparr>) [''check'', ''pre-commit''] = Some 0"
    by (simp add: Let_def)
qed

subsection \<open>The dump\<close>









end
