(* ===== verification/Boa_Model.thy ===== *)
theory Boa_Model
  imports Slice_Inbound
begin

text \<open>
  The data model of a generated module (\<open>dao/boamodel\<close>: \<open>models.go\<close>, \<open>columns.go\<close>, \<open>q.go\<close>) and the columns a
  slice reads (\<open>[[.Entity]]_row.go\<close>). A struct is the list of its fields; \<open>pascal\<close> is the template
  function that makes an exported name. The three files are generated from one schema and kept in the
  templates as text; here they are shown to agree: every column is the one its field is tagged with,
  every qualified identifier is a column of the table alias, and the tables have the names of the
  models.
\<close>

subsection \<open>models.go\<close>

text \<open>A model: the tag of its \<open>boa.BaseModel\<close> and its fields with their tags.\<close>

record boa_model =
  bm_table :: string
  bm_fields :: "(string \<times> string) list"

definition EventModel :: "string \<Rightarrow> boa_model" where
  "EventModel name = \<lparr>bm_table = ''table:'' @ name @ ''.event,alias:t'',
     bm_fields = [(''ID'', ''id,pk,autoincrement''), (''EventType'', ''event_type,notnull''), (''Payload'', ''payload,notnull''),
       (''OccurredAt'', ''occurred_at,notnull,default:now()''), (''PublishedAt'', ''published_at'')]\<rparr>"

definition EntityModel :: "string \<Rightarrow> string \<Rightarrow> boa_model" where
  "EntityModel name entity = \<lparr>bm_table = ''table:'' @ name @ ''.'' @ entity @ '',alias:t'',
     bm_fields = [(''ID'', ''id,pk,autoincrement''), (''Label'', ''label,notnull''), (''CreatedAt'', ''created_at,notnull,default:now()''),
       (''UpdatedAt'', ''updated_at,notnull,default:now()'')]\<rparr>"

definition models :: "(string \<Rightarrow> string) \<Rightarrow> string \<Rightarrow> string \<Rightarrow> shape \<Rightarrow> (string \<times> boa_model) list" where
  "models pascal name entity sh = (pascal name @ ''Event'', EventModel name) #
     (if sh \<noteq> Gateway then [(pascal name @ pascal entity, EntityModel name entity)] else [])"

subsection \<open>columns.go\<close>

definition EventColumns :: "(string \<times> string) list" where
  "EventColumns = [(''ID'', ''id''), (''EventType'', ''event_type''), (''Payload'', ''payload''), (''OccurredAt'', ''occurred_at''),
     (''PublishedAt'', ''published_at'')]"

definition EntityColumns :: "(string \<times> string) list" where
  "EntityColumns = [(''ID'', ''id''), (''Label'', ''label''), (''CreatedAt'', ''created_at''), (''UpdatedAt'', ''updated_at'')]"

definition Columns :: "(string \<Rightarrow> string) \<Rightarrow> string \<Rightarrow> string \<Rightarrow> shape \<Rightarrow> (string \<times> (string \<times> string) list) list" where
  "Columns pascal name entity sh = (pascal name @ ''Event'', EventColumns) #
     (if sh \<noteq> Gateway then [(pascal name @ pascal entity, EntityColumns)] else [])"

record boa_table =
  bt_Name :: string
  bt_Alias :: string

definition Tables :: "(string \<Rightarrow> string) \<Rightarrow> string \<Rightarrow> string \<Rightarrow> shape \<Rightarrow> (string \<times> boa_table) list" where
  "Tables pascal name entity sh = (pascal name @ ''Event'', \<lparr>bt_Name = name @ ''.event'', bt_Alias = ''t''\<rparr>) #
     (if sh \<noteq> Gateway then [(pascal name @ pascal entity, \<lparr>bt_Name = name @ ''.'' @ entity, bt_Alias = ''t''\<rparr>)] else [])"

subsection \<open>q.go and the columns of a row\<close>

definition Q :: "(string \<Rightarrow> string) \<Rightarrow> string \<Rightarrow> string \<Rightarrow> shape \<Rightarrow> (string \<times> (string \<times> string) list) list" where
  "Q pascal name entity sh =
     (pascal name @ ''Event'', [(''ID'', ''t.id''), (''EventType'', ''t.event_type''), (''Payload'', ''t.payload''),
        (''OccurredAt'', ''t.occurred_at''), (''PublishedAt'', ''t.published_at'')]) #
     (if sh \<noteq> Gateway
      then [(pascal name @ pascal entity, [(''ID'', ''t.id''), (''Label'', ''t.label''), (''CreatedAt'', ''t.created_at''), (''UpdatedAt'', ''t.updated_at'')])]
      else [])"

definition row_columns :: "string list" where
  "row_columns = map (\<lambda>f. gm_get [] f EntityColumns) [''ID'', ''Label'', ''CreatedAt'', ''UpdatedAt'']"

subsection \<open>Agreement\<close>

definition tag_column :: "string \<Rightarrow> string" where
  "tag_column tag = hd (split_on CHR '','' tag)"

lemma columns_of_models:
  "Columns pascal name entity sh = map (\<lambda>(s, m). (s, map (\<lambda>(f, tag). (f, tag_column tag)) (bm_fields m))) (models pascal name entity sh)"
proof -
  have "map (\<lambda>(f, tag). (f, tag_column tag)) (bm_fields (EventModel name)) = EventColumns"
    "map (\<lambda>(f, tag). (f, tag_column tag)) (bm_fields (EntityModel name entity)) = EntityColumns"
    by (simp_all add: EventModel_def EntityModel_def EventColumns_def EntityColumns_def) (code_simp+)
  then show ?thesis by (simp add: Columns_def models_def)
qed

lemma tables_of_models:
  "map (\<lambda>(s, t). (s, ''table:'' @ bt_Name t @ '',alias:'' @ bt_Alias t)) (Tables pascal name entity sh)
     = map (\<lambda>(s, m). (s, bm_table m)) (models pascal name entity sh)"
  by (simp add: Tables_def models_def EventModel_def EntityModel_def)

lemma q_of_columns:
  "Q pascal name entity sh =
     map (\<lambda>((s, cols), (s', t)). (s, map (\<lambda>(f, c). (f, bt_Alias t @ ''.'' @ c)) cols)) (zip (Columns pascal name entity sh) (Tables pascal name entity sh))"
  by (simp add: Q_def Columns_def Tables_def EventColumns_def EntityColumns_def)

text \<open>A slice reads every column of its table, each once.\<close>

lemma row_columns_all: "row_columns = map snd EntityColumns \<and> distinct row_columns"
  by code_simp

end
