(* ===== verification/Spec2Isabelle.thy ===== *)
theory Spec2Isabelle
  imports Props_Dump Props_Dump_Output Props_Modules Props_Checks Props_Scaffold Props_Platform Props_Tools Props_Root
    Props_Catalog Props_Cli Boa_Model
begin

text \<open>
  Verification of \<open>mmw\<close>, a Go toolkit for modular monoliths: a command line tool
  (\<open>cmd/mmw\<close>) that scaffolds, checks and maintains a workspace of modules, a platform library
  (\<open>pkg/platform\<close>) the modules run on, and the templates (\<open>pkg/scaffold/_templates\<close>) from which
  modules are generated. This theory imports all others and holds the properties that span them.

  \<^bold>\<open>The program and the theories.\<close>

  \<^item> Base: \<open>Prelude\<close> (folds that stop at an error, Go maps as association lists, the collections
    \<open>go_defs\<close> and \<open>gm_simps\<close>), \<open>Go_Strings\<close>, \<open>Go_Match\<close>, \<open>Go_Path\<close>, \<open>Go_Errors\<close> and \<open>Go_OS\<close>: what
    the source uses of Go's \<open>strings\<close>, \<open>path.Match\<close>, \<open>path/filepath\<close>, \<open>errors\<close>, \<open>os\<close>, \<open>bufio\<close> and
    \<open>os/exec\<close>. A string is the list of its bytes.
  \<^item> \<open>mmw db dump\<close> (\<open>internal/pkg/dump\<close>), which copies a connected part of a database:
    \<open>Dump_Config\<close> (config.go), \<open>Dump_Catalog\<close> (catalog.go), \<open>Dump_SQL\<close> (sql.go), \<open>Dump_Walk\<close> and
    \<open>Dump_Closure\<close> (walk.go and its meaning), \<open>Dump_Output\<close> and \<open>Dump_Run\<close> (output.go, snapshot.go,
    dump.go). The connection is a record of functions that answer queries; \<open>Pg_Catalog\<close> gives the three
    catalog queries their meaning over PostgreSQL's system tables. \<open>Props_Catalog\<close>: the catalog is that of
    the database, every column it names exists, and no dump panics. \<open>Props_Dump\<close>: the walk
    returns, and returns exactly the rows reachable from the seeds; it never dereferences a missing
    table; the catalog does not depend on row order; an accepted configuration is in range.
    \<open>Props_Dump_Output\<close>: the script is complete, quoting reads back, a failed run leaves the output
    file alone. \<open>Dump_Example\<close> is the database the witnesses use.
  \<^item> Transactions and events: \<open>Unit_Of_Work\<close> (pg/uow, authctx) with nested transactions as a stack of
    database versions, \<open>Outbox_Relay\<close> (db/outbox/relay.go, events/watermill.go) with its batches and
    failure points as a step relation.
  \<^item> Generated slices (the \<open>slice\<close> and \<open>module\<close> templates): \<open>Slice_Domain\<close>, \<open>Slice_Ports\<close>,
    \<open>Slice_Delete\<close>, \<open>Slice_Inbound\<close>, \<open>Slice_Services\<close> (the application services and their wiring on
    Postgres and on the fakes), \<open>Boa_Model\<close> (the generated data model, shown to agree with itself and with
    the columns a slice reads). \<open>Props_Modules\<close>: deleting is atomic, the Postgres and the
    in-memory repository keep one contract, published rows were sent, the relay drains its table,
    domain errors keep their status on the wire. Together with the theorem below: a deleted row's
    event reaches the bus.
  \<^item> Generated modules (\<open>[[.Name]].go\<close>, \<open>infra/config\<close>, the two main programs): \<open>Module_Root\<close>, on the
    server of \<open>Http_Server\<close> and the goroutine groups of \<open>Errgroup\<close>; the application is the runner's
    group of the modules' groups. \<open>Props_Root\<close>: the application stops once it is told to, a module
    serves nothing without a valid token and the same under \<open>/api\<close>, an accepted name makes a module that
    can be created, the service on fakes answers as the one on Postgres, and what is logged of an error.
  \<^item> Pre-commit checks (\<open>internal/pkg/checks\<close>, \<open>cmd/check\<close>, \<open>cmd/version\<close>): \<open>Checks_Files\<close>, \<open>Checks\<close> and
    \<open>Check_Commands\<close>; \<open>Props_Checks\<close>: what Fix leaves passes the check, a pre-commit run passes exactly
    when the check commands do.
  \<^item> Scaffolding (\<open>pkg/scaffold\<close>, \<open>cmd/new\<close>, \<open>cmd/workspace\<close>): \<open>Scaffold_Vars\<close> (variables and
    validation), \<open>Scaffold_Insert\<close> (marker insertions), \<open>Work_File\<close> (go.work, mise.toml, tidy, status,
    sync), \<open>Scaffold_Slice\<close> (stamps, slices, the two commands), \<open>Scaffold_Messages\<close> (what they tell the
    user). \<open>Props_Scaffold\<close>: nothing is written
    before validation, the workspace is complete after success, edits are idempotent, no
    snippet is lost, and new migrations sort last.
  \<^item> Platform (\<open>pkg/platform\<close>): \<open>Http_Middleware\<close> (middleware/, safego.go and the handlers of server/),
    \<open>Http_Server\<close> (the router of net/http and \<open>NewHTTPServer\<close>), \<open>Errgroup\<close> and \<open>Platform_Core\<close>
    (root_repo.go, config/, os/, slog/loglevel.go, runner.go and helpers), \<open>Config_URL\<close> (the URLs of
    config/), \<open>Platform_Services\<close> (slog.go, connect/interceptors.go, the migrator's log, the Watermill buses,
    the pool); \<open>Props_Platform\<close>: who reaches a handler, the server always answers, the root search ends
    at the nearest go.work, what the runner returns, credentials stay apart in a database URL.
  \<^item> Tools: \<open>Archtest\<close> (\<open>pkg/archtest\<close>), \<open>Migrator\<close> (db/migrator, db/cli) and \<open>Coverage\<close>
    (cmd/test/coverage.go); \<open>Props_Tools\<close>: what a passing architecture check guarantees and what it does
    not see, where a migration is written, what each migrate command may change, what the coverage
    threshold looks at.

  \<^item> Command line (\<open>cmd/mmw\<close>): \<open>Cli\<close>, the tree of commands with their flags, the action of each from the
    theories above, and the exit status; \<open>Props_Cli\<close>: the status of \<open>mmw check pre-commit\<close> is that of the
    checks, and the status of \<open>mmw db dump\<close> says whether the output file holds the complete script.

  \<^bold>\<open>Conventions.\<close> A struct is a record, a method a function on it; an error is a value (\<open>Inl\<close>, or
  \<open>Some\<close> for a function that returns only an error); a Go panic that the code can reach is an
  outcome of its own. The file system is a function from paths to nodes. Code outside the repository
  is a parameter of the definitions that use it: the database server, goose, viper, envconfig, git,
  golangci-lint, yamllint, gofumpt, mise, cobra, the template engine's generator, Unicode case and accent
  tables, protojson, the CORS, profiling and reflection handlers, the Watermill router, \<open>go test\<close>. What a property needs of such a parameter is one of its hypotheses.

  \<^bold>\<open>Interfaces\<close> are locales, each interpreted on the model: \<open>quoting\<close> (identifiers and literals),
  \<open>row_set\<close> (selected rows), \<open>repository\<close> (Postgres and memory), \<open>tx_body\<close> (bodies of transactions),
  \<open>fixer\<close> (files and gofumpt), \<open>file_edit\<close> (go.work and mise.toml), \<open>gate\<close> and \<open>gate_chain\<close>
  (authentication and authorisation), \<open>import_rule\<close> (the validators of imports), \<open>service_match\<close> (two
  services whose answers agree, on Postgres and on the fakes), \<open>heeding_group\<close> (goroutines that return
  once cancelled: those of a module, and the modules of an application).

  \<^bold>\<open>Loops.\<close> Two loops are \<open>partial_function (option)\<close>, where \<open>None\<close> is not returning: the closure
  loop of the walk and the search for the repository root. Both are proved to return, the first for
  every database with finitely many rows, the second for every absolute path. All other recursion is
  total. There is no fuel. Integers are unbounded except the port, a 16-bit word; sizes the code
  compares against (batch limit, line buffers, file size) are its constants.

  \<^bold>\<open>Not modelled.\<close> Cobra's parsing of arguments and the long help texts, some of what commands print for
  the reader, generated protobuf code, HTTP/2 cleartext, the signals that cancel a dump, and the
  in-memory bus the main program of a module creates: they call libraries or construct values and have
  no logic of their own. Floating-point numbers are the rationals they stand for. Goroutines are
  modelled where their interleaving matters (the relay, the runner and the modules); time only where a
  value depends on it.
\<close>

section \<open>Properties across components\<close>

text \<open>
  Claim C6. From the use case to the bus: when the delete command succeeds, the topic and payload of
  the row's Deleted event are on the bus after the relay has ticked without a failure often enough
  for the rows pending at that time. The unit of work, the outbox dispatcher and the relay work
  together.
\<close>

theorem deleted_event_delivered:
  assumes "ctx_tx c = None"
    and "DeleteExecute entity now (pg_ports entity env flt) c i st = (None, st')"
    and "outbox_wf (st_committed st)"
    and "sent \<lparr>ob_table = db_outbox (st_committed st), ob_bus = bus\<rparr>"
    and "length (pending \<lparr>ob_table = db_outbox (st_committed st), ob_bus = bus\<rparr>) < n * 100"
  shows "\<exists>u row topic payload. ctx_user c = Some u \<and> db_rows (st_committed st) i = Some row \<and>
    encode_event entity env (newDeletedEvent now u (Reconstitute row)) = Inr (topic, payload) \<and>
    db_rows (st_committed st') i = None \<and>
    (topic, payload) \<in> set (ob_bus (ticks n \<lparr>ob_table = db_outbox (st_committed st'), ob_bus = bus\<rparr>))"
proof -
  from DeleteExecute_root [OF assms(1,2)] obtain u row topic payload where
    u: "ctx_user c = Some u" "db_rows (st_committed st) i = Some row"
    "encode_event entity env (newDeletedEvent now u (Reconstitute row)) = Inr (topic, payload)"
    and st': "st' = st\<lparr>st_committed := insert_rows [(topic, payload, now)]
        ((st_committed st)\<lparr>db_rows := (db_rows (st_committed st))(i := None)\<rparr>)\<rparr>" by auto
  let ?e = "\<lparr>oe_id = db_nextEvent (st_committed st), oe_type = topic, oe_payload = payload, oe_occurred = now, oe_published = False\<rparr>"
  let ?ob = "\<lparr>ob_table = db_outbox (st_committed st'), ob_bus = bus\<rparr>"
  have tab: "db_outbox (st_committed st') = db_outbox (st_committed st) @ [?e]"
    by (simp add: st' insert_rows_def)
  have "distinct (map oe_id (db_outbox (st_committed st')))"
    using assms(3) by (auto simp: tab outbox_wf_def)
  then have s: "sent ?ob" using assms(4) by (auto simp: sent_def tab)
  have "length (pending ?ob) \<le> n * batchLimit" using assms(5) by (simp add: pending_def tab batchLimit_def)
  from drained_sent [OF s this, of ?e] have "(topic, payload) \<in> set (ob_bus (ticks n ?ob))"
    by (simp add: tab message_of_def)
  with u show ?thesis by (auto simp: st' insert_rows_def)
qed

theorem deleted_event_delivered_witness:
  "\<exists>st' topic payload. DeleteExecute ''account'' 9 (pg_ports ''account'' ex_dbenv ex_flt) ex_ctx 3 ex_store = (None, st') \<and>
    (topic, payload) \<in> set (ob_bus (ticks 1 \<lparr>ob_table = db_outbox (st_committed st'), ob_bus = []\<rparr>))"
proof -
  obtain st' where d: "DeleteExecute ''account'' 9 (pg_ports ''account'' ex_dbenv ex_flt) ex_ctx 3 ex_store = (None, st')"
    using ex_delete by (metis prod.collapse)
  from deleted_event_delivered [OF _ d, of "[]" 1] d show ?thesis
    by (auto simp: ex_ctx_def ex_store_def ex_db_def outbox_wf_def sent_def pending_def)
qed

end
